(* ===== verification/Prelude.thy ===== *)
theory Prelude
  imports Main "HOL-Library.Code_Target_Numeral"
begin

text \<open>
  Shared vocabulary of the MirrorGate development.

  \<^item> Python strings are lists of code points (\<open>pystr\<close>), so that lone surrogates and the
    UTF-8 length the sources measure are visible; \<open>lit\<close> turns an ASCII literal into one.
  \<^item> Python values that come out of \<^verbatim>\<open>json.loads\<close> are \<open>pyval\<close>; a dict is the list of its
    items in insertion order, with pairwise distinct keys (\<open>wf_pyval\<close>).
  \<^item> A raised exception is \<open>Inl\<close> of a \<open>pyexc\<close>; a validator is a list of checks run in order by
    \<open>seqE\<close>, the first failing one being the exception the source raises.
  \<^item> \<open>PurePosixPath\<close>, \<^verbatim>\<open>str.split\<close> and UTF-8 encoding are modelled as far as the sources use them.
\<close>

named_theorems py_simps \<open>evaluation of the Python vocabulary\<close>
named_theorems accept_simps \<open>when a validator accepts\<close>

section \<open>Strings\<close>

type_synonym pystr = "nat list"
type_synonym bytes = "nat list"

definition lit :: "string \<Rightarrow> pystr" where
  "lit s = map of_char s"

lemma lit_eq_iff [simp]: "lit a = lit b \<longleftrightarrow> a = b"
proof -
  have "inj (of_char :: char \<Rightarrow> nat)" by (rule injI) simp
  then show ?thesis by (simp add: lit_def)
qed

lemma lit_Nil_iff [simp]: "lit a = [] \<longleftrightarrow> a = []" "[] = lit a \<longleftrightarrow> a = []"
  by (auto simp: lit_def)

lemma lit_Nil [simp]: "lit [] = []"
  by (simp add: lit_def)

lemma length_lit [simp]: "length (lit a) = length a"
  by (simp add: lit_def)

lemma lit_append: "lit (a @ b) = lit a @ lit b"
  by (simp add: lit_def)

lemma inj_lit: "inj lit"
  by (rule injI) simp

lemma lit_in_image [simp]: "lit a \<in> lit ` A \<longleftrightarrow> a \<in> A"
  by (auto simp: inj_image_mem_iff [OF inj_lit])

definition startswith :: "pystr \<Rightarrow> pystr \<Rightarrow> bool" where
  "startswith s p \<longleftrightarrow> take (length p) s = p"

definition endswith :: "pystr \<Rightarrow> pystr \<Rightarrow> bool" where
  "endswith s p \<longleftrightarrow> length p \<le> length s \<and> drop (length s - length p) s = p"

lemma startswith_append [simp]: "startswith (p @ s) p"
  by (simp add: startswith_def)

lemma startswith_iff: "startswith s p \<longleftrightarrow> (\<exists>t. s = p @ t)"
  by (metis append_eq_conv_conj append_take_drop_id startswith_def)

text \<open>\<^verbatim>\<open>str.split(sep)\<close> for a one-character separator, and \<^verbatim>\<open>sep.join(parts)\<close>.\<close>

fun psplit :: "nat \<Rightarrow> pystr \<Rightarrow> pystr list" where
  "psplit c [] = [[]]"
| "psplit c (x # xs) =
     (if x = c then [] # psplit c xs
      else (case psplit c xs of [] \<Rightarrow> [[x]] | y # ys \<Rightarrow> (x # y) # ys))"

fun pjoin :: "nat \<Rightarrow> pystr list \<Rightarrow> pystr" where
  "pjoin c [] = []"
| "pjoin c [p] = p"
| "pjoin c (p # q # ps) = p @ c # pjoin c (q # ps)"

lemma psplit_not_Nil [simp]: "psplit c s \<noteq> []"
  by (induction s) (auto split: list.splits)

lemma pjoin_psplit [simp]: "pjoin c (psplit c s) = s"
proof (induction s)
  case (Cons x xs)
  then show ?case
    by (cases "psplit c xs"; cases "tl (psplit c xs)") (auto split: list.splits)
qed simp

lemma psplit_sep_free: "p \<in> set (psplit c s) \<Longrightarrow> c \<notin> set p"
proof (induction s arbitrary: p)
  case (Cons x xs)
  then show ?case
    by (cases "psplit c xs") (auto split: if_splits)
qed simp

lemma psplit_append_sep: "c \<notin> set p \<Longrightarrow> psplit c (p @ c # s) = p # psplit c s"
  by (induction p) auto

lemma psplit_no_sep: "c \<notin> set p \<Longrightarrow> psplit c p = [p]"
  by (induction p) auto

lemma psplit_pjoin:
  "ps \<noteq> [] \<Longrightarrow> (\<And>p. p \<in> set ps \<Longrightarrow> c \<notin> set p) \<Longrightarrow> psplit c (pjoin c ps) = ps"
  by (induction ps rule: pjoin.induct) (auto simp: psplit_append_sep psplit_no_sep)

abbreviation slash :: nat where "slash \<equiv> 47"

section \<open>UTF-8\<close>

definition is_surrogate :: "nat \<Rightarrow> bool" where
  "is_surrogate c \<longleftrightarrow> 55296 \<le> c \<and> c \<le> 57343"

definition utf8_char :: "nat \<Rightarrow> bytes" where
  "utf8_char c =
     (if c < 128 then [c]
      else if c < 2048 then [192 + c div 64, 128 + c mod 64]
      else if c < 65536 then [224 + c div 4096, 128 + c div 64 mod 64, 128 + c mod 64]
      else [240 + c div 262144, 128 + c div 4096 mod 64, 128 + c div 64 mod 64, 128 + c mod 64])"

text \<open>\<^verbatim>\<open>s.encode("utf-8")\<close>: \<open>None\<close> is the \<^verbatim>\<open>UnicodeEncodeError\<close> of a lone surrogate.\<close>

definition utf8 :: "pystr \<Rightarrow> bytes option" where
  "utf8 s = (if list_ex is_surrogate s then None else Some (concat (map utf8_char s)))"

definition utf8_len :: "pystr \<Rightarrow> nat option" where
  "utf8_len s = map_option length (utf8 s)"

definition encodable :: "pystr \<Rightarrow> bool" where
  "encodable s \<longleftrightarrow> \<not> list_ex is_surrogate s"

definition utf8_size :: "pystr \<Rightarrow> nat" where
  "utf8_size s = sum_list (map (length \<circ> utf8_char) s)"

lemma utf8_len_eq: "utf8_len s = (if encodable s then Some (utf8_size s) else None)"
  by (simp add: utf8_len_def utf8_def encodable_def utf8_size_def length_concat comp_def)

lemma utf8_size_simps [simp]:
  "utf8_size [] = 0"
  "utf8_size (c # s) = length (utf8_char c) + utf8_size s"
  "utf8_size (s @ t) = utf8_size s + utf8_size t"
  by (simp_all add: utf8_size_def)

lemma utf8_char_length: "1 \<le> length (utf8_char c)" "length (utf8_char c) \<le> 4"
  by (simp_all add: utf8_char_def)

lemma length_le_utf8_size: "length s \<le> utf8_size s"
proof (induction s)
  case (Cons c s)
  then show ?case using utf8_char_length(1) [of c] by simp
qed simp

lemma utf8_size_0 [simp]: "utf8_size s = 0 \<longleftrightarrow> s = []"
  using length_le_utf8_size [of s] by auto

definition is_ascii :: "pystr \<Rightarrow> bool" where
  "is_ascii s \<longleftrightarrow> list_all (\<lambda>c. c < 128) s"

lemma ascii_encodable: "is_ascii s \<Longrightarrow> encodable s"
  by (auto simp: is_ascii_def encodable_def list_all_iff list_ex_iff is_surrogate_def)

lemma ascii_utf8_size: "is_ascii s \<Longrightarrow> utf8_size s = length s"
  by (induction s) (auto simp: is_ascii_def utf8_char_def)

section \<open>Values\<close>

datatype pyval =
    is_None: PNone
  | is_Bool: PBool (the_Bool: bool)
  | is_Int: PInt (the_Int: int)
  | is_Float: PFloat pystr
  | is_Str: PStr (the_Str: pystr)
  | is_List: PList (the_List: "pyval list")
  | is_Dict: PDict (the_Dict: "(pystr \<times> pyval) list")

text \<open>
  \<open>PFloat\<close> is a float object, given by its \<^verbatim>\<open>repr\<close>; the sources only reject floats by type.
\<close>

lemma pyval_induct [case_names PNone PBool PInt PFloat PStr PList PDict]:
  assumes "P PNone" "\<And>b. P (PBool b)" "\<And>i. P (PInt i)" "\<And>t. P (PFloat t)" "\<And>s. P (PStr s)"
    "\<And>xs. (\<And>x. x \<in> set xs \<Longrightarrow> P x) \<Longrightarrow> P (PList xs)"
    "\<And>d. (\<And>kv. kv \<in> set d \<Longrightarrow> P (snd kv)) \<Longrightarrow> P (PDict d)"
  shows "P v"
proof (induction v)
  case (PDict d)
  have "P (snd kv)" if "kv \<in> set d" for kv
    using PDict [of kv "snd kv"] that by (cases kv) auto
  then show ?case by (rule assms)
qed (use assms in auto)

abbreviation pyl :: "string \<Rightarrow> pyval" where
  "pyl s \<equiv> PStr (lit s)"

fun keys :: "pyval \<Rightarrow> pystr list" where
  "keys (PDict d) = map fst d"
| "keys _ = []"

fun dget :: "pyval \<Rightarrow> pystr \<Rightarrow> pyval option" where
  "dget (PDict d) k = map_of d k"
| "dget _ k = None"

text \<open>
  \<^verbatim>\<open>value.get(k)\<close>, and \<^verbatim>\<open>value[k]\<close> after the field check that precedes every subscript of the
  sources (\<open>fld_present\<close> below: a subscript is then never a \<^verbatim>\<open>KeyError\<close>).
\<close>

definition fld :: "pyval \<Rightarrow> string \<Rightarrow> pyval" where
  "fld v k = (case dget v (lit k) of None \<Rightarrow> PNone | Some x \<Rightarrow> x)"

definition has :: "pyval \<Rightarrow> string \<Rightarrow> bool" where
  "has v k \<longleftrightarrow> dget v (lit k) \<noteq> None"

abbreviation names :: "string list \<Rightarrow> pystr set" where
  "names ks \<equiv> set (map lit ks)"

lemma dget_Some_iff_keys: "dget v k \<noteq> None \<longleftrightarrow> k \<in> set (keys v)"
  by (cases v) (auto simp: map_of_eq_None_iff)

lemma has_iff: "has v k \<longleftrightarrow> lit k \<in> set (keys v)"
  using dget_Some_iff_keys [of v "lit k"] by (simp add: has_def)

lemma fld_present: "names ks \<subseteq> set (keys v) \<Longrightarrow> k \<in> set ks \<Longrightarrow> dget v (lit k) = Some (fld v k)"
  using has_iff [of v k] by (auto simp: fld_def has_def)

lemma fld_PDict [simp]:
  "fld (PDict ((k, x) # d)) n = (if k = lit n then x else fld (PDict d) n)"
  "fld (PDict []) n = PNone"
  by (auto simp: fld_def)

lemma has_PDict [simp]:
  "has (PDict ((k, x) # d)) n \<longleftrightarrow> k = lit n \<or> has (PDict d) n"
  "has (PDict []) n \<longleftrightarrow> False"
  by (auto simp: has_def)

text \<open>\<^verbatim>\<open>d[k] = v\<close>: an existing key keeps its place, a new one goes to the end.\<close>

fun dset :: "(pystr \<times> pyval) list \<Rightarrow> pystr \<Rightarrow> pyval \<Rightarrow> (pystr \<times> pyval) list" where
  "dset [] k v = [(k, v)]"
| "dset ((k', v') # d) k v = (if k' = k then (k, v) # d else (k', v') # dset d k v)"

definition ddel :: "(pystr \<times> pyval) list \<Rightarrow> pystr \<Rightarrow> (pystr \<times> pyval) list" where
  "ddel d k = filter (\<lambda>(k', v). k' \<noteq> k) d"

lemma map_of_dset [simp]: "map_of (dset d k v) = (map_of d)(k \<mapsto> v)"
  by (induction d) auto

lemma keys_dset: "set (map fst (dset d k v)) = insert k (set (map fst d))"
proof (induction d)
  case (Cons kv d)
  then show ?case by (cases kv) (auto simp: image_Un simp del: set_map simp flip: set_map)
qed simp

lemma distinct_dset: "distinct (map fst d) \<Longrightarrow> distinct (map fst (dset d k v))"
  by (induction d) (use keys_dset in \<open>auto simp: image_iff\<close>)

lemma map_of_ddel: "map_of (ddel d k) = (map_of d)(k := None)"
  by (induction d) (auto simp: ddel_def fun_eq_iff)

lemma keys_ddel: "set (map fst (ddel d k)) = set (map fst d) - {k}"
  by (auto simp: ddel_def image_iff)

lemma distinct_ddel: "distinct (map fst d) \<Longrightarrow> distinct (map fst (ddel d k))"
  by (induction d) (auto simp: ddel_def)

text \<open>
  The representation invariant of \<open>pyval\<close>: a Python string consists of code points, and a dict
  never repeats a key.
\<close>

definition wf_pystr :: "pystr \<Rightarrow> bool" where
  "wf_pystr s \<longleftrightarrow> list_all (\<lambda>c. c < 1114112) s"

fun wf_pyval :: "pyval \<Rightarrow> bool" where
  "wf_pyval (PStr s) = wf_pystr s"
| "wf_pyval (PList xs) = (\<forall>x \<in> set xs. wf_pyval x)"
| "wf_pyval (PDict d) =
     (distinct (map fst d) \<and> (\<forall>kv \<in> set d. wf_pystr (fst kv) \<and> wf_pyval (snd kv)))"
| "wf_pyval _ = True"

text \<open>
  Subscripting and iterating a value of unknown type: a missing key is a \<^verbatim>\<open>KeyError\<close>, a value
  that does not support the operation a \<^verbatim>\<open>TypeError\<close>.
\<close>

definition hashable :: "pyval \<Rightarrow> bool" where
  "hashable v \<longleftrightarrow> \<not> is_List v \<and> \<not> is_Dict v"

section \<open>Exceptions and checks\<close>

datatype pyexc =
    ProtocolError string string
  | ControlProtocolError string string string bool
  | AdmissionError string
  | JournalError string
  | BackendError string string string
  | BrokerError string string
  | PyValueError string
  | PyTypeError
  | PyKeyError
  | PyUnicodeError
  | PyRecursionError
  | JSONDecodeError
  | PyOSError string
  | PyOverflowError
  | PyRuntimeError string
  | OutOfFuel

type_synonym 'a res = "pyexc + 'a"

definition getE :: "pyval \<Rightarrow> string \<Rightarrow> pyval res" where
  "getE v k = (case v of
     PDict d \<Rightarrow> (case map_of d (lit k) of None \<Rightarrow> Inl PyKeyError | Some x \<Rightarrow> Inr x)
   | _ \<Rightarrow> Inl PyTypeError)"

fun iterE :: "pyval \<Rightarrow> pyval list res" where
  "iterE (PList xs) = Inr xs"
| "iterE (PDict d) = Inr (map (PStr \<circ> fst) d)"
| "iterE (PStr s) = Inr (map (\<lambda>c. PStr [c]) s)"
| "iterE _ = Inl PyTypeError"

lemma getE_present: "is_Dict v \<Longrightarrow> names ks \<subseteq> set (keys v) \<Longrightarrow> k \<in> set ks \<Longrightarrow> getE v k = Inr (fld v k)"
  using fld_present [of ks v k] by (cases v) (auto simp: getE_def)

definition bindE :: "'e + 'a \<Rightarrow> ('a \<Rightarrow> 'e + 'b) \<Rightarrow> 'e + 'b" where
  "bindE m f = (case m of Inl e \<Rightarrow> Inl e | Inr x \<Rightarrow> f x)"

definition guardE :: "bool \<Rightarrow> 'e \<Rightarrow> 'e + unit" where
  "guardE b e = (if b then Inr () else Inl e)"

fun seqE :: "('e + unit) list \<Rightarrow> 'e + unit" where
  "seqE [] = Inr ()"
| "seqE (x # xs) = (case x of Inl e \<Rightarrow> Inl e | Inr u \<Rightarrow> seqE xs)"

definition whenE :: "bool \<Rightarrow> 'e + unit \<Rightarrow> 'e + unit" where
  "whenE b m = (if b then m else Inr ())"

definition retE :: "('e + unit) list \<Rightarrow> 'a \<Rightarrow> 'e + 'a" where
  "retE cs v = bindE (seqE cs) (\<lambda>_. Inr v)"

fun mapE :: "('a \<Rightarrow> 'e + 'b) \<Rightarrow> 'a list \<Rightarrow> 'e + 'b list" where
  "mapE f [] = Inr []"
| "mapE f (x # xs) = bindE (f x) (\<lambda>y. bindE (mapE f xs) (\<lambda>ys. Inr (y # ys)))"

lemma mapE_cong [fundef_cong]:
  "xs = ys \<Longrightarrow> (\<And>x. x \<in> set ys \<Longrightarrow> f x = g x) \<Longrightarrow> mapE f xs = mapE g ys"
  by (induction ys arbitrary: xs) auto

lemma bindE_Inl [simp]: "bindE (Inl e) f = Inl e"
  by (simp add: bindE_def)

lemma bindE_Inr [simp]: "bindE (Inr x) f = f x"
  by (simp add: bindE_def)

lemma bindE_eq_Inr [accept_simps]: "bindE m f = Inr y \<longleftrightarrow> (\<exists>x. m = Inr x \<and> f x = Inr y)"
  by (cases m) auto

lemma bindE_eq_Inl: "bindE m f = Inl e \<longleftrightarrow> m = Inl e \<or> (\<exists>x. m = Inr x \<and> f x = Inl e)"
  by (cases m) auto

lemma bindE_assoc: "bindE (bindE m f) g = bindE m (\<lambda>x. bindE (f x) g)"
  by (cases m) auto

lemma bindE_cong [fundef_cong]:
  "m = m' \<Longrightarrow> (\<And>x. m' = Inr x \<Longrightarrow> f x = g x) \<Longrightarrow> bindE m f = bindE m' g"
  by (cases m') auto

lemma guardE_eq_Inr [accept_simps, simp]: "guardE b e = Inr u \<longleftrightarrow> b"
  by (simp add: guardE_def)

lemma guardE_simps [simp]: "guardE True e = Inr ()" "guardE False e = Inl e"
  by (simp_all add: guardE_def)

lemma guardE_eq_Inl: "guardE b e = Inl e' \<longleftrightarrow> \<not> b \<and> e' = e"
  by (auto simp: guardE_def)

lemma whenE_eq_Inr [accept_simps, simp]: "whenE b m = Inr u \<longleftrightarrow> (b \<longrightarrow> m = Inr ())"
  by (cases u) (simp add: whenE_def)

lemma whenE_simps [simp]: "whenE True m = m" "whenE False m = Inr ()"
  by (simp_all add: whenE_def)

lemma seqE_Cons_eq_Inr [accept_simps, simp]:
  "seqE (x # xs) = Inr u \<longleftrightarrow> x = Inr () \<and> seqE xs = Inr ()"
  by (cases x) auto

lemma seqE_Cons_Inr [simp]: "seqE (Inr u # xs) = seqE xs"
  by simp

lemma seqE_Cons_Inl [simp]: "seqE (Inl e # xs) = Inl e"
  by simp

declare seqE.simps(2) [simp del]

lemma seqE_Cons_unfold: "seqE (x # xs) = bindE x (\<lambda>_. seqE xs)"
  by (cases x) (auto simp: seqE.simps(2))

lemma seqE_Inr_iff: "seqE cs = Inr u \<longleftrightarrow> (\<forall>c \<in> set cs. c = Inr ())"
  by (induction cs) auto

lemma seqE_Inl_mem: "seqE cs = Inl e \<Longrightarrow> Inl e \<in> set cs"
  by (induction cs) (auto simp: seqE.simps(2) split: sum.splits)

lemma seqE_append: "seqE (xs @ ys) = bindE (seqE xs) (\<lambda>_. seqE ys)"
  by (induction xs) (auto simp: seqE.simps(2) split: sum.splits)

lemma seqE_map_Inr [accept_simps]: "seqE (map f xs) = Inr u \<longleftrightarrow> (\<forall>x \<in> set xs. f x = Inr ())"
  by (auto simp: seqE_Inr_iff)

lemma retE_eq_Inr [accept_simps, simp]: "retE cs v = Inr w \<longleftrightarrow> seqE cs = Inr () \<and> w = v"
  by (auto simp: retE_def bindE_eq_Inr)

lemma retE_eq_Inl: "retE cs v = Inl e \<longleftrightarrow> seqE cs = Inl e"
  by (auto simp: retE_def bindE_eq_Inl)

lemma mapE_Inr_iff: "mapE f xs = Inr ys \<longleftrightarrow> list_all2 (\<lambda>x y. f x = Inr y) xs ys"
  by (induction xs arbitrary: ys) (auto simp: bindE_eq_Inr list_all2_Cons1)

lemma unit_res_cases: "(m = Inr () \<Longrightarrow> P) \<Longrightarrow> (\<And>e. m = Inl e \<Longrightarrow> P) \<Longrightarrow> P"
  for m :: "'e + unit"
  by (cases m) auto

section \<open>Lists with duplicates\<close>

text \<open>
  The sources detect duplicates either by a growing \<^verbatim>\<open>seen\<close> set or by comparing
  \<^verbatim>\<open>len(set(xs))\<close> with \<^verbatim>\<open>len(xs)\<close>; both decide \<open>distinct\<close>.
\<close>

definition no_dups :: "'a list \<Rightarrow> bool" where
  "no_dups xs \<longleftrightarrow> card (set xs) = length xs"

lemma no_dups_iff [simp]: "no_dups xs \<longleftrightarrow> distinct xs"
  unfolding no_dups_def by (metis card_distinct distinct_card)

lemma no_dups_code [code]: "no_dups xs = distinct xs"
  by simp

fun seen_loop :: "('a \<Rightarrow> 'e + unit) \<Rightarrow> 'e \<Rightarrow> 'a set \<Rightarrow> 'a list \<Rightarrow> 'e + unit" where
  "seen_loop chk dup seen [] = Inr ()"
| "seen_loop chk dup seen (x # xs) =
     seqE [chk x, guardE (x \<notin> seen) dup, seen_loop chk dup (insert x seen) xs]"

lemma seen_loop_Inr [accept_simps]:
  "seen_loop chk dup seen xs = Inr u \<longleftrightarrow>
     (\<forall>x \<in> set xs. chk x = Inr ()) \<and> distinct xs \<and> set xs \<inter> seen = {}"
  by (induction xs arbitrary: seen u) auto

definition maxl :: "nat list \<Rightarrow> nat" where
  "maxl xs = foldr max xs 0"

lemma maxl_simps [simp]: "maxl [] = 0" "maxl (x # xs) = max x (maxl xs)"
  by (simp_all add: maxl_def)

lemma maxl_le_iff: "maxl xs \<le> n \<longleftrightarrow> (\<forall>x \<in> set xs. x \<le> n)"
  by (induction xs) auto

lemma maxl_ge_mem: "x \<in> set xs \<Longrightarrow> x \<le> maxl xs"
  using maxl_le_iff [of xs "maxl xs"] by simp

lemma maxl_mono: "(\<And>x. x \<in> set xs \<Longrightarrow> f x \<le> g x) \<Longrightarrow> maxl (map f xs) \<le> maxl (map g xs)"
  by (induction xs) (auto simp del: max.bounded_iff intro!: max.mono)

lemma add_maxl_le_iff:
  "d + maxl (map (\<lambda>y. Suc (h y)) ys) \<le> m \<longleftrightarrow> d \<le> m \<and> (\<forall>y \<in> set ys. d + 1 + h y \<le> m)"
  by (induction ys) auto

section \<open>Character classes of the identifier patterns\<close>

definition is_digit :: "nat \<Rightarrow> bool" where
  "is_digit c \<longleftrightarrow> 48 \<le> c \<and> c \<le> 57"

definition is_upper :: "nat \<Rightarrow> bool" where
  "is_upper c \<longleftrightarrow> 65 \<le> c \<and> c \<le> 90"

definition is_lower :: "nat \<Rightarrow> bool" where
  "is_lower c \<longleftrightarrow> 97 \<le> c \<and> c \<le> 122"

definition is_alpha :: "nat \<Rightarrow> bool" where
  "is_alpha c \<longleftrightarrow> is_upper c \<or> is_lower c"

definition is_alnum :: "nat \<Rightarrow> bool" where
  "is_alnum c \<longleftrightarrow> is_alpha c \<or> is_digit c"

text \<open>\<^verbatim>\<open>[A-Za-z0-9_.-]\<close>\<close>

definition is_idchar :: "nat \<Rightarrow> bool" where
  "is_idchar c \<longleftrightarrow> is_alnum c \<or> c = 95 \<or> c = 46 \<or> c = 45"

text \<open>\<^verbatim>\<open>[0-9a-f]\<close>\<close>

definition is_hex :: "nat \<Rightarrow> bool" where
  "is_hex c \<longleftrightarrow> is_digit c \<or> 97 \<le> c \<and> c \<le> 102"

text \<open>\<^verbatim>\<open>[A-Za-z][A-Za-z0-9_.-]{0,127}\Z\<close>\<close>

definition re_identifier :: "pystr \<Rightarrow> bool" where
  "re_identifier s = (case s of [] \<Rightarrow> False
     | c # cs \<Rightarrow> is_alpha c \<and> length cs \<le> 127 \<and> list_all is_idchar cs)"

text \<open>\<^verbatim>\<open>[0-9a-f]{n}\Z\<close>\<close>

definition re_hex :: "nat \<Rightarrow> pystr \<Rightarrow> bool" where
  "re_hex n s \<longleftrightarrow> length s = n \<and> list_all is_hex s"

lemma is_idchar_ascii: "is_idchar c \<Longrightarrow> c < 128"
  by (auto simp: is_idchar_def is_alnum_def is_alpha_def is_upper_def is_lower_def is_digit_def)

lemma is_hex_ascii: "is_hex c \<Longrightarrow> c < 128"
  by (auto simp: is_hex_def is_digit_def)

lemma is_alpha_idchar: "is_alpha c \<Longrightarrow> is_idchar c"
  by (simp add: is_idchar_def is_alnum_def)

lemma re_identifier_ascii: "re_identifier s \<Longrightarrow> is_ascii s"
  by (auto simp: re_identifier_def is_ascii_def list_all_iff is_idchar_ascii is_alpha_idchar
      split: list.splits)

lemma re_hex_ascii: "re_hex n s \<Longrightarrow> is_ascii s"
  by (auto simp: re_hex_def is_ascii_def list_all_iff is_hex_ascii)

lemma re_identifier_length: "re_identifier s \<Longrightarrow> 1 \<le> length s \<and> length s \<le> 128"
  by (auto simp: re_identifier_def split: list.splits)

section \<open>PurePosixPath\<close>

definition pp_root :: "pystr \<Rightarrow> pystr" where
  "pp_root s =
     (if startswith s [slash, slash] \<and> \<not> startswith s [slash, slash, slash] then [slash, slash]
      else if startswith s [slash] then [slash] else [])"

definition pp_tail :: "pystr \<Rightarrow> pystr list" where
  "pp_tail s = filter (\<lambda>p. p \<noteq> [] \<and> p \<noteq> lit ''.'') (psplit slash s)"

definition pp_parts :: "pystr \<Rightarrow> pystr list" where
  "pp_parts s = (if pp_root s = [] then [] else [pp_root s]) @ pp_tail s"

definition pp_str :: "pystr \<Rightarrow> pystr" where
  "pp_str s = (if pp_root s = [] \<and> pp_tail s = [] then lit ''.'' else pp_root s @ pjoin slash (pp_tail s))"

definition pp_absolute :: "pystr \<Rightarrow> bool" where
  "pp_absolute s \<longleftrightarrow> pp_root s \<noteq> []"

lemma pp_absolute_iff: "pp_absolute s \<longleftrightarrow> startswith s [slash]"
  by (auto simp: pp_absolute_def pp_root_def startswith_iff)

text \<open>The component test every wire validator of a relative path uses.\<close>

definition bad_part :: "pystr \<Rightarrow> bool" where
  "bad_part p \<longleftrightarrow> p = [] \<or> p = lit ''.'' \<or> p = lit ''..''"

lemma pp_relative_canonical:
  assumes "\<not> startswith s [slash]"
  shows "pp_str s = s \<longleftrightarrow> s = lit ''.'' \<or> (\<forall>p \<in> set (psplit slash s). p \<noteq> [] \<and> p \<noteq> lit ''.'')"
proof -
  let ?q = "\<lambda>p. p \<noteq> [] \<and> p \<noteq> lit ''.''"
  let ?ps = "psplit slash s"
  have root: "pp_root s = []"
    using assms by (auto simp: pp_root_def startswith_iff)
  show ?thesis
  proof (cases "filter ?q ?ps = []")
    case True
    then have str: "pp_str s = lit ''.''" by (simp add: pp_str_def pp_tail_def root)
    have hd: "hd ?ps \<in> set ?ps" by (rule hd_in_set) simp
    from True have "\<not> ?q (hd ?ps)" unfolding filter_empty_conv using hd by blast
    with hd have "\<not> (\<forall>p \<in> set ?ps. ?q p)" by blast
    with str show ?thesis by auto
  next
    case False
    then have str: "pp_str s = pjoin slash (filter ?q ?ps)"
      by (simp add: pp_str_def pp_tail_def root)
    have dot: "s \<noteq> lit ''.''"
      using False by (auto simp: lit_def)
    show ?thesis
    proof
      assume "pp_str s = s"
      with str have "pjoin slash (filter ?q ?ps) = s" by simp
      then have "psplit slash (pjoin slash (filter ?q ?ps)) = ?ps" by simp
      moreover have "psplit slash (pjoin slash (filter ?q ?ps)) = filter ?q ?ps"
        using False by (intro psplit_pjoin) (auto dest: psplit_sep_free)
      ultimately have "filter ?q ?ps = ?ps" by simp
      then show "s = lit ''.'' \<or> (\<forall>p \<in> set ?ps. ?q p)"
        unfolding filter_id_conv by blast
    next
      assume "s = lit ''.'' \<or> (\<forall>p \<in> set ?ps. ?q p)"
      with dot have "filter ?q ?ps = ?ps" by (simp add: filter_id_conv)
      with str show "pp_str s = s" by simp
    qed
  qed
qed

end
