(* ===== verification/Sha256.thy ===== *)
theory Sha256
  imports Prelude "HOL-Library.Word"
begin

text \<open>
  \<^verbatim>\<open>hashlib.sha256(data).hexdigest()\<close>: the FIPS 180-4 compression over 32-bit words.  Every content
  identity of the supervisor (selectors, manifests, artifacts, receipts) is such a digest.
\<close>

unbundle bit_operations_syntax

definition sha256_k :: "32 word list" where
  "sha256_k =
    [1116352408, 1899447441, 3049323471, 3921009573, 961987163, 1508970993, 2453635748,
     2870763221, 3624381080, 310598401, 607225278, 1426881987, 1925078388, 2162078206,
     2614888103, 3248222580, 3835390401, 4022224774, 264347078, 604807628, 770255983,
     1249150122, 1555081692, 1996064986, 2554220882, 2821834349, 2952996808, 3210313671,
     3336571891, 3584528711, 113926993, 338241895, 666307205, 773529912, 1294757372,
     1396182291, 1695183700, 1986661051, 2177026350, 2456956037, 2730485921, 2820302411,
     3259730800, 3345764771, 3516065817, 3600352804, 4094571909, 275423344, 430227734,
     506948616, 659060556, 883997877, 958139571, 1322822218, 1537002063, 1747873779,
     1955562222, 2024104815, 2227730452, 2361852424, 2428436474, 2756734187, 3204031479,
     3329325298]"

definition sha256_init :: "32 word list" where
  "sha256_init =
    [1779033703, 3144134277, 1013904242, 2773480762, 1359893119, 2600822924, 528734635,
     1541459225]"

definition rotr :: "nat \<Rightarrow> 32 word \<Rightarrow> 32 word" where
  "rotr n w = drop_bit n w OR push_bit (32 - n) w"

definition word_of_bytes :: "bytes \<Rightarrow> 32 word" where
  "word_of_bytes bs = word_of_nat (foldl (\<lambda>a b. a * 256 + b) 0 bs)"

definition bytes_be :: "nat \<Rightarrow> nat \<Rightarrow> bytes" where
  "bytes_be n x = map (\<lambda>i. x div 256 ^ (n - 1 - i) mod 256) [0..<n]"

text \<open>Padding: a one bit, zeros up to 56 modulo 64, and the bit length as eight bytes.\<close>

definition sha256_pad :: "bytes \<Rightarrow> bytes" where
  "sha256_pad data = data @ 128 # replicate ((119 - length data mod 64) mod 64) 0 @ bytes_be 8 (8 * length data)"

fun chunks :: "nat \<Rightarrow> nat \<Rightarrow> 'a list \<Rightarrow> 'a list list" where
  "chunks 0 k xs = []"
| "chunks (Suc n) k xs = take k xs # chunks n k (drop k xs)"

text \<open>The message schedule, newest word first: 48 expansion steps over the 16 words of a block.\<close>

definition sha256_expand :: "32 word list \<Rightarrow> 32 word list" where
  "sha256_expand w = (let a = w ! 14; b = w ! 1;
     s0 = rotr 7 a XOR rotr 18 a XOR drop_bit 3 a;
     s1 = rotr 17 b XOR rotr 19 b XOR drop_bit 10 b
   in (w ! 15 + s0 + w ! 6 + s1) # w)"

definition sha256_schedule :: "bytes \<Rightarrow> 32 word list" where
  "sha256_schedule block = rev ((sha256_expand ^^ 48) (rev (map word_of_bytes (chunks 16 4 block))))"

definition sha256_round :: "32 word list \<Rightarrow> 32 word \<times> 32 word \<Rightarrow> 32 word list" where
  "sha256_round h kw = (case (h, kw) of
     ([a, b, c, d, e, f, g, i], (k, w)) \<Rightarrow>
       let t1 = i + (rotr 6 e XOR rotr 11 e XOR rotr 25 e) + ((e AND f) XOR (NOT e AND g)) + k + w;
           t2 = (rotr 2 a XOR rotr 13 a XOR rotr 22 a) + ((a AND b) XOR (a AND c) XOR (b AND c))
       in [t1 + t2, a, b, c, d + t1, e, f, g]
   | _ \<Rightarrow> h)"

definition sha256_block :: "32 word list \<Rightarrow> bytes \<Rightarrow> 32 word list" where
  "sha256_block h block = map2 (+) h (foldl sha256_round h (zip sha256_k (sha256_schedule block)))"

definition sha256 :: "bytes \<Rightarrow> bytes" where
  "sha256 data = (let padded = sha256_pad data in
     concat (map (\<lambda>w. bytes_be 4 (unat w))
       (foldl sha256_block sha256_init (chunks (length padded div 64) 64 padded))))"

definition hex_digit :: "nat \<Rightarrow> nat" where
  "hex_digit n = (if n < 10 then 48 + n else 87 + n)"

definition hexdigest :: "bytes \<Rightarrow> pystr" where
  "hexdigest bs = concat (map (\<lambda>b. [hex_digit (b div 16), hex_digit (b mod 16)]) bs)"

definition sha256_hex :: "bytes \<Rightarrow> pystr" where
  "sha256_hex data = hexdigest (sha256 data)"

section \<open>Digests are 64 lowercase hexadecimal digits\<close>

lemma sha256_pad_blocks: "64 dvd length (sha256_pad data)"
proof -
  obtain q r where n: "length data = 64 * q + r" "r < 64"
    by (metis mod_less_divisor mult_div_mod_eq zero_less_numeral)
  then have r: "length data mod 64 = r" by simp
  have len: "length (sha256_pad data) = 64 * q + r + 9 + (119 - r) mod 64"
    by (simp add: sha256_pad_def bytes_be_def r n)
  show ?thesis
  proof (cases "r \<le> 55")
    case True
    then have "119 - r = 64 + (55 - r)" by simp
    then have "(119 - r) mod 64 = 55 - r" by (simp only: mod_add_self1) simp
    then have "length (sha256_pad data) = 64 * (q + 1)" using True len by simp
    then show ?thesis by (simp only: dvd_triv_left)
  next
    case False
    then have "length (sha256_pad data) = 64 * (q + 2)" using n len by simp
    then show ?thesis by (simp only: dvd_triv_left)
  qed
qed

lemma length_sha256_round [simp]: "length (sha256_round h kw) = length h"
  by (simp add: sha256_round_def Let_def split: list.splits prod.splits)

lemma length_sha256_rounds [simp]: "length (foldl sha256_round h kws) = length h"
  by (induction kws arbitrary: h) auto

lemma length_sha256_blocks: "length (foldl sha256_block h bs) = length h"
  by (induction bs arbitrary: h) (simp_all add: sha256_block_def)

lemma bytes_be_bytes: "b \<in> set (bytes_be n x) \<Longrightarrow> b < 256"
  by (auto simp: bytes_be_def)

lemma length_concat_const: "(\<And>x. x \<in> set xs \<Longrightarrow> length (f x) = n) \<Longrightarrow> length (concat (map f xs)) = n * length xs"
  by (induction xs) auto

lemma length_sha256: "length (sha256 data) = 32"
proof -
  have "length (concat (map (\<lambda>w. bytes_be 4 (unat w)) ws)) = 4 * length ws" for ws :: "32 word list"
    by (rule length_concat_const) (simp add: bytes_be_def)
  then show ?thesis by (simp add: sha256_def Let_def length_sha256_blocks sha256_init_def)
qed

lemma sha256_bytes: "b \<in> set (sha256 data) \<Longrightarrow> b < 256"
  by (auto simp: sha256_def Let_def dest: bytes_be_bytes)

lemma hex_digit_is_hex: "n < 16 \<Longrightarrow> is_hex (hex_digit n)"
  by (auto simp: hex_digit_def is_hex_def is_digit_def)

lemma hexdigest_is_hex: "(\<And>b. b \<in> set bs \<Longrightarrow> b < 256) \<Longrightarrow> list_all is_hex (hexdigest bs)"
  by (induction bs) (auto simp: hexdigest_def hex_digit_is_hex less_mult_imp_div_less)

lemma sha256_hex_digest [simp]: "re_hex 64 (sha256_hex data)"
proof -
  have "length (hexdigest bs) = 2 * length bs" for bs
    unfolding hexdigest_def by (rule length_concat_const) simp
  then show ?thesis
    using hexdigest_is_hex [of "sha256 data"] sha256_bytes [of _ data]
    by (simp add: sha256_hex_def re_hex_def length_sha256)
qed

end
