(* ===== verification/Policy.thy ===== *)
theory Policy
  imports Sha256
begin

text \<open>
  Trusted configuration (\<^verbatim>\<open>supervisor/mirrorgate/policy.py\<close>): approved directories, runtime mounts,
  limits, tool requests and sandbox configurations.

  The operating system is a value of \<open>host\<close>: what \<^verbatim>\<open>lstat\<close>, \<^verbatim>\<open>stat\<close> and \<^verbatim>\<open>iterdir\<close> return for a path
  (or the exception they raise), the working directory and the user ids.  A \<^verbatim>\<open>pathlib\<close> path is the
  list of its \<^verbatim>\<open>parts\<close>, the root first, which is what path equality and \<^verbatim>\<open>parents\<close> compare.
\<close>

section \<open>The host\<close>

type_synonym path = "pystr list"

datatype fkind = FDir | FReg | FLnk | FOther

record fstat =
  st_fmt :: fkind
  st_perm :: nat
  st_dev :: nat
  st_ino :: nat
  st_nlink :: nat
  st_uid :: nat
  st_size :: nat
  st_mtime_ns :: nat
  st_ctime_ns :: nat

record host =
  getcwd :: pystr
  getuid :: nat
  geteuid :: nat
  os_lstat :: "path \<Rightarrow> fstat res"
  os_stat :: "path \<Rightarrow> fstat res"
  os_listdir :: "path \<Rightarrow> pystr list res"

abbreviation s_isdir :: "fstat \<Rightarrow> bool" where "s_isdir i \<equiv> st_fmt i = FDir"
abbreviation s_isreg :: "fstat \<Rightarrow> bool" where "s_isreg i \<equiv> st_fmt i = FReg"
abbreviation s_islnk :: "fstat \<Rightarrow> bool" where "s_islnk i \<equiv> st_fmt i = FLnk"

text \<open>\<^verbatim>\<open>except OSError\<close> and \<^verbatim>\<open>except (OSError, UnicodeError)\<close>, re-raised as \<^verbatim>\<open>AdmissionError(msg)\<close>.\<close>

definition except_os :: "string \<Rightarrow> 'a res \<Rightarrow> 'a res" where
  "except_os msg m = (case m of Inl (PyOSError _) \<Rightarrow> Inl (AdmissionError msg) | x \<Rightarrow> x)"

definition except_os_unicode :: "string \<Rightarrow> 'a res \<Rightarrow> 'a res" where
  "except_os_unicode msg m = (case m of Inl (PyOSError _) \<Rightarrow> Inl (AdmissionError msg)
     | Inl PyUnicodeError \<Rightarrow> Inl (AdmissionError msg) | x \<Rightarrow> x)"

text \<open>\<^verbatim>\<open>str(path)\<close> of an absolute path and \<^verbatim>\<open>p in q.parents\<close>.\<close>

fun path_str :: "path \<Rightarrow> pystr" where
  "path_str [] = lit ''.''"
| "path_str (root # tail) = root @ pjoin slash tail"

definition in_parents :: "path \<Rightarrow> path \<Rightarrow> bool" where
  "in_parents p q \<longleftrightarrow> length p < length q \<and> take (length p) q = p"

definition overlaps :: "path \<Rightarrow> path \<Rightarrow> bool" where
  "overlaps p q \<longleftrightarrow> p = q \<or> in_parents p q \<or> in_parents q p"

text \<open>\<^verbatim>\<open>os.path.abspath\<close>: join with the working directory, drop empty and dot parts, resolve \<^verbatim>\<open>..\<close> textually.\<close>

fun collapse :: "bool \<Rightarrow> pystr list \<Rightarrow> pystr list \<Rightarrow> pystr list" where
  "collapse rooted acc [] = rev acc"
| "collapse rooted acc (c # cs) =
     (if c \<noteq> lit ''..'' \<or> \<not> rooted \<and> acc = [] \<or> acc \<noteq> [] \<and> hd acc = lit ''..'' then collapse rooted (c # acc) cs
      else collapse rooted (tl acc) cs)"

definition path_join :: "pystr \<Rightarrow> pystr \<Rightarrow> pystr" where
  "path_join a b = (if startswith b [slash] then b else if a = [] \<or> endswith a [slash] then a @ b else a @ slash # b)"

definition abspath :: "pystr \<Rightarrow> pystr \<Rightarrow> path" where
  "abspath cwd s = (let f = path_join cwd (pp_str s); root = pp_root f in
     (if root = [] then [] else [root]) @ collapse (root \<noteq> []) [] (pp_tail f))"

section \<open>Approved directories and runtime mounts\<close>

fun checked_components :: "host \<Rightarrow> path \<Rightarrow> pystr list \<Rightarrow> unit res" where
  "checked_components h current [] = Inr ()"
| "checked_components h current (part # parts) =
     bindE (except_os_unicode ''approved directory is unavailable'' (os_lstat h (current @ [part]))) (\<lambda>info.
     bindE (guardE (s_isdir info)
       (AdmissionError ''approved directory must not contain symlinks or special files'')) (\<lambda>_.
     checked_components h (current @ [part]) parts))"

definition checked_directory :: "host \<Rightarrow> pystr \<Rightarrow> path res" where
  "checked_directory h s =
     bindE (guardE (lit ''..'' \<notin> set (pp_parts s)) (AdmissionError ''parent traversal is forbidden'')) (\<lambda>_.
     let absolute = abspath (getcwd h) s in
     bindE (checked_components h [[slash]] (tl absolute)) (\<lambda>_. Inr absolute))"

text \<open>\<^verbatim>\<open>Path(value)\<close> of a JSON value: anything but a string is a \<^verbatim>\<open>TypeError\<close>.\<close>

definition path_arg :: "pyval \<Rightarrow> pystr res" where
  "path_arg v = (case v of PStr s \<Rightarrow> Inr s | _ \<Rightarrow> Inl PyTypeError)"

record mount =
  m_source :: path
  m_destination :: pystr

definition host_root :: "string \<Rightarrow> path" where
  "host_root name = (if name = '''' then [[slash]] else [[slash], lit name])"

definition broad_mount_roots :: "path list" where
  "broad_mount_roots = map host_root ['''', ''home'', ''etc'', ''proc'', ''dev'', ''sys'', ''run'', ''tmp'']"

definition bounded_text :: "pyval \<Rightarrow> string \<Rightarrow> string \<Rightarrow> unit res" where
  "bounded_text v unicode_msg bound_msg =
     (case v of
        PStr s \<Rightarrow> (case utf8_len s of
             None \<Rightarrow> Inl (AdmissionError unicode_msg)
           | Some n \<Rightarrow> guardE (0 \<notin> set s \<and> n \<le> 1024) (AdmissionError bound_msg))
      | _ \<Rightarrow> Inl (AdmissionError bound_msg))"

definition runtime_mount_checked :: "host \<Rightarrow> pyval \<Rightarrow> pyval \<Rightarrow> mount res" where
  "runtime_mount_checked h source destination =
     bindE (path_arg source) (\<lambda>raw.
     bindE (checked_directory h raw) (\<lambda>src.
     bindE (bounded_text destination ''runtime destination must contain Unicode scalars''
              ''runtime destination must be a bounded path'') (\<lambda>_.
     let d = the_Str destination; parts = pp_parts d in
     retE [guardE (pp_str d = d \<and> lit ''..'' \<notin> set parts) (AdmissionError ''runtime destination must be canonical''),
           guardE (d = lit ''/usr'' \<or> length parts = 3 \<and> parts ! 1 = lit ''runtime'' \<and>
                   parts ! 2 \<noteq> lit ''.'' \<and> parts ! 2 \<noteq> lit ''..'')
             (AdmissionError ''runtime mounts must target /usr or /runtime/NAME''),
           guardE (src \<notin> set broad_mount_roots)
             (AdmissionError ''broad host or management roots are not runtime trees'')]
       \<lparr>m_source = src, m_destination = d\<rparr>)))"

definition system_runtime_mounts :: "(pyval \<times> pyval) list" where
  "system_runtime_mounts = [(pyl ''/usr'', pyl ''/usr'')]"

section \<open>Limits\<close>

text \<open>
  A duration is a Python value, or the float \<^verbatim>\<open>ms / 1000\<close> for an integer of at most 53 bits, which is
  finite and has the sign of \<open>ms\<close>.
\<close>

datatype seconds = Seconds pyval | Millis int

record limits =
  wall_seconds :: seconds
  cpu_seconds :: pyval
  address_space_bytes :: pyval
  uid_processes :: pyval
  open_files :: pyval
  file_bytes :: pyval
  stdout_bytes :: pyval
  stderr_bytes :: pyval
  tmp_bytes :: pyval
  scratch_bytes :: pyval
  eof_grace_seconds :: seconds
  aggregate_memory_bytes :: pyval
  aggregate_cpu_seconds :: pyval
  aggregate_processes :: pyval
  aggregate_disk_bytes :: pyval

definition default_limits :: limits where
  "default_limits = \<lparr>wall_seconds = Seconds (PInt 30), cpu_seconds = PInt 20, address_space_bytes = PInt (4 * 1024 ^ 3),
     uid_processes = PInt 4096, open_files = PInt 128, file_bytes = PInt (64 * 1024 ^ 2),
     stdout_bytes = PInt (4 * 1024 ^ 2), stderr_bytes = PInt (1024 ^ 2), tmp_bytes = PInt (64 * 1024 ^ 2),
     scratch_bytes = PInt (256 * 1024 ^ 2), eof_grace_seconds = Seconds (PFloat (lit ''0.5'')),
     aggregate_memory_bytes = PNone, aggregate_cpu_seconds = PNone, aggregate_processes = PNone,
     aggregate_disk_bytes = PNone\<rparr>"

text \<open>
  \<^verbatim>\<open>math.isfinite(x)\<close> and \<^verbatim>\<open>x <= 0\<close>: on a float by its \<^verbatim>\<open>repr\<close>, on an integer after conversion, which
  overflows from \<open>2\<^sup>1\<^sup>0\<^sup>2\<^sup>4 - 2\<^sup>9\<^sup>7\<^sup>0\<close> on.
\<close>

definition float_finite :: "pystr \<Rightarrow> bool" where
  "float_finite r \<longleftrightarrow> r \<notin> {lit ''inf'', lit ''-inf'', lit ''nan''}"

definition float_positive :: "pystr \<Rightarrow> bool" where
  "float_positive r \<longleftrightarrow> \<not> startswith r (lit ''-'') \<and> r \<noteq> lit ''0.0''"

definition int_overflows :: "int \<Rightarrow> bool" where
  "int_overflows i \<longleftrightarrow> 2 ^ 1024 - 2 ^ 970 \<le> \<bar>i\<bar>"

lemma int_overflows_code [code]:
  "int_overflows i \<longleftrightarrow> (if \<bar>i\<bar> < 1152921504606846976 then False else 2 ^ 1024 - 2 ^ 970 \<le> \<bar>i\<bar>)"
proof -
  have "(1152921504606846976 :: int) \<le> 2 ^ 1024 - 2 ^ 970" by simp
  then show ?thesis unfolding int_overflows_def by auto
qed

definition valid_seconds :: "string \<Rightarrow> seconds \<Rightarrow> unit res" where
  "valid_seconds name s = (let e = AdmissionError (name @ '' must be finite and positive'') in
     case s of
       Millis ms \<Rightarrow> guardE (0 < ms) e
     | Seconds (PInt i) \<Rightarrow> if int_overflows i then Inl PyOverflowError else guardE (0 < i) e
     | Seconds (PFloat r) \<Rightarrow> guardE (float_finite r \<and> float_positive r) e
     | Seconds _ \<Rightarrow> Inl e)"

definition limit_fields :: "limits \<Rightarrow> (string \<times> pyval) list" where
  "limit_fields l = [(''cpu_seconds'', cpu_seconds l), (''address_space_bytes'', address_space_bytes l),
     (''uid_processes'', uid_processes l), (''open_files'', open_files l), (''file_bytes'', file_bytes l),
     (''stdout_bytes'', stdout_bytes l), (''stderr_bytes'', stderr_bytes l), (''tmp_bytes'', tmp_bytes l),
     (''scratch_bytes'', scratch_bytes l)]"

definition limits_validate :: "limits \<Rightarrow> unit res" where
  "limits_validate l = seqE
     (map (\<lambda>(name, v). guardE (is_None v) (AdmissionError (''bubblewrap backend cannot enforce '' @ name)))
        [(''aggregate_memory_bytes'', aggregate_memory_bytes l), (''aggregate_cpu_seconds'', aggregate_cpu_seconds l),
         (''aggregate_processes'', aggregate_processes l), (''aggregate_disk_bytes'', aggregate_disk_bytes l)] @
      map (\<lambda>(name, v). valid_seconds name v)
        [(''wall_seconds'', wall_seconds l), (''eof_grace_seconds'', eof_grace_seconds l)] @
      map (\<lambda>(name, v). guardE (is_Int v \<and> 0 < the_Int v \<and> the_Int v \<le> 2 ^ 60)
             (AdmissionError (name @ '' must be a positive bounded integer''))) (limit_fields l) @
      [guardE (32 \<le> the_Int (open_files l))
         (AdmissionError ''open_files must allow supervisor namespace setup (at least 32)'')])"

section \<open>Tool requests\<close>

text \<open>\<^verbatim>\<open>sum(len(arg.encode("utf-8")) for arg in argv)\<close>; \<open>None\<close> is the \<^verbatim>\<open>UnicodeError\<close>.\<close>

fun encoded_total :: "pyval list \<Rightarrow> nat option" where
  "encoded_total [] = Some 0"
| "encoded_total (v # vs) = (case (utf8_len (the_Str v), encoded_total vs) of
     (Some a, Some b) \<Rightarrow> Some (a + b) | _ \<Rightarrow> None)"

definition plain_arg :: "pyval \<Rightarrow> bool" where
  "plain_arg v \<longleftrightarrow> is_Str v \<and> the_Str v \<noteq> [] \<and> 0 \<notin> set (the_Str v)"

definition bounded_args :: "pyval list \<Rightarrow> string \<Rightarrow> string \<Rightarrow> string \<Rightarrow> unit res" where
  "bounded_args args invalid_msg unicode_msg bound_msg = seqE
     [guardE (list_all plain_arg args) (AdmissionError invalid_msg),
      (case encoded_total args of
         None \<Rightarrow> Inl (AdmissionError unicode_msg)
       | Some n \<Rightarrow> guardE (n \<le> 65535) (AdmissionError bound_msg))]"

record tool_request =
  tr_argv :: "pyval list"
  tr_cwd :: pystr

definition tool_request_validate :: "pyval \<Rightarrow> pyval \<Rightarrow> tool_request res" where
  "tool_request_validate argv cwd = retE
     [guardE (is_List argv \<and> the_List argv \<noteq> [] \<and> length (the_List argv) \<le> 256)
        (AdmissionError ''argv must contain between 1 and 256 arguments''),
      bounded_args (the_List argv) ''arguments must be nonempty strings without NUL''
        ''arguments must contain Unicode scalars'' ''arguments exceed the 64 KiB request bound'',
      bounded_text cwd ''cwd must contain Unicode scalars'' ''cwd must be a relative directory'',
      guardE (\<not> pp_absolute (the_Str cwd) \<and> lit ''..'' \<notin> set (pp_parts (the_Str cwd)) \<and> pp_str (the_Str cwd) = the_Str cwd)
        (AdmissionError ''cwd must be canonical and relative to the submission'')]
     \<lparr>tr_argv = the_List argv, tr_cwd = the_Str cwd\<rparr>"

definition tool_request_from_dict :: "pyval \<Rightarrow> tool_request res" where
  "tool_request_from_dict v = bindE (guardE
     (is_Dict v \<and> set (keys v) \<subseteq> names [''argv'', ''cwd''] \<and> has v ''argv'')
     (AdmissionError ''tool requests accept only argv and cwd'')) (\<lambda>_.
     tool_request_validate (fld v ''argv'') (if has v ''cwd'' then fld v ''cwd'' else pyl ''.''))"

section \<open>Sandbox configurations\<close>

record trusted_config =
  tc_profile :: string
  tc_workspace :: pystr
  tc_output :: "pystr option"
  tc_runtime_mounts :: "(pyval \<times> pyval) list"
  tc_limits :: limits
  tc_network :: string
  tc_backend :: string

record checked_config =
  cc_profile :: string
  cc_workspace :: path
  cc_output :: "path option"
  cc_runtime_mounts :: "mount list"
  cc_limits :: limits
  cc_network :: string
  cc_backend :: string

definition broad_workspaces :: "path list" where
  "broad_workspaces = map host_root ['''', ''home'', ''usr'', ''etc'', ''tmp'', ''proc'', ''dev'', ''sys'', ''run'']"

definition mount_separate :: "path \<Rightarrow> path option \<Rightarrow> mount \<Rightarrow> unit res" where
  "mount_separate workspace output m = seqE
     [guardE (\<not> overlaps (m_source m) workspace) (AdmissionError ''runtime and submission roots must not overlap''),
      (case output of None \<Rightarrow> Inr ()
       | Some out \<Rightarrow> guardE (\<not> overlaps (m_source m) out)
           (AdmissionError ''runtime and build output roots must not overlap''))]"

definition trusted_config_checked :: "host \<Rightarrow> trusted_config \<Rightarrow> checked_config res" where
  "trusted_config_checked h c =
     bindE (seqE
       [guardE (tc_profile c \<in> set [''authoring'', ''build'', ''execution'']) (AdmissionError ''unknown sandbox profile''),
        guardE (tc_backend c = ''linux-bubblewrap-v1'' \<and> tc_network c = ''isolated'')
          (AdmissionError ''unsupported backend or networking capability''),
        limits_validate (tc_limits c)]) (\<lambda>_.
     bindE (checked_directory h (tc_workspace c)) (\<lambda>workspace.
     bindE (guardE (workspace \<notin> set broad_workspaces)
       (AdmissionError ''workspace must be a dedicated public submission tree'')) (\<lambda>_.
     bindE (case tc_output c of None \<Rightarrow> Inr None
            | Some out \<Rightarrow> bindE (checked_directory h out) (\<lambda>p. Inr (Some p))) (\<lambda>output.
     bindE (seqE
       [guardE (tc_profile c = ''build'' \<or> output = None) (AdmissionError ''only build can request an output mount''),
        (case output of None \<Rightarrow> Inr ()
         | Some out \<Rightarrow> guardE (\<not> overlaps out workspace)
             (AdmissionError ''build output must be separate from submitted source''))]) (\<lambda>_.
     bindE (mapE (\<lambda>(s, d). runtime_mount_checked h s d) (tc_runtime_mounts c)) (\<lambda>mounts.
     bindE (seqE
       [guardE (mounts \<noteq> [] \<and> no_dups (map m_destination mounts))
          (AdmissionError ''runtime mounts must have unique destinations''),
        guardE (lit ''/usr'' \<in> set (map m_destination mounts))
          (AdmissionError ''this backend requires an approved /usr with Python 3 bootstrap''),
        seqE (map (mount_separate workspace output) mounts)]) (\<lambda>_.
     bindE (case output of None \<Rightarrow> Inr ()
            | Some out \<Rightarrow> bindE (os_listdir h out) (\<lambda>entries. guardE (entries = [])
                (AdmissionError ''build output must be empty and supervisor-owned''))) (\<lambda>_.
     Inr \<lparr>cc_profile = tc_profile c, cc_workspace = workspace, cc_output = output, cc_runtime_mounts = mounts,
          cc_limits = tc_limits c, cc_network = tc_network c, cc_backend = tc_backend c\<rparr>))))))))"

section \<open>Approved directories are canonical and stable\<close>

definition plain_component :: "pystr \<Rightarrow> bool" where
  "plain_component c \<longleftrightarrow> c \<noteq> [] \<and> c \<noteq> lit ''.'' \<and> c \<noteq> lit ''..'' \<and> slash \<notin> set c"

definition absolute_path :: "path \<Rightarrow> bool" where
  "absolute_path p \<longleftrightarrow> p \<noteq> [] \<and> hd p \<in> {[slash], [slash, slash]} \<and> list_all plain_component (tl p)"

lemma collapse_rooted:
  assumes "list_all plain_component acc" "\<forall>c \<in> set cs. c \<noteq> [] \<and> c \<noteq> lit ''.'' \<and> slash \<notin> set c"
  shows "list_all plain_component (collapse True acc cs)"
  using assms
proof (induction cs arbitrary: acc)
  case (Cons c cs)
  have tl: "list_all plain_component (tl acc)" using Cons.prems(1) by (cases acc) auto
  have hd: "\<not> (acc \<noteq> [] \<and> hd acc = lit ''..'')"
    using Cons.prems(1) by (cases acc) (auto simp: plain_component_def)
  have rest: "\<forall>c \<in> set cs. c \<noteq> [] \<and> c \<noteq> lit ''.'' \<and> slash \<notin> set c" using Cons.prems(2) by simp
  show ?case
  proof (cases "c = lit ''..''")
    case True
    then have "collapse True acc (c # cs) = collapse True (tl acc) cs" using hd by auto
    then show ?thesis using Cons.IH [OF tl rest] by (simp only:)
  next
    case False
    then have "plain_component c" using Cons.prems(2) by (simp add: plain_component_def)
    then have "list_all plain_component (c # acc)" using Cons.prems(1) by simp
    moreover have "collapse True acc (c # cs) = collapse True (c # acc) cs" using False by simp
    ultimately show ?thesis using Cons.IH [OF _ rest] by (simp only:)
  qed
qed (simp add: list_all_iff)

lemma collapse_id: "list_all plain_component cs \<Longrightarrow> collapse r acc cs = rev acc @ cs"
  by (induction cs arbitrary: acc) (auto simp: plain_component_def)

lemma pp_root_cases: "pp_root s = [] \<or> pp_root s = [slash] \<or> pp_root s = [slash, slash]"
  by (simp add: pp_root_def)

lemma path_join_absolute: "startswith cwd [slash] \<Longrightarrow> startswith (path_join cwd s) [slash]"
  by (auto simp: path_join_def startswith_iff)

lemma pp_root_absolute: "startswith s [slash] \<Longrightarrow> pp_root s \<in> {[slash], [slash, slash]}"
  by (auto simp: pp_root_def)

lemma abspath_absolute:
  assumes "startswith cwd [slash]"
  shows "absolute_path (abspath cwd s)"
proof -
  have root: "pp_root (path_join cwd (pp_str s)) \<in> {[slash], [slash, slash]}"
    using assms by (intro pp_root_absolute path_join_absolute)
  have "\<forall>c \<in> set (pp_tail f). c \<noteq> [] \<and> c \<noteq> lit ''.'' \<and> slash \<notin> set c" for f
    by (auto simp: pp_tail_def dest: psplit_sep_free)
  then show ?thesis
    using root collapse_rooted [of "[]"] by (auto simp: abspath_def Let_def absolute_path_def)
qed

lemma psplit_Cons_sep: "psplit c (c # s) = [] # psplit c s"
  by simp

lemma pp_path_str:
  assumes "absolute_path p"
  shows "pp_root (path_str p) = hd p" "pp_tail (path_str p) = tl p" "pp_str (path_str p) = path_str p"
proof -
  obtain r cs where p: "p = r # cs" "r = [slash] \<or> r = [slash, slash]" and cs: "list_all plain_component cs"
    using assms by (cases p) (auto simp: absolute_path_def)
  let ?j = "pjoin slash cs"
  have hd_j: "?j = [] \<or> hd ?j \<noteq> slash"
    using cs by (cases "(slash, cs)" rule: pjoin.cases) (auto simp: plain_component_def neq_Nil_conv)
  have split_j: "psplit slash ?j = (if cs = [] then [[]] else cs)"
    using cs by (auto intro!: psplit_pjoin simp: list_all_iff plain_component_def)
  show root: "pp_root (path_str p) = hd p"
    using p hd_j by (cases ?j) (auto simp: pp_root_def startswith_def)
  have "filter (\<lambda>c. c \<noteq> [] \<and> c \<noteq> lit ''.'') cs = cs"
    using cs by (auto simp: filter_id_conv list_all_iff plain_component_def)
  then show tail: "pp_tail (path_str p) = tl p"
    using p split_j by (auto simp: pp_tail_def)
  have "hd p \<noteq> []" using p by auto
  then show "pp_str (path_str p) = path_str p"
    unfolding pp_str_def root tail using p by simp
qed

lemma abspath_path_str: "absolute_path p \<Longrightarrow> abspath cwd (path_str p) = p"
proof -
  assume p: "absolute_path p"
  then have "startswith (path_str p) [slash]" by (cases p) (auto simp: absolute_path_def startswith_def)
  then have "path_join cwd (path_str p) = path_str p" by (simp add: path_join_def)
  then show ?thesis
    using p pp_path_str [OF p] by (cases p) (auto simp: abspath_def Let_def absolute_path_def collapse_id)
qed

definition real_directory :: "host \<Rightarrow> path \<Rightarrow> bool" where
  "real_directory h p \<longleftrightarrow> (case os_lstat h p of Inr i \<Rightarrow> s_isdir i | Inl _ \<Rightarrow> False)"

lemma except_os_unicode_Inr [simp]: "except_os_unicode msg m = Inr x \<longleftrightarrow> m = Inr x"
  by (auto simp: except_os_unicode_def split: sum.splits pyexc.splits)

lemma except_os_Inr [simp]: "except_os msg m = Inr x \<longleftrightarrow> m = Inr x"
  by (auto simp: except_os_def split: sum.splits pyexc.splits)

lemma all_upto_Suc:
  "(\<forall>n. 0 < n \<and> n \<le> Suc k \<longrightarrow> Q n) \<longleftrightarrow> Q 1 \<and> (\<forall>n. 0 < n \<and> n \<le> k \<longrightarrow> Q (Suc n))"
proof
  assume r: "Q 1 \<and> (\<forall>n. 0 < n \<and> n \<le> k \<longrightarrow> Q (Suc n))"
  show "\<forall>n. 0 < n \<and> n \<le> Suc k \<longrightarrow> Q n"
  proof (intro allI impI)
    fix n assume n: "0 < n \<and> n \<le> Suc k"
    then obtain m where m: "n = Suc m" by (cases n) auto
    then show "Q n" using r n by (cases m) auto
  qed
qed auto

lemma checked_components_Inr:
  "checked_components h cur parts = Inr u \<longleftrightarrow>
     (\<forall>n. 0 < n \<and> n \<le> length parts \<longrightarrow> real_directory h (cur @ take n parts))"
proof (induction parts arbitrary: cur)
  case (Cons part parts)
  have "checked_components h cur (part # parts) = Inr u \<longleftrightarrow>
      real_directory h (cur @ [part]) \<and> checked_components h (cur @ [part]) parts = Inr u"
    by (auto simp: real_directory_def bindE_eq_Inr split: sum.splits)
  also have "\<dots> \<longleftrightarrow> (\<forall>n. 0 < n \<and> n \<le> length (part # parts) \<longrightarrow> real_directory h (cur @ take n (part # parts)))"
    unfolding Cons.IH length_Cons all_upto_Suc by simp
  finally show ?case .
qed simp

lemma checked_directory_Inr:
  "checked_directory h s = Inr p \<longleftrightarrow> lit ''..'' \<notin> set (pp_parts s) \<and> p = abspath (getcwd h) s \<and>
     (\<forall>n. 0 < n \<and> n \<le> length (tl p) \<longrightarrow> real_directory h ([slash] # take n (tl p)))"
  by (auto simp: checked_directory_def Let_def bindE_eq_Inr checked_components_Inr)

lemma absolute_no_parent:
  assumes "absolute_path p"
  shows "pp_parts (path_str p) = p" "lit ''..'' \<notin> set (pp_parts (path_str p))"
proof -
  obtain r cs where p: "p = r # cs" "r = [slash] \<or> r = [slash, slash]" "list_all plain_component cs"
    using assms by (cases p) (auto simp: absolute_path_def)
  show parts: "pp_parts (path_str p) = p"
    unfolding pp_parts_def using pp_path_str [OF assms] p by auto
  have "lit ''..'' \<noteq> r" using p(2) by (auto simp: lit_def)
  moreover have "lit ''..'' \<notin> set cs" using p(3) by (auto simp: list_all_iff plain_component_def)
  ultimately have "lit ''..'' \<notin> set p" using p(1) by simp
  then show "lit ''..'' \<notin> set (pp_parts (path_str p))" by (simp only: parts not_False_eq_True)
qed

lemma checked_directory_absolute:
  "startswith (getcwd h) [slash] \<Longrightarrow> checked_directory h s = Inr p \<Longrightarrow> absolute_path p"
  by (auto simp: checked_directory_Inr abspath_absolute)

lemma checked_directory_again:
  assumes "startswith (getcwd h) [slash]" "checked_directory h s = Inr p"
  shows "checked_directory h (path_str p) = Inr p"
  using assms checked_directory_absolute [OF assms] abspath_path_str [of p] absolute_no_parent [of p]
  unfolding checked_directory_Inr by auto


section \<open>Sandbox configurations\<close>

lemma mapE_mem: "mapE f xs = Inr ys \<Longrightarrow> y \<in> set ys \<Longrightarrow> \<exists>x \<in> set xs. f x = Inr y"
  by (induction xs arbitrary: ys) (auto simp: bindE_eq_Inr)

lemma runtime_mount_Inr:
  assumes "runtime_mount_checked h s d = Inr m"
  shows "\<exists>raw. s = PStr raw \<and> checked_directory h raw = Inr (m_source m)" "d = PStr (m_destination m)"
    "m_source m \<notin> set broad_mount_roots"
  using assms
  by (auto simp: runtime_mount_checked_def bindE_eq_Inr path_arg_def Let_def bounded_text_def split: pyval.splits)

lemma mount_separate_Inr:
  "mount_separate w out m = Inr u \<longleftrightarrow> \<not> overlaps (m_source m) w \<and> (\<forall>p. out = Some p \<longrightarrow> \<not> overlaps (m_source m) p)"
  by (cases out) (auto simp: mount_separate_def)

lemma overlaps_sym: "overlaps p q \<longleftrightarrow> overlaps q p"
  by (auto simp: overlaps_def)

lemma overlaps_iff_prefix: "overlaps p q \<longleftrightarrow> take (length p) q = p \<or> take (length q) p = q"
proof -
  have "take (length p) q = p \<Longrightarrow> length p < length q \<or> p = q" for p q :: path
    by (metis le_neq_implies_less length_take min.absorb_iff2 min.cobounded1 take_all_iff)
  then show ?thesis by (auto simp: overlaps_def in_parents_def)
qed

text \<open>The trees a sandbox configuration names, in the order the backend mounts them.\<close>

definition config_trees :: "checked_config \<Rightarrow> path list" where
  "config_trees c = cc_workspace c # (case cc_output c of None \<Rightarrow> [] | Some out \<Rightarrow> [out])"

lemma trusted_config_Inr:
  assumes "trusted_config_checked h c = Inr k"
  shows "checked_directory h (tc_workspace c) = Inr (cc_workspace k)" "limits_validate (cc_limits k) = Inr ()"
    "cc_profile k = ''build'' \<or> cc_output k = None" "cc_workspace k \<notin> set broad_workspaces"
    "\<And>out. cc_output k = Some out \<Longrightarrow> \<not> overlaps out (cc_workspace k) \<and> os_listdir h out = Inr [] \<and>
        (\<exists>s. checked_directory h s = Inr out)"
    "\<And>m. m \<in> set (cc_runtime_mounts k) \<Longrightarrow> mount_separate (cc_workspace k) (cc_output k) m = Inr ()"
    "\<And>m. m \<in> set (cc_runtime_mounts k) \<Longrightarrow> \<exists>s d. runtime_mount_checked h s d = Inr m"
    "distinct (map m_destination (cc_runtime_mounts k))" "lit ''/usr'' \<in> set (map m_destination (cc_runtime_mounts k))"
proof -
  obtain workspace out0 mounts where
    w: "checked_directory h (tc_workspace c) = Inr workspace" "workspace \<notin> set broad_workspaces"
    and v: "limits_validate (tc_limits c) = Inr ()"
    and o: "(case tc_output c of None \<Rightarrow> Inr None | Some out \<Rightarrow> bindE (checked_directory h out) (\<lambda>p. Inr (Some p))) = Inr out0"
    and p: "tc_profile c = ''build'' \<or> out0 = None"
    and s: "\<And>out. out0 = Some out \<Longrightarrow> \<not> overlaps out workspace \<and> os_listdir h out = Inr []"
    and m: "mapE (\<lambda>(s, d). runtime_mount_checked h s d) (tc_runtime_mounts c) = Inr mounts"
    and d: "distinct (map m_destination mounts)" "lit ''/usr'' \<in> set (map m_destination mounts)"
    and sep: "\<And>x. x \<in> set mounts \<Longrightarrow> mount_separate workspace out0 x = Inr ()"
    and k: "k = \<lparr>cc_profile = tc_profile c, cc_workspace = workspace, cc_output = out0, cc_runtime_mounts = mounts,
          cc_limits = tc_limits c, cc_network = tc_network c, cc_backend = tc_backend c\<rparr>"
    using assms unfolding trusted_config_checked_def
    by (auto simp: bindE_eq_Inr seqE_map_Inr split: option.splits)
  show "checked_directory h (tc_workspace c) = Inr (cc_workspace k)" "limits_validate (cc_limits k) = Inr ()"
    "cc_profile k = ''build'' \<or> cc_output k = None" "cc_workspace k \<notin> set broad_workspaces"
    "distinct (map m_destination (cc_runtime_mounts k))" "lit ''/usr'' \<in> set (map m_destination (cc_runtime_mounts k))"
    using w v p d by (simp_all add: k)
  show "\<not> overlaps out (cc_workspace k) \<and> os_listdir h out = Inr [] \<and> (\<exists>s. checked_directory h s = Inr out)"
    if "cc_output k = Some out" for out
    using that s [of out] o by (auto simp: k bindE_eq_Inr split: option.splits)
  show "mount_separate (cc_workspace k) (cc_output k) x = Inr ()" if "x \<in> set (cc_runtime_mounts k)" for x
    using that sep by (simp add: k)
  show "\<exists>s d. runtime_mount_checked h s d = Inr x" if "x \<in> set (cc_runtime_mounts k)" for x
    using that mapE_mem [OF m, of x] by (auto simp: k)
qed


definition mounted_below :: "path \<Rightarrow> path \<Rightarrow> bool" where
  "mounted_below p q \<longleftrightarrow> take (length (tl q)) (tl p) = tl q"

definition single_root :: "path \<Rightarrow> bool" where
  "single_root p \<longleftrightarrow> hd p = [slash]"

lemma separate_single_root:
  assumes "absolute_path p" "absolute_path q" "single_root p" "single_root q" "\<not> overlaps p q"
  shows "\<not> mounted_below p q \<and> \<not> mounted_below q p"
  using assms by (cases p; cases q) (auto simp: overlaps_iff_prefix mounted_below_def single_root_def absolute_path_def)

text \<open>A host on which every path is a directory, for evaluating configurations.\<close>

definition all_dirs :: host where
  "all_dirs = (let i = \<lparr>st_fmt = FDir, st_perm = 448, st_dev = 1, st_ino = 2, st_nlink = 2, st_uid = 0, st_size = 0,
     st_mtime_ns = 0, st_ctime_ns = 0\<rparr> in
     \<lparr>getcwd = lit ''/'', getuid = 0, geteuid = 0, os_lstat = (\<lambda>_. Inr i), os_stat = (\<lambda>_. Inr i),
      os_listdir = (\<lambda>_. Inr [])\<rparr>)"

definition build_config :: "string \<Rightarrow> string \<Rightarrow> string \<Rightarrow> trusted_config" where
  "build_config w out m = \<lparr>tc_profile = ''build'', tc_workspace = lit w, tc_output = Some (lit out),
     tc_runtime_mounts = [(pyl m, pyl ''/usr'')], tc_limits = default_limits, tc_network = ''isolated'',
     tc_backend = ''linux-bubblewrap-v1''\<rparr>"

text \<open>
  Paths that start with exactly two slashes keep them (\<^verbatim>\<open>os.path.normpath\<close>), and \<^verbatim>\<open>pathlib\<close> compares them
  unequal to the one-slash spelling: the separation and broad-root tests then see two unrelated paths.
\<close>

lemma double_slash_overlap:
  "case trusted_config_checked all_dirs (build_config ''//srv/x'' ''/srv/out'' ''/srv/x/usr'') of
     Inr k \<Rightarrow> (\<exists>m \<in> set (cc_runtime_mounts k). mounted_below (m_source m) (cc_workspace k)) | Inl _ \<Rightarrow> False"
  "case runtime_mount_checked all_dirs (pyl ''//etc'') (pyl ''/usr'') of
     Inr m \<Rightarrow> tl (m_source m) = [lit ''etc''] | Inl _ \<Rightarrow> False"
  by code_simp+

text \<open>The three-part test on the destination does not look at its first part.\<close>

lemma relative_runtime_destination:
  "case runtime_mount_checked all_dirs (pyl ''/opt/node'') (pyl ''x/runtime/node'') of
     Inr m \<Rightarrow> \<not> pp_absolute (m_destination m) | Inl _ \<Rightarrow> False"
  by code_simp



end
