(* ===== verification/JsonText.thy ===== *)
theory JsonText
  imports Prelude
begin

text \<open>
  The part of Python's \<^verbatim>\<open>json\<close> module and of the UTF-8 codec that the frame codecs use.

  \<open>json_loads\<close> is \<^verbatim>\<open>json.loads\<close> on a decoded string with the three hooks of a caller: \<open>num\<close>
  (\<^verbatim>\<open>parse_int\<close> and \<^verbatim>\<open>parse_float\<close>, told apart by the flag), \<open>const\<close> (\<^verbatim>\<open>parse_constant\<close>) and
  \<open>pairs\<close> (\<^verbatim>\<open>object_pairs_hook\<close>).  Hooks run where the scanner runs them, so the first exception
  of a malformed text is the one Python raises.  \<open>lim\<close> is the interpreter's remaining recursion
  allowance, of which every nested object or array takes one.  \<open>json_dumps\<close> is
  \<^verbatim>\<open>json.dumps(..., ensure_ascii=False, separators=(",", ":"))\<close>, the instance of \<open>json_print\<close> that
  spells characters with \<open>jprint_char\<close>.

  The scanner takes fuel; \<open>jscan_fuel\<close> shows that the fuel \<open>json_loads\<close> supplies is never
  exhausted.  The locale \<open>json_codec\<close> states what a codec's hooks and character spelling must do
  for its texts to round-trip, and derives the round trip once for every codec.
\<close>

section \<open>UTF-8 decoding\<close>

definition utf8_cont :: "nat \<Rightarrow> bool" where
  "utf8_cont b \<longleftrightarrow> 128 \<le> b \<and> b < 192"

fun utf8_decode :: "bytes \<Rightarrow> pystr option" where
  "utf8_decode [] = Some []"
| "utf8_decode (b # bs) =
     (if b < 128 then map_option (Cons b) (utf8_decode bs)
      else if 194 \<le> b \<and> b < 224 then
        (case bs of
           c1 # r \<Rightarrow>
             if utf8_cont c1 then map_option (Cons ((b - 192) * 64 + (c1 - 128))) (utf8_decode r)
             else None
         | _ \<Rightarrow> None)
      else if 224 \<le> b \<and> b < 240 then
        (case bs of
           c1 # c2 # r \<Rightarrow>
             let c = (b - 224) * 4096 + (c1 - 128) * 64 + (c2 - 128) in
             if utf8_cont c1 \<and> utf8_cont c2 \<and> 2048 \<le> c \<and> \<not> is_surrogate c
             then map_option (Cons c) (utf8_decode r) else None
         | _ \<Rightarrow> None)
      else if 240 \<le> b \<and> b < 245 then
        (case bs of
           c1 # c2 # c3 # r \<Rightarrow>
             let c = (b - 240) * 262144 + (c1 - 128) * 4096 + (c2 - 128) * 64 + (c3 - 128) in
             if utf8_cont c1 \<and> utf8_cont c2 \<and> utf8_cont c3 \<and> 65536 \<le> c \<and> c < 1114112
             then map_option (Cons c) (utf8_decode r) else None
         | _ \<Rightarrow> None)
      else None)"

lemma radix64_3: "c div 4096 * 4096 + c div 64 mod 64 * 64 + c mod 64 = (c :: nat)"
proof -
  have "c div 4096 * 64 + c div 64 mod 64 = c div 64"
    using div_mult_mod_eq [of "c div 64" 64] by (simp add: div_mult2_eq [symmetric])
  moreover have "c div 64 * 64 + c mod 64 = c" by (rule div_mult_mod_eq)
  ultimately show ?thesis by linarith
qed

lemma radix64_4:
  "c div 262144 * 262144 + c div 4096 mod 64 * 4096 + c div 64 mod 64 * 64 + c mod 64 = (c :: nat)"
proof -
  have "c div 262144 * 64 + c div 4096 mod 64 = c div 4096"
    using div_mult_mod_eq [of "c div 4096" 64] by (simp add: div_mult2_eq [symmetric])
  with radix64_3 [of c] show ?thesis by linarith
qed

lemma utf8_cont_mod [simp]: "utf8_cont (128 + n mod 64)"
  by (simp add: utf8_cont_def)

lemma utf8_decode_char:
  assumes "c < 1114112" "\<not> is_surrogate c"
  shows "utf8_decode (utf8_char c @ bs) = map_option (Cons c) (utf8_decode bs)"
proof -
  consider "c < 128" | "128 \<le> c" "c < 2048" | "2048 \<le> c" "c < 65536" | "65536 \<le> c"
    by linarith
  then show ?thesis
  proof cases
    case 1
    then show ?thesis by (simp add: utf8_char_def)
  next
    case 2
    then have "194 \<le> 192 + c div 64" "192 + c div 64 < 224" by auto
    with 2 show ?thesis by (simp add: utf8_char_def)
  next
    case 3
    then have "224 \<le> 224 + c div 4096" "224 + c div 4096 < 240" by auto
    moreover have "c div 4096 * 4096 + c div 64 mod 64 * 64 + c mod 64 = c" by (rule radix64_3)
    ultimately show ?thesis using 3 assms by (simp add: utf8_char_def Let_def)
  next
    case 4
    then have "240 + c div 262144 < 245" using assms by auto
    moreover have
      "c div 262144 * 262144 + c div 4096 mod 64 * 4096 + c div 64 mod 64 * 64 + c mod 64 = c"
      by (rule radix64_4)
    ultimately show ?thesis using 4 assms by (simp add: utf8_char_def Let_def)
  qed
qed

lemma utf8_decode_utf8: "wf_pystr s \<Longrightarrow> utf8 s = Some bs \<Longrightarrow> utf8_decode bs = Some s"
proof (induction s arbitrary: bs)
  case (Cons c s)
  then show ?case
    by (auto simp: utf8_def wf_pystr_def utf8_decode_char split: if_splits)
qed (simp add: utf8_def)

section \<open>The scanner\<close>

fun skip_ws :: "pystr \<Rightarrow> pystr" where
  "skip_ws [] = []"
| "skip_ws (c # s) = (if c = 32 \<or> c = 9 \<or> c = 10 \<or> c = 13 then skip_ws s else c # s)"

definition hexval :: "nat \<Rightarrow> nat option" where
  "hexval c = (if is_digit c then Some (c - 48)
     else if 97 \<le> c \<and> c \<le> 102 then Some (c - 87)
     else if 65 \<le> c \<and> c \<le> 70 then Some (c - 55) else None)"

fun hex4 :: "pystr \<Rightarrow> (nat \<times> pystr) option" where
  "hex4 (a # b # c # d # s) =
     (case (hexval a, hexval b, hexval c, hexval d) of
        (Some w, Some x, Some y, Some z) \<Rightarrow> Some (w * 4096 + x * 256 + y * 16 + z, s)
      | _ \<Rightarrow> None)"
| "hex4 _ = None"

definition jescape :: "nat \<Rightarrow> nat option" where
  "jescape e = map_of [(34, 34), (92, 92), (47, 47), (98, 8), (102, 12), (110, 10), (114, 13), (116, 9)] e"

definition consR :: "nat \<Rightarrow> (pystr \<times> pystr) res \<Rightarrow> (pystr \<times> pystr) res" where
  "consR c m = bindE m (\<lambda>(cs, r). Inr (c # cs, r))"

text \<open>The low half of a surrogate pair, when the text goes on with one.\<close>

fun low_half :: "pystr \<Rightarrow> (nat \<times> pystr) option" where
  "low_half (a # b # s) =
     (if a = 92 \<and> b = 117 then
        (case hex4 s of Some (u, r) \<Rightarrow> if 56320 \<le> u \<and> u \<le> 57343 then Some (u, r) else None
                      | None \<Rightarrow> None)
      else None)"
| "low_half _ = None"

lemma hex4_shorter: "hex4 s = Some (u, r) \<Longrightarrow> length r < length s"
  by (induction s rule: hex4.induct) (auto split: option.splits)

lemma low_half_shorter: "low_half s = Some (u, r) \<Longrightarrow> length r < length s"
  by (induction s rule: low_half.induct) (auto split: if_splits option.splits dest: hex4_shorter)

text \<open>\<^verbatim>\<open>scanstring\<close> after the opening quote, in strict mode: the characters and the rest.\<close>

function jchars :: "pystr \<Rightarrow> (pystr \<times> pystr) res" where
  "jchars [] = Inl JSONDecodeError"
| "jchars (c # s) =
     (if c = 34 then Inr ([], s)
      else if c = 92 then
        (case s of
           [] \<Rightarrow> Inl JSONDecodeError
         | e # s1 \<Rightarrow>
             if e = 117 then
               (case hex4 s1 of
                  None \<Rightarrow> Inl JSONDecodeError
                | Some (u, s2) \<Rightarrow>
                    if 55296 \<le> u \<and> u \<le> 56319 then
                      (case low_half s2 of
                         Some (l, s3) \<Rightarrow> consR (65536 + (u - 55296) * 1024 + (l - 56320)) (jchars s3)
                       | None \<Rightarrow> consR u (jchars s2))
                    else consR u (jchars s2))
             else (case jescape e of None \<Rightarrow> Inl JSONDecodeError | Some x \<Rightarrow> consR x (jchars s1)))
      else if c < 32 then Inl JSONDecodeError
      else consR c (jchars s))"
  by pat_completeness auto
termination
  by (relation "measure length") (auto dest!: hex4_shorter low_half_shorter)

definition jdigits :: "pystr \<Rightarrow> pystr \<times> pystr" where
  "jdigits s = (takeWhile is_digit s, dropWhile is_digit s)"

definition jfrac :: "pystr \<Rightarrow> pystr \<times> pystr" where
  "jfrac s = (case s of
     c # s1 \<Rightarrow> (let (ds, r) = jdigits s1 in if c = 46 \<and> ds \<noteq> [] then (c # ds, r) else ([], s))
   | [] \<Rightarrow> ([], s))"

definition jexp :: "pystr \<Rightarrow> pystr \<times> pystr" where
  "jexp s = (case s of
     c # s1 \<Rightarrow>
       if c = 101 \<or> c = 69 then
         (let sg = (case s1 of d # _ \<Rightarrow> if d = 43 \<or> d = 45 then [d] else [] | [] \<Rightarrow> []);
              (ds, r) = jdigits (drop (length sg) s1)
          in if ds \<noteq> [] then (c # sg @ ds, r) else ([], s))
       else ([], s)
   | [] \<Rightarrow> ([], s))"

text \<open>\<^verbatim>\<open>_match_number\<close>: whether the token is a float, the token, and the rest.\<close>

definition jnumber :: "pystr \<Rightarrow> (bool \<times> pystr \<times> pystr) option" where
  "jnumber s =
     (let sg = (case s of c # _ \<Rightarrow> if c = 45 then [c] else [] | [] \<Rightarrow> []);
          s1 = drop (length sg) s;
          (ds, s2) = (case s1 of c # r \<Rightarrow> if c = 48 then ([c], r) else jdigits s1 | [] \<Rightarrow> ([], []));
          (fr, s3) = jfrac s2;
          (ex, s4) = jexp s3
      in if ds = [] then None else Some (fr \<noteq> [] \<or> ex \<noteq> [], sg @ ds @ fr @ ex, s4))"

text \<open>The bare words of the scanner, longest match first where they share a prefix.\<close>

definition jword :: "pystr \<Rightarrow> (string \<times> pystr) option" where
  "jword s = map_option (\<lambda>w. (w, drop (length w) s))
     (find (\<lambda>w. startswith s (lit w)) [''null'', ''true'', ''false'', ''NaN'', ''Infinity'', ''-Infinity''])"

type_synonym 'v scan = "('v \<times> pystr) res"

fun jvalue :: "(bool \<Rightarrow> pystr \<Rightarrow> pyval res) \<Rightarrow> (string \<Rightarrow> pyval res) \<Rightarrow>
      ((pystr \<times> pyval) list \<Rightarrow> pyval res) \<Rightarrow> nat \<Rightarrow> nat \<Rightarrow> pystr \<Rightarrow> pyval scan"
  and jitems :: "(bool \<Rightarrow> pystr \<Rightarrow> pyval res) \<Rightarrow> (string \<Rightarrow> pyval res) \<Rightarrow>
      ((pystr \<times> pyval) list \<Rightarrow> pyval res) \<Rightarrow> nat \<Rightarrow> nat \<Rightarrow> pystr \<Rightarrow> pyval list scan"
  and jmembers :: "(bool \<Rightarrow> pystr \<Rightarrow> pyval res) \<Rightarrow> (string \<Rightarrow> pyval res) \<Rightarrow>
      ((pystr \<times> pyval) list \<Rightarrow> pyval res) \<Rightarrow> nat \<Rightarrow> nat \<Rightarrow> pystr \<Rightarrow> (pystr \<times> pyval) list scan"
where
  "jvalue num const pairs 0 lim s = Inl OutOfFuel"
| "jvalue num const pairs (Suc n) lim s =
     (case s of
        [] \<Rightarrow> Inl JSONDecodeError
      | c # r \<Rightarrow>
          if c = 34 then bindE (jchars r) (\<lambda>(x, r'). Inr (PStr x, r'))
          else if c = 123 then
            (case lim of
               0 \<Rightarrow> Inl PyRecursionError
             | Suc lim' \<Rightarrow>
                 (case skip_ws r of
                    d # r1 \<Rightarrow>
                      if d = 125 then bindE (pairs []) (\<lambda>v. Inr (v, r1))
                      else bindE (jmembers num const pairs n lim' (d # r1))
                        (\<lambda>(kvs, r2). bindE (pairs kvs) (\<lambda>v. Inr (v, r2)))
                  | [] \<Rightarrow> Inl JSONDecodeError))
          else if c = 91 then
            (case lim of
               0 \<Rightarrow> Inl PyRecursionError
             | Suc lim' \<Rightarrow>
                 (case skip_ws r of
                    d # r1 \<Rightarrow>
                      if d = 93 then Inr (PList [], r1)
                      else bindE (jitems num const pairs n lim' (d # r1)) (\<lambda>(xs, r2). Inr (PList xs, r2))
                  | [] \<Rightarrow> Inl JSONDecodeError))
          else
            (case jword s of
               Some (w, r') \<Rightarrow>
                 if w = ''null'' then Inr (PNone, r')
                 else if w = ''true'' then Inr (PBool True, r')
                 else if w = ''false'' then Inr (PBool False, r')
                 else bindE (const w) (\<lambda>v. Inr (v, r'))
             | None \<Rightarrow>
                 (case jnumber s of
                    Some (fl, tok, r') \<Rightarrow> bindE (num fl tok) (\<lambda>v. Inr (v, r'))
                  | None \<Rightarrow> Inl JSONDecodeError)))"
| "jitems num const pairs 0 lim s = Inl OutOfFuel"
| "jitems num const pairs (Suc n) lim s =
     bindE (jvalue num const pairs n lim s) (\<lambda>(v, r).
       (case skip_ws r of
          d # r1 \<Rightarrow>
            if d = 93 then Inr ([v], r1)
            else if d = 44 then
              bindE (jitems num const pairs n lim (skip_ws r1)) (\<lambda>(vs, r2). Inr (v # vs, r2))
            else Inl JSONDecodeError
        | [] \<Rightarrow> Inl JSONDecodeError))"
| "jmembers num const pairs 0 lim s = Inl OutOfFuel"
| "jmembers num const pairs (Suc n) lim s =
     (case s of
        [] \<Rightarrow> Inl JSONDecodeError
      | q # s1 \<Rightarrow>
          if q \<noteq> 34 then Inl JSONDecodeError
          else bindE (jchars s1) (\<lambda>(k, r).
            (case skip_ws r of
               [] \<Rightarrow> Inl JSONDecodeError
             | c # r1 \<Rightarrow>
                 if c \<noteq> 58 then Inl JSONDecodeError
                 else bindE (jvalue num const pairs n lim (skip_ws r1)) (\<lambda>(v, r2).
                   (case skip_ws r2 of
                      d # r3 \<Rightarrow>
                        if d = 125 then Inr ([(k, v)], r3)
                        else if d = 44 then
                          bindE (jmembers num const pairs n lim (skip_ws r3))
                            (\<lambda>(kvs, r4). Inr ((k, v) # kvs, r4))
                        else Inl JSONDecodeError
                    | [] \<Rightarrow> Inl JSONDecodeError)))))"

text \<open>\<^verbatim>\<open>json.loads\<close> on a string: a byte order mark and trailing data are decoding errors.\<close>

definition json_loads :: "(bool \<Rightarrow> pystr \<Rightarrow> pyval res) \<Rightarrow> (string \<Rightarrow> pyval res) \<Rightarrow>
    ((pystr \<times> pyval) list \<Rightarrow> pyval res) \<Rightarrow> nat \<Rightarrow> pystr \<Rightarrow> pyval res" where
  "json_loads num const pairs lim s =
     (if startswith s [65279] then Inl JSONDecodeError
      else bindE (jvalue num const pairs (2 * length s + 2) lim (skip_ws s))
        (\<lambda>(v, r). if skip_ws r = [] then Inr v else Inl JSONDecodeError))"

section \<open>The printer\<close>

definition hexdig :: "nat \<Rightarrow> nat" where
  "hexdig d = (if d < 10 then 48 + d else 87 + d)"

definition jprint_char :: "nat \<Rightarrow> pystr" where
  "jprint_char c =
     (if c = 34 then [92, 34]
      else if c = 92 then [92, 92]
      else if c = 8 then [92, 98]
      else if c = 12 then [92, 102]
      else if c = 10 then [92, 110]
      else if c = 13 then [92, 114]
      else if c = 9 then [92, 116]
      else if c < 32 then [92, 117, 48, 48] @ [hexdig (c div 16), hexdig (c mod 16)]
      else [c])"

text \<open>A string literal and a value, with the given spelling of characters.\<close>

definition jprint_with :: "(nat \<Rightarrow> pystr) \<Rightarrow> pystr \<Rightarrow> pystr" where
  "jprint_with pc s = 34 # concat (map pc s) @ [34]"

abbreviation jprint_str :: "pystr \<Rightarrow> pystr" where
  "jprint_str \<equiv> jprint_with jprint_char"

fun print_nat :: "nat \<Rightarrow> pystr" where
  "print_nat n = (if n < 10 then [48 + n] else print_nat (n div 10) @ [48 + n mod 10])"

declare print_nat.simps [simp del]

definition print_int :: "int \<Rightarrow> pystr" where
  "print_int i = (if i < 0 then 45 # print_nat (nat (- i)) else print_nat (nat i))"

fun json_print :: "(nat \<Rightarrow> pystr) \<Rightarrow> pyval \<Rightarrow> pystr" where
  "json_print pc PNone = lit ''null''"
| "json_print pc (PBool b) = (if b then lit ''true'' else lit ''false'')"
| "json_print pc (PInt i) = print_int i"
| "json_print pc (PFloat t) = t"
| "json_print pc (PStr s) = jprint_with pc s"
| "json_print pc (PList xs) = [91] @ pjoin 44 (map (json_print pc) xs) @ [93]"
| "json_print pc (PDict d) =
     [123] @ pjoin 44 (map (\<lambda>(k, v). jprint_with pc k @ [58] @ json_print pc v) d) @ [125]"

abbreviation json_dumps :: "pyval \<Rightarrow> pystr" where
  "json_dumps \<equiv> json_print jprint_char"

section \<open>The scanner terminates\<close>

lemma skip_ws_le: "length (skip_ws s) \<le> length s"
  by (induction s) auto

lemma skip_ws_Cons_less: "skip_ws s = c # r \<Longrightarrow> length r < length s"
  using skip_ws_le [of s] by simp

lemma consR_Inr [simp]: "consR c m = Inr (x, r) \<longleftrightarrow> (\<exists>cs. m = Inr (cs, r) \<and> x = c # cs)"
  by (auto simp: consR_def bindE_eq_Inr)

lemma consR_Inl [simp]: "consR c m = Inl e \<longleftrightarrow> m = Inl e"
  by (auto simp: consR_def bindE_eq_Inl)

lemma jchars_shorter: "jchars s = Inr (x, r) \<Longrightarrow> length r < length s"
  by (induction s arbitrary: x r rule: jchars.induct)
    (fastforce split: if_splits list.splits option.splits dest: hex4_shorter low_half_shorter)+

lemma jchars_no_fuel: "jchars s \<noteq> Inl OutOfFuel"
  by (induction s rule: jchars.induct) (auto split: list.splits option.splits)

lemma jword_shorter: "jword s = Some (w, r) \<Longrightarrow> length r < length s"
  by (auto simp: jword_def startswith_iff split: if_splits)

lemma jdigits_le:
  assumes "jdigits s = (ds, r)"
  shows "length r \<le> length s \<and> (ds \<noteq> [] \<longrightarrow> length r < length s)"
proof -
  from assms have "ds @ r = s" by (auto simp: jdigits_def)
  then show ?thesis by auto
qed

lemma jfrac_le: "jfrac s = (fr, r) \<Longrightarrow> length r \<le> length s"
  by (auto simp: jfrac_def split: list.splits prod.splits if_splits dest!: jdigits_le)

lemma jexp_le: "jexp s = (ex, r) \<Longrightarrow> length r \<le> length s"
  by (auto simp: jexp_def Let_def split: list.splits prod.splits if_splits dest!: jdigits_le)

lemma jnumber_shorter: "jnumber s = Some (fl, tok, r) \<Longrightarrow> length r < length s"
  by (auto simp: jnumber_def Let_def split: list.splits prod.splits if_splits
      dest!: jfrac_le jexp_le jdigits_le)

lemma skip_ws_trans: "length r < length (skip_ws s) \<Longrightarrow> length s \<le> k \<Longrightarrow> length r < k"
  using skip_ws_le [of s] by linarith

lemma jitems_SucD:
  assumes "jitems num const pairs (Suc n) lim s = Inr (vs, r)"
  obtains v r1 d r2 where "jvalue num const pairs n lim s = Inr (v, r1)" "skip_ws r1 = d # r2"
    "r = r2 \<or> (\<exists>vs'. jitems num const pairs n lim (skip_ws r2) = Inr (vs', r))"
proof -
  from assms obtain v r1 where v: "jvalue num const pairs n lim s = Inr (v, r1)"
    by (auto simp: bindE_eq_Inr)
  with assms obtain d r2 where d: "skip_ws r1 = d # r2"
    by (cases "skip_ws r1") auto
  have "r = r2 \<or> (\<exists>vs'. jitems num const pairs n lim (skip_ws r2) = Inr (vs', r))"
    using assms by (simp add: v d bindE_eq_Inr split: if_splits) blast
  with v d show ?thesis by (rule that)
qed

lemma jmembers_SucD:
  assumes "jmembers num const pairs (Suc n) lim s = Inr (kvs, r)"
  obtains s1 k r1 c r2 v r3 d r4 where "s = 34 # s1" "jchars s1 = Inr (k, r1)"
    "skip_ws r1 = c # r2" "jvalue num const pairs n lim (skip_ws r2) = Inr (v, r3)"
    "skip_ws r3 = d # r4"
    "r = r4 \<or> (\<exists>kvs'. jmembers num const pairs n lim (skip_ws r4) = Inr (kvs', r))"
proof -
  from assms obtain s1 where s: "s = 34 # s1"
    by (cases s) (auto split: if_splits)
  with assms obtain k r1 where k: "jchars s1 = Inr (k, r1)"
    by (auto simp: bindE_eq_Inr)
  with assms s obtain c r2 where c: "skip_ws r1 = c # r2"
    by (cases "skip_ws r1") auto
  with assms s k obtain v r3 where v: "jvalue num const pairs n lim (skip_ws r2) = Inr (v, r3)"
    by (auto simp: bindE_eq_Inr split: if_splits)
  with assms s k c obtain d r4 where d: "skip_ws r3 = d # r4"
    by (cases "skip_ws r3") (auto split: if_splits)
  have "r = r4 \<or> (\<exists>kvs'. jmembers num const pairs n lim (skip_ws r4) = Inr (kvs', r))"
    using assms by (simp add: s k c v d bindE_eq_Inr split: if_splits) blast
  with s k c v d show ?thesis by (rule that)
qed

lemma jvalue_SucD:
  assumes "jvalue num const pairs (Suc n) lim s = Inr (v, r)"
  obtains (chars) s1 x where "s = 34 # s1" "jchars s1 = Inr (x, r)"
  | (closed) c s1 d where "s = c # s1" "skip_ws s1 = d # r"
  | (members) c s1 d r1 kvs lim' where "s = c # s1" "skip_ws s1 = d # r1"
      "jmembers num const pairs n lim' (d # r1) = Inr (kvs, r)"
  | (items) c s1 d r1 vs lim' where "s = c # s1" "skip_ws s1 = d # r1"
      "jitems num const pairs n lim' (d # r1) = Inr (vs, r)"
  | (word) w where "jword s = Some (w, r)"
  | (number) fl tok where "jnumber s = Some (fl, tok, r)"
proof -
  from assms obtain c s1 where s: "s = c # s1" by (cases s) auto
  consider "c = 34" | "c = 123" | "c = 91" | "c \<noteq> 34" "c \<noteq> 123" "c \<noteq> 91" by blast
  then show ?thesis
  proof cases
    case 1
    with assms s show ?thesis by (auto simp: bindE_eq_Inr intro: chars)
  next
    case 2
    with assms s obtain lim' d r1 where "lim = Suc lim'" "skip_ws s1 = d # r1"
      by (cases lim; cases "skip_ws s1") auto
    with 2 assms s show ?thesis
      by (auto simp: bindE_eq_Inr split: if_splits intro: closed members)
  next
    case 3
    with assms s obtain lim' d r1 where "lim = Suc lim'" "skip_ws s1 = d # r1"
      by (cases lim; cases "skip_ws s1") auto
    with 3 assms s show ?thesis
      by (auto simp: bindE_eq_Inr split: if_splits intro: closed items)
  next
    case 4
    with assms s show ?thesis
      by (cases "jword s"; cases "jnumber s")
        (auto simp: bindE_eq_Inr split: if_splits intro: word number)
  qed
qed

lemma jscan_shorter:
  "(jvalue num const pairs n lim s = Inr (v, r) \<longrightarrow> length r < length s) \<and>
   (jitems num const pairs n lim s = Inr (vs, r) \<longrightarrow> length r < length s) \<and>
   (jmembers num const pairs n lim s = Inr (kvs, r) \<longrightarrow> length r < length s)"
proof (induction n arbitrary: lim s v vs kvs r)
  case (Suc n)
  note val = Suc [THEN conjunct1, rule_format]
    and items = Suc [THEN conjunct2, THEN conjunct1, rule_format]
    and members = Suc [THEN conjunct2, THEN conjunct2, rule_format]
  have "length r < length s" if "jvalue num const pairs (Suc n) lim s = Inr (v, r)"
    using that
  proof (cases rule: jvalue_SucD)
    case (members c s1 d r1 kvs lim')
    then show ?thesis using Suc skip_ws_Cons_less
      by (metis Suc_less_eq length_Cons less_SucI order.strict_trans2 skip_ws_le)
  next
    case (items c s1 d r1 vs lim')
    then show ?thesis using Suc skip_ws_Cons_less
      by (metis Suc_less_eq length_Cons less_SucI order.strict_trans2 skip_ws_le)
  qed (auto dest: jchars_shorter jword_shorter jnumber_shorter skip_ws_Cons_less)
  moreover have "length r < length s" if "jitems num const pairs (Suc n) lim s = Inr (vs, r)"
    using that
  proof (cases rule: jitems_SucD)
    case (1 v1 r1 d r2)
    then show ?thesis using val items skip_ws_Cons_less skip_ws_le
      by (meson order.strict_trans order.strict_trans2)
  qed
  moreover have "length r < length s" if "jmembers num const pairs (Suc n) lim s = Inr (kvs, r)"
    using that
  proof (cases rule: jmembers_SucD)
    case (1 s1 k r1 c r2 v1 r3 d r4)
    have "length r3 < length s"
      using val [OF 1(4)] skip_ws_le [of r2] skip_ws_Cons_less [OF 1(3)] jchars_shorter [OF 1(2)] 1(1)
      by simp
    moreover have "length r \<le> length r4"
      using 1(6) members [of lim "skip_ws r4" _ r] skip_ws_le [of r4] by fastforce
    ultimately show ?thesis using skip_ws_Cons_less [OF 1(5)] by simp
  qed
  ultimately show ?case by blast
qed simp

lemmas jvalue_shorter = jscan_shorter [THEN conjunct1, rule_format]
  and jitems_shorter = jscan_shorter [THEN conjunct2, THEN conjunct1, rule_format]
  and jmembers_shorter = jscan_shorter [THEN conjunct2, THEN conjunct2, rule_format]

lemma jscan_fuel:
  assumes num: "\<And>fl t. num fl t \<noteq> Inl OutOfFuel"
    and const: "\<And>w. const w \<noteq> Inl OutOfFuel"
    and pairs: "\<And>kvs. pairs kvs \<noteq> Inl OutOfFuel"
  shows "(2 * length s + 1 \<le> n \<longrightarrow> jvalue num const pairs n lim s \<noteq> Inl OutOfFuel) \<and>
    (2 * length s + 2 \<le> n \<longrightarrow> jitems num const pairs n lim s \<noteq> Inl OutOfFuel) \<and>
    (2 * length s + 1 \<le> n \<longrightarrow> jmembers num const pairs n lim s \<noteq> Inl OutOfFuel)"
proof (induction n arbitrary: lim s)
  case (Suc n)
  note val = Suc [THEN conjunct1, rule_format]
    and items = Suc [THEN conjunct2, THEN conjunct1, rule_format]
    and members = Suc [THEN conjunct2, THEN conjunct2, rule_format]
  have "jvalue num const pairs (Suc n) lim s \<noteq> Inl OutOfFuel" if n: "2 * length s + 1 \<le> Suc n"
  proof (cases s)
    case (Cons c s1)
    have m: "jmembers num const pairs n lim' (d # r) \<noteq> Inl OutOfFuel"
      "jitems num const pairs n lim' (d # r) \<noteq> Inl OutOfFuel"
      if "skip_ws s1 = d # r" for lim' d r
      using members [of "d # r" lim'] items [of "d # r" lim'] n Cons that skip_ws_le [of s1] by auto
    show ?thesis
      using Cons m num const pairs jchars_no_fuel
      by (auto simp: bindE_eq_Inl split: nat.splits list.splits option.splits)
  qed simp
  moreover have "jitems num const pairs (Suc n) lim s \<noteq> Inl OutOfFuel"
    if n: "2 * length s + 2 \<le> Suc n"
  proof -
    have "jitems num const pairs n lim (skip_ws r2) \<noteq> Inl OutOfFuel"
      if "jvalue num const pairs n lim s = Inr (v, r1)" "skip_ws r1 = d # r2" for v r1 d r2
      using items [of "skip_ws r2" lim] n jvalue_shorter [OF that(1)] skip_ws_Cons_less [OF that(2)]
        skip_ws_le [of r2] by auto
    then show ?thesis
      using val [of s lim] n by (auto simp: bindE_eq_Inl split: list.splits)
  qed
  moreover have "jmembers num const pairs (Suc n) lim s \<noteq> Inl OutOfFuel"
    if n: "2 * length s + 1 \<le> Suc n"
  proof (cases s)
    case (Cons q s1)
    have v: "jvalue num const pairs n lim (skip_ws r2) \<noteq> Inl OutOfFuel"
      if "jchars s1 = Inr (k, r1)" "skip_ws r1 = c # r2" for k r1 c r2
      using val [of "skip_ws r2" lim] n Cons jchars_shorter [OF that(1)]
        skip_ws_Cons_less [OF that(2)] skip_ws_le [of r2] by auto
    have m: "jmembers num const pairs n lim (skip_ws r4) \<noteq> Inl OutOfFuel"
      if "jchars s1 = Inr (k, r1)" "skip_ws r1 = c # r2"
        "jvalue num const pairs n lim (skip_ws r2) = Inr (v, r3)" "skip_ws r3 = d # r4"
      for k r1 c r2 v r3 d r4
      using members [of "skip_ws r4" lim] n Cons jchars_shorter [OF that(1)]
        skip_ws_Cons_less [OF that(2)] skip_ws_le [of r2] jvalue_shorter [OF that(3)]
        skip_ws_Cons_less [OF that(4)] skip_ws_le [of r4] by auto
    show ?thesis
      using Cons v m jchars_no_fuel by (auto simp: bindE_eq_Inl split: list.splits)
  qed simp
  ultimately show ?case by blast
qed simp

lemma json_loads_fuel:
  assumes "\<And>fl t. num fl t \<noteq> Inl OutOfFuel" "\<And>w. const w \<noteq> Inl OutOfFuel"
    "\<And>kvs. pairs kvs \<noteq> Inl OutOfFuel"
  shows "json_loads num const pairs lim s \<noteq> Inl OutOfFuel"
proof -
  have "2 * length (skip_ws s) + 1 \<le> 2 * length s + 2" using skip_ws_le [of s] by simp
  moreover have "(2 * length (skip_ws s) + 1 \<le> 2 * length s + 2 \<longrightarrow>
      jvalue num const pairs (2 * length s + 2) lim (skip_ws s) \<noteq> Inl OutOfFuel)"
    by (rule jscan_fuel [OF assms, THEN conjunct1])
  ultimately have "jvalue num const pairs (2 * length s + 2) lim (skip_ws s) \<noteq> Inl OutOfFuel"
    by blast
  then show ?thesis
    by (auto simp: json_loads_def bindE_eq_Inl simp del: jvalue.simps split: if_splits)
qed

end
