(* ===== verification/SourceView.thy ===== *)
theory SourceView
  imports Policy JsonText "HOL-Library.List_Lexorder" "HOL-Library.Multiset"
begin

text \<open>
  Source-view selectors (\<^verbatim>\<open>supervisor/mirrorgate/source_view.py\<close>): include paths, the include set, the
  workspace root and the policy object with its re-validation.  \<open>sorted\<close> is the code-point order of
  Python strings; the selector digest is SHA-256 over the canonical JSON of the include paths.
\<close>

definition source_view_schema :: string where "source_view_schema = ''mirrorgate.source-view/v1''"
definition selector_domain :: pystr where "selector_domain = lit ''mirrorgate.source-view-selector/v1''"
definition max_include_paths :: nat where "max_include_paths = 1024"
definition max_selector_bytes :: nat where "max_selector_bytes = 65535"
definition max_relative_path_bytes :: nat where "max_relative_path_bytes = 1024"
definition max_directory_depth :: nat where "max_directory_depth = 64"
definition supervisor_directory_mode :: nat where "supervisor_directory_mode = 448"

definition checked_include_path :: "pyval \<Rightarrow> pystr res" where
  "checked_include_path v =
     (let bound = AdmissionError ''source view include path must be a bounded UTF-8 relative path'' in
      case v of
        PStr s \<Rightarrow> (case utf8_len s of
            None \<Rightarrow> Inl (AdmissionError ''source view include path must contain Unicode scalars'')
          | Some n \<Rightarrow> retE
              [guardE (0 \<notin> set s \<and> n \<le> max_relative_path_bytes) bound,
               guardE (\<not> pp_absolute s \<and> lit ''..'' \<notin> set (pp_parts s) \<and> pp_str s = s \<and> s \<noteq> [] \<and> s \<noteq> lit ''.'')
                 (AdmissionError ''source view include path must be canonical and relative'')] s)
      | _ \<Rightarrow> Inl bound)"

text \<open>The proper ancestors of a path: \<^verbatim>\<open>"/".join(parts[:index])\<close> for \<open>1 \<le> index < len(parts)\<close>.\<close>

definition ancestors :: "pystr \<Rightarrow> pystr list" where
  "ancestors p = (let parts = psplit slash p in map (\<lambda>i. pjoin slash (take i parts)) [1..<length parts])"

definition checked_include_set :: "pystr list \<Rightarrow> pystr list res" where
  "checked_include_set paths = (let s = sort paths in
     if list_all (\<lambda>p. list_all (\<lambda>a. a \<notin> set s) (ancestors p)) s then Inr s
     else Inl (AdmissionError ''source view include paths must not overlap''))"

definition normalized_include_paths :: "pyval \<Rightarrow> pystr list res" where
  "normalized_include_paths v =
     bindE (seqE
       [guardE (is_List v \<and> the_List v \<noteq> []) (AdmissionError ''source view includePaths must be a nonempty array''),
        guardE (length (the_List v) \<le> max_include_paths)
          (AdmissionError ''source view includePaths exceeds the path count limit'')]) (\<lambda>_.
     bindE (mapE checked_include_path (the_List v)) (\<lambda>paths.
     bindE (guardE (sum_list (map utf8_size paths) \<le> max_selector_bytes)
       (AdmissionError ''source view includePaths exceeds the selector byte limit'')) (\<lambda>_.
     bindE (checked_include_set paths) (\<lambda>normalized.
     retE [guardE (no_dups normalized \<and> length normalized = length paths)
       (AdmissionError ''source view includePaths must not contain duplicates'')] normalized))))"

definition selector_sha256 :: "pystr list \<Rightarrow> pystr res" where
  "selector_sha256 paths =
     (case utf8 (json_dumps (PDict [(lit ''includePaths'', PList (map PStr paths))])) of
        None \<Rightarrow> Inl PyUnicodeError
      | Some canonical \<Rightarrow> Inr (sha256_hex (selector_domain @ [0] @ canonical)))"

definition checked_workspace_root :: "host \<Rightarrow> pyval \<Rightarrow> (path \<times> nat \<times> nat) res" where
  "checked_workspace_root h v =
     bindE (guardE (is_Str v \<and> the_Str v \<noteq> [] \<and> 0 \<notin> set (the_Str v) \<and> startswith (the_Str v) [slash])
       (AdmissionError ''source view workspaceRoot must be an absolute directory path'')) (\<lambda>_.
     bindE (checked_directory h (the_Str v)) (\<lambda>path.
     bindE (except_os_unicode ''source view workspaceRoot is unavailable'' (os_lstat h path)) (\<lambda>info.
     retE
       [guardE (\<not> s_islnk info \<and> s_isdir info) (AdmissionError ''source view workspaceRoot must be an ordinary directory''),
        guardE (st_uid info = geteuid h) (AdmissionError ''source view workspaceRoot must be owned by the supervisor''),
        guardE (st_perm info = supervisor_directory_mode) (AdmissionError ''source view workspaceRoot must be mode 0700'')]
       (path, st_dev info, st_ino info))))"

definition recheck_workspace_root :: "host \<Rightarrow> path \<Rightarrow> nat \<times> nat \<Rightarrow> unit res" where
  "recheck_workspace_root h path identity =
     (let e = ''source view workspaceRoot changed during materialization'' in
      bindE (except_os_unicode e (os_lstat h path)) (\<lambda>info.
      guardE (\<not> s_islnk info \<and> s_isdir info \<and> (st_dev info, st_ino info) = identity \<and> st_uid info = geteuid h \<and>
              st_perm info = supervisor_directory_mode) (AdmissionError e)))"

record source_view_policy =
  sv_schema :: string
  sv_workspace_root :: path
  sv_workspace_identity :: "nat \<times> nat"
  sv_include_paths :: "pystr list"
  sv_selector_sha256 :: pystr

definition source_view_parse :: "host \<Rightarrow> pyval \<Rightarrow> source_view_policy res" where
  "source_view_parse h v =
     bindE (seqE
       [guardE (is_Dict v \<and> set (keys v) = names [''schema'', ''workspaceRoot'', ''includePaths''])
          (AdmissionError ''source view fields do not match the frozen schema''),
        guardE (fld v ''schema'' = pyl source_view_schema) (AdmissionError ''source view schema is not approved'')]) (\<lambda>_.
     bindE (normalized_include_paths (fld v ''includePaths'')) (\<lambda>paths.
     bindE (checked_workspace_root h (fld v ''workspaceRoot'')) (\<lambda>(root, identity).
     bindE (selector_sha256 paths) (\<lambda>digest.
     Inr \<lparr>sv_schema = source_view_schema, sv_workspace_root = root, sv_workspace_identity = identity,
          sv_include_paths = paths, sv_selector_sha256 = digest\<rparr>))))"

text \<open>
  \<^verbatim>\<open>validated\<close> repeats the checks on a policy object; the type tests on its fields hold by the record's
  types.
\<close>

definition source_view_validated :: "host \<Rightarrow> source_view_policy \<Rightarrow> source_view_policy res" where
  "source_view_validated h p =
     bindE (guardE (sv_schema p = source_view_schema) (AdmissionError ''source view policy is not a validated selector'')) (\<lambda>_.
     bindE (mapE checked_include_path (map PStr (sv_include_paths p))) (\<lambda>_.
     bindE (checked_include_set (sv_include_paths p)) (\<lambda>checked.
     bindE (guardE (checked = sv_include_paths p)
       (AdmissionError ''source view include paths must be sorted and unique'')) (\<lambda>_.
     bindE (selector_sha256 checked) (\<lambda>digest.
     bindE (guardE (sv_selector_sha256 p = digest) (AdmissionError ''source view selector digest is inconsistent'')) (\<lambda>_.
     bindE (recheck_workspace_root h (sv_workspace_root p) (sv_workspace_identity p)) (\<lambda>_. Inr p)))))))"

section \<open>Include sets\<close>

lemma pjoin_append: "xs \<noteq> [] \<Longrightarrow> ys \<noteq> [] \<Longrightarrow> pjoin c (xs @ ys) = pjoin c xs @ c # pjoin c ys"
proof (induction xs)
  case (Cons x xs)
  then show ?case by (cases xs; cases ys) auto
qed simp

lemma take_pjoin:
  assumes "0 < i" "i < length ps"
  shows "pjoin c ps = pjoin c (take i ps) @ c # pjoin c (drop i ps)"
proof -
  have "take i ps \<noteq> []" "drop i ps \<noteq> []" using assms by auto
  from pjoin_append [OF this, of c] show ?thesis by simp
qed

lemma ancestors_iff: "a \<in> set (ancestors p) \<longleftrightarrow> (\<exists>t. p = a @ slash # t)"
proof
  assume "a \<in> set (ancestors p)"
  then obtain i where i: "1 \<le> i" "i < length (psplit slash p)" "a = pjoin slash (take i (psplit slash p))"
    by (auto simp: ancestors_def Let_def)
  have "p = a @ slash # pjoin slash (drop i (psplit slash p))"
    using take_pjoin [of i "psplit slash p" slash] i by simp
  then show "\<exists>t. p = a @ slash # t" ..
next
  have split: "psplit slash (a @ slash # t) = psplit slash a @ psplit slash t" for t
    by (induction a) (auto split: list.splits)
  assume "\<exists>t. p = a @ slash # t"
  then obtain t where p: "p = a @ slash # t" ..
  have "take (length (psplit slash a)) (psplit slash p) = psplit slash a" unfolding p split by simp
  moreover have "1 \<le> length (psplit slash a)" "length (psplit slash a) < length (psplit slash p)"
    unfolding p split by (simp_all add: Suc_le_eq)
  ultimately show "a \<in> set (ancestors p)"
    by (auto simp: ancestors_def Let_def image_iff intro!: bexI [of _ "length (psplit slash a)"])
qed

text \<open>Two selected paths are independent: neither is the other nor lies below it.\<close>

definition independent_paths :: "pystr list \<Rightarrow> bool" where
  "independent_paths ps \<longleftrightarrow> distinct ps \<and> (\<forall>p \<in> set ps. \<forall>q \<in> set ps. \<not> startswith p (q @ [slash]))"

lemma checked_include_set_Inr:
  "checked_include_set ps = Inr qs \<longleftrightarrow> qs = sort ps \<and> (\<forall>p \<in> set ps. \<forall>q \<in> set ps. \<not> startswith p (q @ [slash]))"
proof -
  have "list_all (\<lambda>a. a \<notin> set s) (ancestors p) \<longleftrightarrow> (\<forall>q \<in> set s. \<not> startswith p (q @ [slash]))" for p s
    by (auto simp: list_all_iff ancestors_iff startswith_iff)
  then show ?thesis
    by (auto simp: checked_include_set_def Let_def list_all_iff)
qed

lemma checked_include_path_Inr:
  "checked_include_path v = Inr s \<longleftrightarrow> v = PStr s \<and> encodable s \<and> 0 \<notin> set s \<and> utf8_size s \<le> max_relative_path_bytes \<and>
     \<not> pp_absolute s \<and> lit ''..'' \<notin> set (pp_parts s) \<and> pp_str s = s \<and> s \<noteq> [] \<and> s \<noteq> lit ''.''"
  by (auto simp: checked_include_path_def Let_def utf8_len_eq split: pyval.splits)

lemma mapE_PStr:
  assumes "mapE checked_include_path vs = Inr ps"
  shows "vs = map PStr ps" "\<forall>p \<in> set ps. checked_include_path (PStr p) = Inr p"
proof -
  have step: "checked_include_path v = Inr p \<Longrightarrow> v = PStr p" for v p by (simp add: checked_include_path_Inr)
  show "vs = map PStr ps" using assms
    by (induction vs arbitrary: ps) (auto simp: bindE_eq_Inr dest: step)
  then show "\<forall>p \<in> set ps. checked_include_path (PStr p) = Inr p"
    using assms by (induction ps arbitrary: vs) (auto simp: bindE_eq_Inr)
qed

lemma mapE_refl: "\<forall>p \<in> set ps. checked_include_path (PStr p) = Inr p \<Longrightarrow> mapE checked_include_path (map PStr ps) = Inr ps"
  by (induction ps) auto

lemma source_view_parse_Inr:
  assumes "source_view_parse h v = Inr p"
  obtains paths where "normalized_include_paths (fld v ''includePaths'') = Inr paths" "sv_include_paths p = paths"
    "checked_workspace_root h (fld v ''workspaceRoot'') = Inr (sv_workspace_root p, sv_workspace_identity p)"
    "selector_sha256 paths = Inr (sv_selector_sha256 p)" "sv_schema p = source_view_schema"
  using assms by (auto simp: source_view_parse_def bindE_eq_Inr split: prod.splits)

lemma normalized_include_paths_Inr:
  assumes "normalized_include_paths v = Inr qs"
  obtains ps where "v = PList (map PStr ps)" "ps \<noteq> []" "length ps \<le> max_include_paths" "qs = sort ps"
    "\<forall>p \<in> set ps. checked_include_path (PStr p) = Inr p" "independent_paths qs"
    "sum_list (map utf8_size ps) \<le> max_selector_bytes"
proof -
  from assms obtain ps where v: "is_List v" "the_List v \<noteq> []" "length (the_List v) \<le> max_include_paths"
    and ps: "mapE checked_include_path (the_List v) = Inr ps" and sz: "sum_list (map utf8_size ps) \<le> max_selector_bytes"
    and qs: "checked_include_set ps = Inr qs" "distinct qs"
    by (auto simp: normalized_include_paths_def bindE_eq_Inr)
  have l: "the_List v = map PStr ps" using mapE_PStr(1) [OF ps] .
  show ?thesis
  proof (rule that)
    show "v = PList (map PStr ps)" using v(1) l by (cases v) auto
    show "ps \<noteq> []" "length ps \<le> max_include_paths" using v(2,3) l by auto
    show "\<forall>p \<in> set ps. checked_include_path (PStr p) = Inr p" using mapE_PStr(2) [OF ps] .
    show "qs = sort ps" "independent_paths qs" using qs by (auto simp: checked_include_set_Inr independent_paths_def)
  qed (fact sz)
qed

lemma selector_sha256_hex: "selector_sha256 ps = Inr d \<Longrightarrow> \<exists>x. d = sha256_hex x"
  unfolding selector_sha256_def by (cases "utf8 (json_dumps (PDict [(lit ''includePaths'', PList (map PStr ps))]))") auto

text \<open>C32 A source-view policy that parses selects a sorted, duplicate-free list of canonical relative paths
  none of which contains another, within the path-count and byte limits, pinned to a workspace directory
  that is owned by the supervisor with mode 0700; and the parsed policy passes its own re-validation on
  the same host.\<close>

theorem source_view_parse_validated:
  assumes "source_view_parse h v = Inr p"
  shows "sorted (sv_include_paths p) \<and> independent_paths (sv_include_paths p) \<and> sv_include_paths p \<noteq> [] \<and>
    length (sv_include_paths p) \<le> 1024 \<and> sum_list (map utf8_size (sv_include_paths p)) \<le> 65535 \<and>
    mset (map PStr (sv_include_paths p)) = mset (the_List (fld v ''includePaths'')) \<and>
    (\<forall>q \<in> set (sv_include_paths p). \<not> pp_absolute q \<and> list_all plain_component (psplit slash q)) \<and>
    re_hex 64 (sv_selector_sha256 p) \<and>
    (\<exists>i. os_lstat h (sv_workspace_root p) = Inr i \<and> s_isdir i \<and> st_uid i = geteuid h \<and> st_perm i = 448) \<and>
    source_view_validated h p = Inr p"
proof -
  obtain paths where p: "normalized_include_paths (fld v ''includePaths'') = Inr paths" "sv_include_paths p = paths"
    "checked_workspace_root h (fld v ''workspaceRoot'') = Inr (sv_workspace_root p, sv_workspace_identity p)"
    "selector_sha256 paths = Inr (sv_selector_sha256 p)" "sv_schema p = source_view_schema"
    using assms by (rule source_view_parse_Inr)
  obtain ps where ps: "fld v ''includePaths'' = PList (map PStr ps)" "ps \<noteq> []" "length ps \<le> max_include_paths" "paths = sort ps"
    "\<forall>p \<in> set ps. checked_include_path (PStr p) = Inr p" "independent_paths paths"
    "sum_list (map utf8_size ps) \<le> max_selector_bytes"
    using p(1) by (rule normalized_include_paths_Inr)
  obtain i where i: "os_lstat h (sv_workspace_root p) = Inr i" "s_isdir i" "st_uid i = geteuid h"
    "st_perm i = supervisor_directory_mode" "sv_workspace_identity p = (st_dev i, st_ino i)"
    using p(3) by (auto simp: checked_workspace_root_def bindE_eq_Inr)
  have canon: "\<not> pp_absolute q \<and> list_all plain_component (psplit slash q)" if "q \<in> set ps" for q
  proof -
    have q: "\<not> pp_absolute q" "lit ''..'' \<notin> set (pp_parts q)" "pp_str q = q" "q \<noteq> lit ''.''"
      using ps(5) that by (auto simp: checked_include_path_Inr)
    have "\<not> startswith q [slash]" using q(1) by (simp add: pp_absolute_iff)
    then have all: "\<forall>c \<in> set (psplit slash q). c \<noteq> [] \<and> c \<noteq> lit ''.''"
      using pp_relative_canonical [of q] q by simp
    then have "pp_parts q = psplit slash q"
      using q(1) by (simp add: pp_parts_def pp_tail_def pp_absolute_def filter_id_conv)
    then show ?thesis using q all
      by (auto simp: list_all_iff plain_component_def dest: psplit_sep_free)
  qed
  have sizes: "sum_list (map utf8_size paths) = sum_list (map utf8_size ps)"
    unfolding ps(4) by (metis mset_map mset_sort sum_mset_sum_list)
  have "checked_include_set paths = Inr paths"
    using ps(6) by (simp add: checked_include_set_Inr independent_paths_def ps(4) sorted_sort_id)
  then have "source_view_validated h p = Inr p"
    using p(2,4,5) ps(4,5) i mapE_refl [of paths]
    by (simp add: source_view_validated_def recheck_workspace_root_def except_os_unicode_def)
  moreover obtain x where "sv_selector_sha256 p = sha256_hex x"
    using selector_sha256_hex [OF p(4)] by blast
  moreover have "sort ps \<noteq> []" using ps(2) by (metis length_0_conv length_sort)
  ultimately show ?thesis
    using p(2) ps i canon sizes
    by (simp add: max_include_paths_def max_selector_bytes_def supervisor_directory_mode_def)
qed

definition sample_view :: pyval where
  "sample_view = PDict [(lit ''schema'', pyl source_view_schema), (lit ''workspaceRoot'', pyl ''/srv/views''),
     (lit ''includePaths'', PList [pyl ''src/b'', pyl ''docs''])]"

theorem source_view_parse_validated_witness:
  "\<exists>p. source_view_parse all_dirs sample_view = Inr p \<and> sv_include_paths p = [lit ''docs'', lit ''src/b''] \<and>
     source_view_validated all_dirs p = Inr p"
proof -
  let ?ps = "[lit ''docs'', lit ''src/b'']" and ?r = "[[slash], lit ''srv'', lit ''views'']"
  have f: "is_Dict sample_view" "set (keys sample_view) = names [''schema'', ''workspaceRoot'', ''includePaths'']"
    "fld sample_view ''schema'' = pyl source_view_schema"
    "normalized_include_paths (fld sample_view ''includePaths'') = Inr ?ps"
    "checked_workspace_root all_dirs (fld sample_view ''workspaceRoot'') = Inr (?r, 1, 2)"
    "utf8 (json_dumps (PDict [(lit ''includePaths'', PList (map PStr ?ps))])) \<noteq> None"
    by code_simp+
  then obtain d where "selector_sha256 ?ps = Inr d" by (auto simp: selector_sha256_def)
  with f have ok: "source_view_parse all_dirs sample_view = Inr \<lparr>sv_schema = source_view_schema, sv_workspace_root = ?r,
      sv_workspace_identity = (1, 2), sv_include_paths = ?ps, sv_selector_sha256 = d\<rparr>"
    by (simp add: source_view_parse_def)
  from source_view_parse_validated [OF ok] ok show ?thesis by simp
qed

end
