(* ===== verification/JsonRoundTrip.thy ===== *)
theory JsonRoundTrip
  imports JsonText
begin

text \<open>
  What is printed reads back.  \<open>jchars_print\<close> and \<open>print_int_scan\<close> treat strings and numbers; the
  locale \<open>json_codec\<close> states what a codec's hooks must do for its texts to round-trip and derives
  the round trip of whole values, with the fuel and the nesting they need.
\<close>

section \<open>Printing and reading back\<close>

lemma hexval_hexdig: "d < 16 \<Longrightarrow> hexval (hexdig d) = Some d"
  by (auto simp: hexval_def hexdig_def is_digit_def)

lemma jchars_print_char: "jchars (jprint_char c @ s) = consR c (jchars s)"
proof -
  consider "c \<in> {34, 92, 8, 12, 10, 13, 9}" | "c \<notin> {34, 92, 8, 12, 10, 13, 9}" "c < 32"
    | "c \<notin> {34, 92}" "32 \<le> c"
    by fastforce
  then show ?thesis
  proof cases
    case 1
    then show ?thesis by (auto simp: jprint_char_def jescape_def)
  next
    case 2
    have "hex4 (48 # 48 # hexdig (c div 16) # hexdig (c mod 16) # s) = Some (c, s)"
    proof -
      have "hexval 48 = Some 0" by (simp add: hexval_def is_digit_def)
      moreover have "c div 16 < 16" using 2 by auto
      ultimately show ?thesis by (simp add: hexval_hexdig)
    qed
    with 2 show ?thesis by (simp add: jprint_char_def)
  next
    case 3
    then show ?thesis by (simp add: jprint_char_def)
  qed
qed

lemma jchars_print: "jchars (concat (map jprint_char x) @ 34 # s) = Inr (x, s)"
  by (induction x) (simp_all add: jchars_print_char consR_def)

lemma print_nat_digits: "list_all is_digit (print_nat n)"
proof (induction n rule: print_nat.induct)
  case (1 n)
  have "is_digit (48 + n mod 10)" "n < 10 \<Longrightarrow> is_digit (48 + n)" by (auto simp: is_digit_def)
  with 1 show ?case by (subst print_nat.simps) auto
qed

lemma print_nat_not_Nil [simp]: "print_nat n \<noteq> []"
  by (subst print_nat.simps) simp

lemma print_nat_hd_0: "hd (print_nat n) = 48 \<longleftrightarrow> n = 0"
proof (induction n rule: print_nat.induct)
  case (1 n)
  show ?case
  proof (cases "n < 10")
    case True
    then show ?thesis by (simp add: print_nat.simps [of n])
  next
    case False
    then have "hd (print_nat n) = hd (print_nat (n div 10))"
      by (simp add: print_nat.simps [of n])
    with 1 False show ?thesis by auto
  qed
qed

definition jdelim :: "pystr \<Rightarrow> bool" where
  "jdelim r \<longleftrightarrow> (case r of [] \<Rightarrow> True | c # _ \<Rightarrow> c = 44 \<or> c = 93 \<or> c = 125 \<or> c = 10)"

lemma jdelim_digits:
  "list_all is_digit ds \<Longrightarrow> jdelim r \<Longrightarrow> jdigits (ds @ r) = (ds, r)"
  by (induction ds) (auto simp: jdigits_def jdelim_def is_digit_def split: list.splits)

lemma jdelim_frac_exp: "jdelim r \<Longrightarrow> jfrac r = ([], r) \<and> jexp r = ([], r)"
  by (auto simp: jfrac_def jexp_def jdelim_def split: list.splits prod.splits)

lemma jnumber_print_nat:
  assumes "jdelim r" "sg = [] \<or> sg = [45]"
  shows "jnumber (sg @ print_nat n @ r) = Some (False, sg @ print_nat n, r)"
proof -
  obtain c ds where p: "print_nat n = c # ds" by (cases "print_nat n") auto
  have c: "is_digit c" using print_nat_digits [of n] p by simp
  show ?thesis
  proof (cases "n = 0")
    case True
    then have "print_nat n = [48]" by (simp add: print_nat.simps)
    with assms show ?thesis
      by (auto simp: jnumber_def Let_def jdelim_frac_exp)
  next
    case False
    then have "c \<noteq> 48" using print_nat_hd_0 [of n] p by simp
    moreover have "jdigits (c # ds @ r) = (c # ds, r)"
      using jdelim_digits [of "print_nat n" r] print_nat_digits [of n] assms p by simp
    ultimately show ?thesis
      using assms c p by (auto simp: jnumber_def Let_def jdelim_frac_exp is_digit_def)
  qed
qed

lemma jword_digit: "is_digit c \<Longrightarrow> jword (c # s) = None" "is_digit c \<Longrightarrow> jword (45 # c # s) = None"
  by (auto simp: jword_def startswith_def lit_def is_digit_def)

lemma print_int_scan:
  assumes "jdelim r"
  shows "jword (print_int i @ r) = None \<and> jnumber (print_int i @ r) = Some (False, print_int i, r)"
proof -
  obtain c ds where p: "print_nat (nat \<bar>i\<bar>) = c # ds" by (cases "print_nat (nat \<bar>i\<bar>)") auto
  then have c: "is_digit c" using print_nat_digits [of "nat \<bar>i\<bar>"] by simp
  show ?thesis
  proof (cases "i < 0")
    case True
    then show ?thesis
      using jnumber_print_nat [OF assms, of "[45]" "nat \<bar>i\<bar>"] p c
      by (simp add: print_int_def jword_digit)
  next
    case False
    then show ?thesis
      using jnumber_print_nat [OF assms, of "[]" "nat \<bar>i\<bar>"] p c
      by (simp add: print_int_def jword_digit)
  qed
qed

lemma print_int_hd: "hd (print_int i) = 45 \<or> is_digit (hd (print_int i))" "print_int i \<noteq> []"
proof -
  have "is_digit (hd (print_nat n))" for n
    using print_nat_digits [of n] by (cases "print_nat n") auto
  then show "hd (print_int i) = 45 \<or> is_digit (hd (print_int i))" by (simp add: print_int_def)
qed (simp add: print_int_def)

text \<open>Nesting of a value, and the values whose text reads back: no floats, admissible integers.\<close>

fun jdepth :: "pyval \<Rightarrow> nat" where
  "jdepth (PList xs) = Suc (maxl (map jdepth xs))"
| "jdepth (PDict d) = Suc (maxl (map (\<lambda>kv. jdepth (snd kv)) d))"
| "jdepth _ = 0"

fun jprintable :: "(int \<Rightarrow> bool) \<Rightarrow> pyval \<Rightarrow> bool" where
  "jprintable ok (PInt i) = ok i"
| "jprintable ok (PFloat t) = False"
| "jprintable ok (PList xs) = (\<forall>x \<in> set xs. jprintable ok x)"
| "jprintable ok (PDict d) = (distinct (map fst d) \<and> (\<forall>kv \<in> set d. jprintable ok (snd kv)))"
| "jprintable ok _ = True"

text \<open>All strings of a value, keys included, consist of characters that satisfy \<open>chr\<close>.\<close>

fun jstrings :: "(nat \<Rightarrow> bool) \<Rightarrow> pyval \<Rightarrow> bool" where
  "jstrings chr (PStr s) = list_all chr s"
| "jstrings chr (PList xs) = (\<forall>x \<in> set xs. jstrings chr x)"
| "jstrings chr (PDict d) = (\<forall>kv \<in> set d. list_all chr (fst kv) \<and> jstrings chr (snd kv))"
| "jstrings chr _ = True"

lemma jstrings_True [simp]: "jstrings (\<lambda>_. True) v"
  by (induction v rule: pyval_induct) (auto simp: list_all_iff)

lemma json_dumps_hd:
  assumes "\<not> is_Float v"
  shows "json_print pc v \<noteq> [] \<and> hd (json_print pc v) \<notin> {32, 9, 10, 13, 93, 125, 65279}"
  using assms print_int_hd [of "the_Int v"]
  by (cases v) (auto simp: lit_def jprint_with_def is_digit_def)

lemma skip_ws_id: "s \<noteq> [] \<Longrightarrow> hd s \<notin> {32, 9, 10, 13} \<Longrightarrow> skip_ws s = s"
  by (cases s) auto

lemma skip_ws_dumps: "\<not> is_Float v \<Longrightarrow> skip_ws (json_print pc v @ r) = json_print pc v @ r"
  using json_dumps_hd [of v] by (intro skip_ws_id) auto

lemma skip_ws_str [simp]: "skip_ws (jprint_with pc k @ r) = jprint_with pc k @ r"
  by (simp add: jprint_with_def)

lemma jdelim_simps [simp]: "jdelim []" "jdelim (10 # r)" "jdelim (44 # r)" "jdelim (93 # r)" "jdelim (125 # r)"
  by (simp_all add: jdelim_def)

lemma skip_ws_simps [simp]:
  "skip_ws (44 # r) = 44 # r" "skip_ws (93 # r) = 93 # r" "skip_ws (125 # r) = 125 # r"
  "skip_ws (58 # r) = 58 # r"
  by simp_all

locale json_codec =
  fixes num :: "bool \<Rightarrow> pystr \<Rightarrow> pyval res"
    and const :: "string \<Rightarrow> pyval res"
    and pairs :: "(pystr \<times> pyval) list \<Rightarrow> pyval res"
    and ok :: "int \<Rightarrow> bool"
    and pc :: "nat \<Rightarrow> pystr"
    and chr :: "nat \<Rightarrow> bool"
  assumes print_char: "chr c \<Longrightarrow> jchars (pc c @ s) = consR c (jchars s)"
    and num_int: "ok i \<Longrightarrow> num False (print_int i) = Inr (PInt i)"
    and pairs_distinct: "distinct (map fst kvs) \<Longrightarrow> pairs kvs = Inr (PDict kvs)"
    and num_fuel: "num fl t \<noteq> Inl OutOfFuel"
    and const_fuel: "const w \<noteq> Inl OutOfFuel"
    and pairs_fuel: "pairs kvs \<noteq> Inl OutOfFuel"
begin

lemma jchars_spelled: "list_all chr x \<Longrightarrow> jchars (concat (map pc x) @ 34 # s) = Inr (x, s)"
  by (induction x) (simp_all add: print_char consR_def)

definition reads_back :: "pyval \<Rightarrow> bool" where
  "reads_back v \<longleftrightarrow> (\<forall>n lim r. jdelim r \<longrightarrow> 2 * length (json_print pc v) + 1 \<le> n \<longrightarrow> jdepth v \<le> lim \<longrightarrow>
     jvalue num const pairs n lim (json_print pc v @ r) = Inr (v, r))"

lemma reads_backD:
  "reads_back v \<Longrightarrow> jdelim r \<Longrightarrow> 2 * length (json_print pc v) + 1 \<le> n \<Longrightarrow> jdepth v \<le> lim \<Longrightarrow>
     jvalue num const pairs n lim (json_print pc v @ r) = Inr (v, r)"
  by (simp add: reads_back_def)

lemma reads_backI:
  assumes "\<And>m lim r. jdelim r \<Longrightarrow> 2 * length (json_print pc v) \<le> m \<Longrightarrow> jdepth v \<le> lim \<Longrightarrow>
     jvalue num const pairs (Suc m) lim (json_print pc v @ r) = Inr (v, r)"
  shows "reads_back v"
  unfolding reads_back_def
proof (intro allI impI)
  fix n lim r
  assume "jdelim r" "2 * length (json_print pc v) + 1 \<le> n" "jdepth v \<le> lim"
  then show "jvalue num const pairs n lim (json_print pc v @ r) = Inr (v, r)"
    using assms [of r "n - 1" lim] by (cases n) auto
qed

lemma items_read_back:
  assumes "xs \<noteq> []" "\<forall>x \<in> set xs. reads_back x \<and> \<not> is_Float x \<and> jdepth x \<le> lim"
    "2 * length (pjoin 44 (map (json_print pc) xs)) + 2 \<le> n"
  shows "jitems num const pairs n lim (pjoin 44 (map (json_print pc) xs) @ 93 # r) = Inr (xs, r)"
  using assms
proof (induction xs arbitrary: n)
  case (Cons x xs)
  then obtain m where n: "n = Suc m" by (cases n) auto
  show ?case
  proof (cases xs)
    case Nil
    then show ?thesis using Cons.prems reads_backD [of x "93 # r" m lim] by (simp add: n)
  next
    case (Cons y ys)
    let ?rest = "pjoin 44 (map (json_print pc) xs) @ 93 # r"
    have "jvalue num const pairs m lim (json_print pc x @ 44 # ?rest) = Inr (x, 44 # ?rest)"
      using Cons.prems Cons by (intro reads_backD) (auto simp: n)
    moreover have "skip_ws ?rest = ?rest"
      using Cons.prems Cons skip_ws_dumps [of y] by (cases ys) auto
    moreover have "jitems num const pairs m lim ?rest = Inr (xs, r)"
      using Cons.prems Cons by (intro Cons.IH) (auto simp: n)
    ultimately show ?thesis by (simp add: n Cons)
  qed
qed simp

lemma members_read_back:
  assumes "d \<noteq> []" "\<forall>kv \<in> set d. list_all chr (fst kv) \<and> reads_back (snd kv) \<and> \<not> is_Float (snd kv) \<and> jdepth (snd kv) \<le> lim"
    "2 * length (pjoin 44 (map (\<lambda>(k, v). jprint_with pc k @ [58] @ json_print pc v) d)) + 1 \<le> n"
  shows "jmembers num const pairs n lim
      (pjoin 44 (map (\<lambda>(k, v). jprint_with pc k @ [58] @ json_print pc v) d) @ 125 # r) = Inr (d, r)"
  using assms
proof (induction d arbitrary: n)
  case (Cons kv d)
  obtain k v where kv: "kv = (k, v)" by (cases kv)
  from Cons obtain m where n: "n = Suc m" by (cases n) auto
  have v: "\<not> is_Float v" "reads_back v" "jdepth v \<le> lim" "list_all chr k" using Cons.prems kv by auto
  show ?case
  proof (cases d)
    case Nil
    then show ?thesis
      using Cons.prems v reads_backD [of v "125 # r" m lim]
      by (simp add: n kv jprint_with_def jchars_spelled skip_ws_dumps)
  next
    case (Cons kv' d')
    obtain k' v' where kv': "kv' = (k', v')" by (cases kv')
    let ?rest = "pjoin 44 (map (\<lambda>(k, v). jprint_with pc k @ [58] @ json_print pc v) d) @ 125 # r"
    have "jvalue num const pairs m lim (json_print pc v @ 44 # ?rest) = Inr (v, 44 # ?rest)"
      using Cons.prems Cons v by (intro reads_backD) (auto simp: n kv)
    moreover have "skip_ws ?rest = ?rest"
      using Cons kv' by (cases d') auto
    moreover have "jmembers num const pairs m lim ?rest = Inr (d, r)"
      using Cons.prems Cons by (intro Cons.IH) (auto simp: n kv)
    ultimately show ?thesis
      using v by (simp add: n kv Cons jprint_with_def jchars_spelled skip_ws_dumps)
  qed
qed simp

lemma list_reads_back:
  assumes "\<forall>x \<in> set xs. reads_back x \<and> \<not> is_Float x"
  shows "reads_back (PList xs)"
proof (rule reads_backI)
  fix m lim r
  assume r: "jdelim r" and m: "2 * length (json_print pc (PList xs)) \<le> m" and "jdepth (PList xs) \<le> lim"
  then obtain lim' where lim: "lim = Suc lim'" and d: "\<forall>x \<in> set xs. jdepth x \<le> lim'"
    by (cases lim) (auto simp: maxl_le_iff)
  show "jvalue num const pairs (Suc m) lim (json_print pc (PList xs) @ r) = Inr (PList xs, r)"
  proof (cases xs)
    case (Cons y ys)
    let ?t = "pjoin 44 (map (json_print pc) xs) @ 93 # r"
    have y: "json_print pc y \<noteq> []" "hd (json_print pc y) \<notin> {32, 9, 10, 13, 93, 125, 65279}"
      using assms Cons json_dumps_hd [of y pc] by auto
    then obtain c t where t: "?t = c # t" and c: "c \<notin> {32, 9, 10, 13, 93}"
      using Cons by (cases "json_print pc y"; cases ys) auto
    have "jitems num const pairs m lim' ?t = Inr (xs, r)"
      using assms d m Cons by (intro items_read_back) auto
    with t c lim show ?thesis by simp
  qed (simp add: lim)
qed

lemma dict_reads_back:
  assumes "\<forall>kv \<in> set d. list_all chr (fst kv) \<and> reads_back (snd kv) \<and> \<not> is_Float (snd kv)" "distinct (map fst d)"
  shows "reads_back (PDict d)"
proof (rule reads_backI)
  fix m lim r
  assume r: "jdelim r" and m: "2 * length (json_print pc (PDict d)) \<le> m" and "jdepth (PDict d) \<le> lim"
  then obtain lim' where lim: "lim = Suc lim'" and dd: "\<forall>kv \<in> set d. jdepth (snd kv) \<le> lim'"
    by (cases lim) (auto simp: maxl_le_iff)
  show "jvalue num const pairs (Suc m) lim (json_print pc (PDict d) @ r) = Inr (PDict d, r)"
  proof (cases d)
    case Nil
    then show ?thesis using pairs_distinct [of "[]"] by (simp add: lim)
  next
    case (Cons kv d')
    let ?t = "pjoin 44 (map (\<lambda>(k, v). jprint_with pc k @ [58] @ json_print pc v) d) @ 125 # r"
    obtain t where t: "?t = 34 # t"
      using Cons by (cases kv; cases d') (auto simp: jprint_with_def)
    have "jmembers num const pairs m lim' ?t = Inr (d, r)"
      using assms dd m Cons by (intro members_read_back) auto
    with t lim show ?thesis using pairs_distinct [OF assms(2)] by simp
  qed
qed

lemma int_reads_back:
  assumes "ok i"
  shows "reads_back (PInt i)"
proof (rule reads_backI)
  fix m lim r
  assume "jdelim r"
  then show "jvalue num const pairs (Suc m) lim (json_print pc (PInt i) @ r) = Inr (PInt i, r)"
    using print_int_scan [of r i] print_int_hd [of i] num_int [OF assms]
    by (cases "print_int i") (auto simp: is_digit_def)
qed

lemma printable_reads_back: "jprintable ok v \<Longrightarrow> jstrings chr v \<Longrightarrow> reads_back v"
proof (induction v)
  case PNone
  show ?case by (rule reads_backI) (simp add: lit_def jword_def startswith_def)
next
  case (PBool b)
  show ?case by (rule reads_backI) (simp add: lit_def jword_def startswith_def)
next
  case (PInt i)
  then show ?case by (simp add: int_reads_back)
next
  case (PStr s)
  then have s: "list_all chr s" by simp
  show ?case by (rule reads_backI) (simp add: jprint_with_def jchars_spelled [OF s])
next
  case (PList xs)
  then have "\<not> is_Float x" if "x \<in> set xs" for x using that by (cases x) auto
  with PList show ?case by (intro list_reads_back) auto
next
  case (PDict d)
  then have "\<not> is_Float (snd kv)" if "kv \<in> set d" for kv using that by (cases "snd kv") auto
  with PDict show ?case by (intro dict_reads_back) (auto simp: snds.simps)
qed simp

lemma loads_dumps_line:
  assumes "jprintable ok v" "jstrings chr v" "jdepth v \<le> lim" "r = [] \<or> r = [10]"
  shows "json_loads num const pairs lim (json_print pc v @ r) = Inr v"
proof -
  let ?n = "2 * length (json_print pc v @ r) + 2"
  have f: "\<not> is_Float v" using assms by (cases v) auto
  then have bom: "\<not> startswith (json_print pc v @ r) [65279]"
    using json_dumps_hd [of v pc] by (cases "json_print pc v") (auto simp: startswith_def)
  have "jvalue num const pairs ?n lim (json_print pc v @ r) = Inr (v, r)"
    using reads_backD [OF printable_reads_back [OF assms(1,2)], of r ?n lim] assms(3,4)
    by (auto simp del: jvalue.simps)
  with bom show ?thesis using skip_ws_dumps [OF f, of pc r] assms(4) by (auto simp: json_loads_def)
qed

lemma loads_dumps:
  assumes "jprintable ok v" "jstrings chr v" "jdepth v \<le> lim"
  shows "json_loads num const pairs lim (json_print pc v) = Inr v"
  using loads_dumps_line [OF assms, of "[]"] by simp

lemma loads_total: "json_loads num const pairs lim s \<noteq> Inl OutOfFuel"
  by (rule json_loads_fuel [OF num_fuel const_fuel pairs_fuel])

end

end
