(* ===== verification/JsonNumber.thy ===== *)
theory JsonNumber
  imports JsonBounds
begin

text \<open>
  \<^verbatim>\<open>Decimal(token)\<close> on the number tokens of the JSON scanner: sign, coefficient and exponent, the
  exponent range of the C implementation outside which the constructor raises, and the integer a
  decimal stands for when it is integral.  \<open>decimal_print_int\<close> shows that a printed integer is read
  as itself.
\<close>

definition digits_val :: "pystr \<Rightarrow> nat" where
  "digits_val ds = foldl (\<lambda>a c. a * 10 + (c - 48)) 0 ds"

record decimal =
  dec_neg :: bool
  dec_coeff :: nat
  dec_exp :: int

definition decimal_of :: "pystr \<Rightarrow> decimal" where
  "decimal_of tok =
     (let neg = (case tok of c # _ \<Rightarrow> c = 45 | [] \<Rightarrow> False);
          body = (if neg then tl tok else tok);
          (ds, r1) = jdigits body;
          (fr, r2) = (case r1 of c # r \<Rightarrow> if c = 46 then jdigits r else ([], r1) | [] \<Rightarrow> ([], []));
          ex = (case r2 of
                  c # s # r \<Rightarrow>
                    if c = 101 \<or> c = 69 then
                      (if s = 45 then - int (digits_val r)
                       else if s = 43 then int (digits_val r) else int (digits_val (s # r)))
                    else 0
                | _ \<Rightarrow> 0)
      in \<lparr>dec_neg = neg, dec_coeff = digits_val (ds @ fr), dec_exp = ex - int (length fr)\<rparr>)"

text \<open>The constructor is exact or raises: adjusted exponent above \<open>MAX_EMAX\<close>, exponent below \<open>MIN_ETINY\<close>.\<close>

definition decimal_raises :: "decimal \<Rightarrow> bool" where
  "decimal_raises d \<longleftrightarrow>
     dec_exp d + int (length (print_nat (dec_coeff d))) - 1 > 999999999999999999 \<or>
     dec_exp d < - 1999999999999999997"

definition decimal_int :: "decimal \<Rightarrow> int option" where
  "decimal_int d =
     (let sg = (if dec_neg d then - 1 else 1) in
      if 0 \<le> dec_exp d then Some (sg * int (dec_coeff d) * 10 ^ nat (dec_exp d))
      else if 10 ^ nat (- dec_exp d) dvd dec_coeff d
      then Some (sg * int (dec_coeff d div 10 ^ nat (- dec_exp d))) else None)"

definition max_safe_integer :: int where
  "max_safe_integer = 9007199254740991"

definition safe_int :: "int \<Rightarrow> bool" where
  "safe_int i \<longleftrightarrow> \<bar>i\<bar> \<le> max_safe_integer"

lemma digits_val_append: "digits_val (ds @ [c]) = digits_val ds * 10 + (c - 48)"
  by (simp add: digits_val_def)

lemma digits_val_print_nat [simp]: "digits_val (print_nat n) = n"
proof (induction n rule: print_nat.induct)
  case (1 n)
  show ?case
  proof (cases "n < 10")
    case True
    then show ?thesis by (simp add: print_nat.simps [of n] digits_val_def)
  next
    case False
    with 1 show ?thesis by (simp add: print_nat.simps [of n] digits_val_append)
  qed
qed

lemma jdigits_print_nat: "jdigits (print_nat n) = (print_nat n, [])"
  using jdelim_digits [of "print_nat n" "[]"] print_nat_digits [of n] by simp

lemma print_nat_not_minus: "(case print_nat n of c # _ \<Rightarrow> c = 45 | [] \<Rightarrow> False) = False"
  using print_nat_digits [of n] by (cases "print_nat n") (auto simp: is_digit_def)

lemma decimal_print_int:
  "decimal_of (print_int i) = \<lparr>dec_neg = (i < 0), dec_coeff = nat \<bar>i\<bar>, dec_exp = 0\<rparr>"
  using print_nat_not_minus [of "nat i"]
  by (simp add: decimal_of_def print_int_def Let_def jdigits_print_nat)

lemma decimal_int_print_int: "decimal_int (decimal_of (print_int i)) = Some i"
  by (simp add: decimal_print_int decimal_int_def)

lemma length_print_nat_le: "n < 10 ^ k \<Longrightarrow> 0 < k \<Longrightarrow> length (print_nat n) \<le> k"
proof (induction n arbitrary: k rule: print_nat.induct)
  case (1 n)
  show ?case
  proof (cases "n < 10")
    case True
    with 1 show ?thesis by (simp add: print_nat.simps [of n])
  next
    case False
    with 1(2,3) obtain j where k: "k = Suc j" "0 < j"
      by (cases k; cases "k - 1") auto
    have "n div 10 < 10 ^ j" using 1(2) k by (simp add: less_mult_imp_div_less mult.commute)
    with 1(1) False k show ?thesis by (simp add: print_nat.simps [of n])
  qed
qed

lemma safe_int_no_raise:
  assumes "safe_int i"
  shows "\<not> decimal_raises (decimal_of (print_int i))"
proof -
  have "nat \<bar>i\<bar> < 10 ^ 16" using assms by (simp add: safe_int_def max_safe_integer_def)
  then have "length (print_nat (nat \<bar>i\<bar>)) \<le> 16" by (rule length_print_nat_le) simp
  then show ?thesis by (simp add: decimal_print_int decimal_raises_def)
qed

end
