(* ===== verification/PortCodec.thy ===== *)
theory PortCodec
  imports JsonNumber
begin

text \<open>
  Frames of the worker port (\<^verbatim>\<open>supervisor/mirrorgate/protocol.py\<close>, up to \<^verbatim>\<open>encode_frame\<close>): the
  scalar checks, the JSON hooks, the bounds, and the frame parser and printer.  \<open>port_json\<close>
  interprets \<open>json_codec\<close> on the port's hooks; the round trip of frames and the meaning of the
  bounds rest on it and on \<open>bounds_loop_accepts\<close>.
\<close>

definition port_max_frame_bytes :: nat where "port_max_frame_bytes = 65535"
definition port_max_manifest_bytes :: nat where "port_max_manifest_bytes = 262144"
definition port_max_json_depth :: nat where "port_max_json_depth = 96"
definition port_max_nodes :: nat where "port_max_nodes = 8192"

definition port_string :: "pyval \<Rightarrow> nat option \<Rightarrow> bool \<Rightarrow> unit res" where
  "port_string v maximum nonempty =
     (case v of
        PStr s \<Rightarrow>
          (case utf8_len s of
             None \<Rightarrow> Inl (ProtocolError ''SCHEMA'' ''strings must contain Unicode scalars'')
           | Some n \<Rightarrow>
               guardE (\<not> (nonempty \<and> n = 0) \<and> (case maximum of None \<Rightarrow> True | Some m \<Rightarrow> n \<le> m))
                 (ProtocolError ''SCHEMA'' ''string length outside permitted bounds''))
      | _ \<Rightarrow> Inl (ProtocolError ''SCHEMA'' ''expected string''))"

definition port_identifier :: "pyval \<Rightarrow> unit res" where
  "port_identifier v = guardE (is_Str v \<and> re_identifier (the_Str v))
     (ProtocolError ''SCHEMA'' ''invalid public identifier'')"

definition port_digest :: "pyval \<Rightarrow> unit res" where
  "port_digest v = guardE (is_Str v \<and> re_hex 64 (the_Str v))
     (ProtocolError ''SCHEMA'' ''invalid interface digest'')"

definition port_object :: "pyval \<Rightarrow> pystr list option \<Rightarrow> string \<Rightarrow> unit res" where
  "port_object v ks code = seqE
     [guardE (is_Dict v) (ProtocolError code ''expected object''),
      case ks of None \<Rightarrow> Inr ()
      | Some ks \<Rightarrow> guardE (set (keys v) = set ks)
          (ProtocolError code ''object fields do not match contract'')]"

definition port_array :: "pyval \<Rightarrow> bool \<Rightarrow> unit res" where
  "port_array v nonempty = guardE (is_List v \<and> (nonempty \<longrightarrow> the_List v \<noteq> []))
     (ProtocolError ''SCHEMA'' (''expected array'' @ (if nonempty then '' with at least one item'' else '''')))"

definition port_leaf :: "pyval \<Rightarrow> unit res" where
  "port_leaf v = (case v of
     PStr s \<Rightarrow> port_string v None False
   | PInt i \<Rightarrow> guardE (safe_int i) (ProtocolError ''SCHEMA'' ''JSON numbers must be safe integers'')
   | PNone \<Rightarrow> Inr ()
   | PBool b \<Rightarrow> Inr ()
   | _ \<Rightarrow> Inl (ProtocolError ''SCHEMA'' ''unsupported JSON value or nonintegral number''))"

definition port_json_bounds :: "pyval \<Rightarrow> unit res" where
  "port_json_bounds v = bounds_loop port_max_json_depth port_max_nodes
     (ProtocolError ''LIMIT'' ''JSON depth or node budget exceeded'')
     (\<lambda>k. port_string (PStr k) None False) port_leaf 0 [(v, 0)]"

text \<open>\<^verbatim>\<open>_pairs\<close>: the dict grows from the left, a repeated key is an error.\<close>

fun port_pairs_from :: "(pystr \<times> pyval) list \<Rightarrow> (pystr \<times> pyval) list \<Rightarrow> pyval res" where
  "port_pairs_from result [] = Inr (PDict result)"
| "port_pairs_from result ((k, v) # items) =
     (if k \<in> set (map fst result) then Inl (ProtocolError ''FRAME'' ''duplicate JSON object key'')
      else port_pairs_from (dset result k v) items)"

definition port_pairs :: "(pystr \<times> pyval) list \<Rightarrow> pyval res" where
  "port_pairs items = port_pairs_from [] items"

definition port_invalid_constant :: "string \<Rightarrow> pyval res" where
  "port_invalid_constant w = Inl (ProtocolError ''FRAME'' ''nonfinite JSON number'')"

definition port_exact_number :: "bool \<Rightarrow> pystr \<Rightarrow> pyval res" where
  "port_exact_number fl tok =
     (let coefficient = filter (\<lambda>c. c \<noteq> 45 \<and> c \<noteq> 46) (takeWhile (\<lambda>c. c \<noteq> 101 \<and> c \<noteq> 69) tok);
          d = decimal_of tok in
      if list_all (\<lambda>c. c = 48) coefficient then Inr (PInt 0)
      else if decimal_raises d
      then Inl (ProtocolError ''SCHEMA'' ''JSON number exceeds supported bounds'')
      else (case decimal_int d of
              Some i \<Rightarrow> if safe_int i then Inr (PInt i)
                else Inl (ProtocolError ''SCHEMA'' ''JSON numbers must be exact safe integers'')
            | None \<Rightarrow> Inl (ProtocolError ''SCHEMA'' ''JSON numbers must be exact safe integers'')))"

definition port_parse_json :: "nat \<Rightarrow> bytes \<Rightarrow> pyval res" where
  "port_parse_json lim data =
     (case utf8_decode data of
        None \<Rightarrow> Inl (ProtocolError ''FRAME'' ''invalid UTF-8 JSON'')
      | Some text \<Rightarrow>
          (case json_loads port_exact_number port_invalid_constant port_pairs lim text of
             Inl (ProtocolError c m) \<Rightarrow> Inl (ProtocolError c m)
           | Inl _ \<Rightarrow> Inl (ProtocolError ''FRAME'' ''invalid UTF-8 JSON'')
           | Inr v \<Rightarrow> retE [port_json_bounds v] v))"

definition bytes_blank :: "bytes \<Rightarrow> bool" where
  "bytes_blank b \<longleftrightarrow> list_all (\<lambda>c. c \<in> {32, 9, 10, 13, 11, 12}) b"

definition port_parse_frame :: "nat \<Rightarrow> bytes \<Rightarrow> pyval res" where
  "port_parse_frame lim data = bindE (seqE
     [guardE (length data \<le> port_max_frame_bytes + 1)
        (ProtocolError ''LIMIT'' ''frame byte budget exceeded''),
      guardE (endswith data [10] \<and> 10 \<notin> set (butlast data) \<and> 13 \<notin> set data)
        (ProtocolError ''FRAME'' ''frame must have one LF terminator and no literal CR''),
      guardE (\<not> bytes_blank (butlast data)) (ProtocolError ''FRAME'' ''empty frame'')])
     (\<lambda>_. bindE (port_parse_json lim (butlast data)) (\<lambda>v. retE [port_object v None ''SCHEMA''] v))"

definition port_encode_frame :: "pyval \<Rightarrow> bytes res" where
  "port_encode_frame message = bindE (seqE [port_object message None ''SCHEMA'', port_json_bounds message])
     (\<lambda>_. case utf8 (json_dumps message) of
        None \<Rightarrow> Inl PyUnicodeError
      | Some payload \<Rightarrow>
          if port_max_frame_bytes < length payload
          then Inl (ProtocolError ''LIMIT'' ''frame byte budget exceeded'')
          else Inr (payload @ [10]))"

section \<open>When the scalar checks accept\<close>

lemma port_string_accepts [accept_simps]:
  "port_string v mx ne = Inr u \<longleftrightarrow> is_Str v \<and> encodable (the_Str v) \<and> (ne \<longrightarrow> the_Str v \<noteq> []) \<and>
     (\<forall>m. mx = Some m \<longrightarrow> utf8_size (the_Str v) \<le> m)"
  by (cases v) (auto simp: port_string_def utf8_len_eq split: option.splits)

lemma port_identifier_accepts [accept_simps]:
  "port_identifier v = Inr u \<longleftrightarrow> is_Str v \<and> re_identifier (the_Str v)"
  by (simp add: port_identifier_def)

lemma port_digest_accepts [accept_simps]:
  "port_digest v = Inr u \<longleftrightarrow> is_Str v \<and> re_hex 64 (the_Str v)"
  by (simp add: port_digest_def)

lemma port_object_accepts [accept_simps]:
  "port_object v ks code = Inr u \<longleftrightarrow> is_Dict v \<and> (\<forall>k. ks = Some k \<longrightarrow> set (keys v) = set k)"
  by (auto simp: port_object_def split: option.splits)

lemma port_array_accepts [accept_simps]:
  "port_array v ne = Inr u \<longleftrightarrow> is_List v \<and> (ne \<longrightarrow> the_List v \<noteq> [])"
  by (simp add: port_array_def)

text \<open>The scalars and keys a value may hold on the wire.\<close>

fun wire_leaf :: "pyval \<Rightarrow> bool" where
  "wire_leaf (PStr s) = encodable s"
| "wire_leaf (PInt i) = safe_int i"
| "wire_leaf (PFloat t) = False"
| "wire_leaf _ = True"

lemma port_leaf_accepts: "\<not> is_List v \<Longrightarrow> \<not> is_Dict v \<Longrightarrow> port_leaf v = Inr u \<longleftrightarrow> wire_leaf v"
  by (cases v) (auto simp: port_leaf_def port_string_accepts)

lemma all_parts_cong:
  "(\<And>k. key k = key' k) \<Longrightarrow> (\<And>x. \<not> is_List x \<Longrightarrow> \<not> is_Dict x \<Longrightarrow> leaf x = leaf' x) \<Longrightarrow>
     all_parts key leaf v = all_parts key' leaf' v"
  by (induction v rule: pyval_induct) auto

lemma port_bounds_accepts:
  "port_json_bounds v = Inr u \<longleftrightarrow>
     height v \<le> port_max_json_depth \<and> nodes v \<le> port_max_nodes \<and> all_parts encodable wire_leaf v"
  unfolding port_json_bounds_def bounds_loop_accepts
  by (intro conj_cong refl all_parts_cong) (auto simp: port_leaf_accepts port_string_accepts)

section \<open>The codec's hooks\<close>

lemma dset_fresh: "k \<notin> set (map fst d) \<Longrightarrow> dset d k v = d @ [(k, v)]"
  by (induction d) auto

lemma port_pairs_from_distinct:
  "distinct (map fst (d @ kvs)) \<Longrightarrow> port_pairs_from d kvs = Inr (PDict (d @ kvs))"
proof (induction kvs arbitrary: d)
  case (Cons kv kvs)
  obtain k v where kv: "kv = (k, v)" by (cases kv)
  with Cons.prems have "k \<notin> set (map fst d)" by auto
  with Cons.IH [of "d @ [kv]"] Cons.prems kv show ?case by (simp add: dset_fresh)
qed simp

lemma port_pairs_from_Inr:
  "distinct (map fst d) \<Longrightarrow> port_pairs_from d kvs = Inr v \<Longrightarrow>
     v = PDict (d @ kvs) \<and> distinct (map fst (d @ kvs))"
proof (induction kvs arbitrary: d)
  case (Cons kv kvs)
  obtain k x where kv: "kv = (k, x)" by (cases kv)
  with Cons.prems have "k \<notin> set (map fst d)" by (auto split: if_splits)
  with Cons.IH [of "d @ [kv]"] Cons.prems kv show ?case by (simp add: dset_fresh)
qed simp

lemma port_pairs_from_fuel: "port_pairs_from d kvs \<noteq> Inl OutOfFuel"
  by (induction d kvs rule: port_pairs_from.induct) auto

lemma print_nat_chars: "\<not> is_digit c \<Longrightarrow> c \<notin> set (print_nat n)"
  using print_nat_digits [of n] by (auto simp: list_all_iff)

lemma port_exact_number_int:
  assumes "safe_int i"
  shows "port_exact_number fl (print_int i) = Inr (PInt i)"
proof -
  let ?co = "filter (\<lambda>c. c \<noteq> 45 \<and> c \<noteq> 46) (takeWhile (\<lambda>c. c \<noteq> 101 \<and> c \<noteq> 69) (print_int i))"
  have "takeWhile (\<lambda>c. c \<noteq> 101 \<and> c \<noteq> 69) (print_int i) = print_int i"
    by (auto simp: takeWhile_eq_all_conv print_int_def print_nat_chars is_digit_def split: if_splits)
  moreover have "filter (\<lambda>c. c \<noteq> 45 \<and> c \<noteq> 46) (print_nat n) = print_nat n" for n
    by (auto simp: filter_id_conv print_nat_chars is_digit_def)
  ultimately have co: "?co = print_nat (nat \<bar>i\<bar>)"
    by (simp only: print_int_def) (simp split: if_splits)
  have "i = 0" if "list_all (\<lambda>c. c = 48) (print_nat (nat \<bar>i\<bar>))"
  proof -
    have "hd (print_nat (nat \<bar>i\<bar>)) = 48"
      using that by (cases "print_nat (nat \<bar>i\<bar>)") auto
    then show ?thesis by (simp add: print_nat_hd_0)
  qed
  then show ?thesis
    using assms safe_int_no_raise [OF assms]
    by (auto simp: port_exact_number_def co Let_def decimal_int_print_int)
qed

lemma port_exact_number_fuel: "port_exact_number fl t \<noteq> Inl OutOfFuel"
  by (simp add: port_exact_number_def Let_def split: option.splits)

lemma port_pairs_distinct: "distinct (map fst kvs) \<Longrightarrow> port_pairs kvs = Inr (PDict kvs)"
  using port_pairs_from_distinct [of "[]" kvs] by (simp add: port_pairs_def)

interpretation port_json: json_codec port_exact_number port_invalid_constant port_pairs safe_int jprint_char "\<lambda>_. True"
  by unfold_locales
    (simp_all add: jchars_print_char port_exact_number_int port_exact_number_fuel port_invalid_constant_def
      port_pairs_distinct, simp add: port_pairs_def port_pairs_from_fuel)

section \<open>Frames round-trip\<close>

lemma utf8_Some: "utf8 s = Some bs \<longleftrightarrow> encodable s \<and> bs = concat (map utf8_char s)"
  by (auto simp: utf8_def encodable_def)

lemma utf8_char_low: "b < 128 \<Longrightarrow> b \<in> set (utf8_char c) \<longleftrightarrow> b = c"
  by (auto simp: utf8_char_def)

lemma utf8_low: "utf8 s = Some bs \<Longrightarrow> b < 128 \<Longrightarrow> b \<in> set bs \<longleftrightarrow> b \<in> set s"
  by (auto simp: utf8_Some utf8_char_low)

lemma set_pjoin: "set (pjoin c ps) \<subseteq> insert c (\<Union> (set ` set ps))"
  by (induction c ps rule: pjoin.induct) auto

lemma jprint_char_no_ctrl: "c < 32 \<Longrightarrow> c \<notin> set (jprint_char d)"
  by (auto simp: jprint_char_def hexdig_def)

lemma jprint_str_no_ctrl: "c < 32 \<Longrightarrow> c \<notin> set (jprint_str s)"
  by (auto simp: jprint_with_def jprint_char_no_ctrl)

lemma lit_chars: "c < 32 \<Longrightarrow> list_all (\<lambda>x. 32 \<le> (of_char x :: nat)) w \<Longrightarrow> c \<notin> set (lit w)"
  by (auto simp: lit_def list_all_iff)

lemma json_dumps_no_ctrl: "jprintable ok v \<Longrightarrow> c < 32 \<Longrightarrow> c \<notin> set (json_dumps v)"
proof (induction v rule: pyval_induct)
  case (PInt i)
  then show ?case by (auto simp: print_int_def print_nat_chars is_digit_def)
next
  case (PList xs)
  then show ?case using set_pjoin [of 44 "map json_dumps xs"] by auto
next
  case (PDict d)
  let ?ps = "map (\<lambda>(k, v). jprint_str k @ [58] @ json_dumps v) d"
  have "c \<notin> set (json_dumps v)" if "(k, v) \<in> set d" for k v
    using PDict.IH [of "(k, v)"] PDict.prems that by auto
  then have "c \<notin> \<Union> (set ` set ?ps)"
    using PDict.prems by (auto simp: jprint_str_no_ctrl)
  then show ?case using set_pjoin [of 44 ?ps] PDict.prems by auto
qed (auto simp: lit_chars jprint_str_no_ctrl)

lemma wire_printable: "wf_pyval v \<Longrightarrow> all_parts encodable wire_leaf v \<Longrightarrow> jprintable safe_int v"
  by (induction v rule: pyval_induct) auto

lemma wf_pystr_simps [simp]:
  "wf_pystr []" "wf_pystr (c # s) \<longleftrightarrow> c < 1114112 \<and> wf_pystr s"
  "wf_pystr (s @ t) \<longleftrightarrow> wf_pystr s \<and> wf_pystr t"
  by (auto simp: wf_pystr_def)

lemma wf_pystr_iff: "wf_pystr s \<longleftrightarrow> (\<forall>c \<in> set s. c < 1114112)"
  by (simp add: wf_pystr_def list_all_iff)

lemma wf_jprint_str: "wf_pystr s \<Longrightarrow> wf_pystr (jprint_str s)"
proof -
  have "wf_pystr (jprint_char c)" if "c < 1114112" for c
    using that mod_less_divisor [of 16 c] by (auto simp: jprint_char_def hexdig_def simp del: mod_less_divisor)
  then show "wf_pystr s \<Longrightarrow> wf_pystr (jprint_str s)"
    by (auto simp: jprint_with_def wf_pystr_iff)
qed

lemma wf_lit: "wf_pystr (lit w)"
proof -
  have "(of_char c :: nat) < 1114112" for c
    using nat_of_char_less_256 [of c] by linarith
  then show ?thesis by (auto simp: wf_pystr_iff lit_def)
qed

lemma wf_pjoin: "c < 1114112 \<Longrightarrow> (\<And>p. p \<in> set ps \<Longrightarrow> wf_pystr p) \<Longrightarrow> wf_pystr (pjoin c ps)"
  using set_pjoin [of c ps] by (auto simp: wf_pystr_iff)

lemma wf_json_dumps: "wf_pyval v \<Longrightarrow> jprintable ok v \<Longrightarrow> wf_pystr (json_dumps v)"
proof (induction v rule: pyval_induct)
  case (PInt i)
  have "wf_pystr (print_nat n)" for n
    using print_nat_digits [of n] by (auto simp: wf_pystr_iff list_all_iff is_digit_def)
  then show ?case by (simp add: print_int_def)
next
  case (PDict d)
  then have "wf_pystr (jprint_str (fst kv) @ [58] @ json_dumps (snd kv))" if "kv \<in> set d" for kv
    using that by (simp add: wf_jprint_str)
  then show ?case by (auto intro!: wf_pjoin)
qed (auto simp: wf_lit wf_jprint_str intro!: wf_pjoin)

lemma port_parse_encoded:
  assumes wf: "wf_pyval m" and lim: "97 \<le> lim" and enc: "port_encode_frame m = Inr bs"
  shows "port_parse_frame lim bs = Inr m"
proof -
  from enc obtain payload where obj: "is_Dict m" and bounds: "port_json_bounds m = Inr ()"
    and payload: "utf8 (json_dumps m) = Some payload" and len: "length payload \<le> port_max_frame_bytes"
    and bs: "bs = payload @ [10]"
    by (auto simp: port_encode_frame_def accept_simps split: option.splits if_splits)
  have parts: "all_parts encodable wire_leaf m" "height m \<le> 96"
    using bounds by (auto simp: port_bounds_accepts port_max_json_depth_def)
  have pr: "jprintable safe_int m" using wf parts by (simp add: wire_printable)
  have ctrl: "b \<notin> set payload" if "b < 32" for b
    using json_dumps_no_ctrl [OF pr that] utf8_low [OF payload, of b] that by simp
  have "jdepth m \<le> lim" using jdepth_le_height [of m] parts lim by simp
  then have "json_loads port_exact_number port_invalid_constant port_pairs lim (json_dumps m) = Inr m"
    by (rule port_json.loads_dumps [OF pr jstrings_True])
  then have "port_parse_json lim payload = Inr m"
    using utf8_decode_utf8 [OF wf_json_dumps [OF wf pr] payload] bounds
    by (simp add: port_parse_json_def)
  moreover have "\<not> bytes_blank payload"
  proof -
    obtain d where "m = PDict d" using obj by (cases m) auto
    then have "123 \<in> set payload" using utf8_low [OF payload, of 123] by simp
    then show ?thesis by (auto simp: bytes_blank_def list_all_iff intro!: bexI [of _ 123])
  qed
  ultimately show ?thesis
    using len ctrl [of 10] ctrl [of 13] obj
    by (simp add: port_parse_frame_def bs endswith_def port_object_def)
qed

lemma port_parse_json_bounded:
  "port_parse_json lim data = Inr v \<Longrightarrow> port_json_bounds v = Inr ()"
  by (auto simp: port_parse_json_def split: option.splits sum.splits pyexc.splits)

end
