(* ===== verification/PortValue.thy ===== *)
theory PortValue
  imports PortCodec "HOL-Library.FSet"
begin

text \<open>
  Portable types and values of the worker port (\<^verbatim>\<open>protocol.py\<close>, \<^verbatim>\<open>_type\<close> to
  \<^verbatim>\<open>validate_observations\<close>).  \<open>port_type\<close> and \<open>port_value\<close> are the validators as written, the
  latter with the hashable key it returns for duplicate detection.  Subscripts of a type that was
  not validated raise as in Python.
\<close>

definition port_max_type_depth :: nat where "port_max_type_depth = 32"
definition port_max_value_depth :: nat where "port_max_value_depth = 32"

section \<open>Types\<close>

definition port_unique :: "pyval list \<Rightarrow> string \<Rightarrow> string \<Rightarrow> unit res" where
  "port_unique items field label = seen_loop (\<lambda>_. Inr ())
     (ProtocolError ''SCHEMA'' (''duplicate '' @ label)) {} (map (\<lambda>item. fld item field) items)"

definition exactly :: "string list \<Rightarrow> pystr list option" where
  "exactly ks = Some (map lit ks)"

function port_type :: "pyval \<Rightarrow> nat \<Rightarrow> unit res" where
  "port_type shape depth =
     (if port_max_type_depth < depth then Inl (ProtocolError ''LIMIT'' ''type depth budget exceeded'')
      else bindE (port_object shape None ''SCHEMA'') (\<lambda>_.
        let kind = fld shape ''kind'' in
        if kind \<in> {pyl ''int'', pyl ''bool'', pyl ''str'', pyl ''null''}
        then port_object shape (exactly [''kind'']) ''SCHEMA''
        else if kind \<in> {pyl ''set'', pyl ''seq''} then seqE
          [port_object shape (exactly [''kind'', ''element'']) ''SCHEMA'',
           port_type (fld shape ''element'') (depth + 1)]
        else if kind = pyl ''tuple'' then seqE
          [port_object shape (exactly [''kind'', ''elements'']) ''SCHEMA'',
           port_array (fld shape ''elements'') False,
           seqE (map (\<lambda>item. port_type item (depth + 1)) (the_List (fld shape ''elements'')))]
        else if kind = pyl ''record'' then seqE
          [port_object shape (exactly [''kind'', ''fields'']) ''SCHEMA'',
           port_array (fld shape ''fields'') False,
           seqE (map (\<lambda>item. seqE
             [port_object item (exactly [''wireName'', ''type'']) ''SCHEMA'',
              port_string (fld item ''wireName'') (Some 128) True,
              port_type (fld item ''type'') (depth + 1)]) (the_List (fld shape ''fields''))),
           port_unique (the_List (fld shape ''fields'')) ''wireName'' ''record field'']
        else if kind = pyl ''map'' then seqE
          [port_object shape (exactly [''kind'', ''key'', ''value'']) ''SCHEMA'',
           guardE (fld shape ''key'' = PDict [(lit ''kind'', pyl ''str'')])
             (ProtocolError ''SCHEMA'' ''portable maps require string keys''),
           port_type (fld shape ''key'') (depth + 1),
           port_type (fld shape ''value'') (depth + 1)]
        else if kind = pyl ''variant'' then seqE
          [port_object shape (exactly [''kind'', ''cases'']) ''SCHEMA'',
           port_array (fld shape ''cases'') True,
           seqE (map (\<lambda>item. seqE
             [port_object item (exactly [''tag'', ''payload'']) ''SCHEMA'',
              port_string (fld item ''tag'') (Some 128) True,
              port_type (fld item ''payload'') (depth + 1)]) (the_List (fld shape ''cases''))),
           port_unique (the_List (fld shape ''cases'')) ''tag'' ''variant tag'']
        else Inl (ProtocolError ''SCHEMA'' ''unsupported portable type'')))"
  by pat_completeness auto
termination
  by (relation "measure (\<lambda>(shape, depth). Suc port_max_type_depth - depth)") auto

declare port_type.simps [simp del]

definition port_validate_type :: "pyval \<Rightarrow> pyval res" where
  "port_validate_type shape = retE [port_json_bounds shape, port_type shape 0] shape"

section \<open>Values\<close>

text \<open>The hashable keys: the tuples and frozensets \<^verbatim>\<open>_value\<close> returns, tagged by kind as there.\<close>

datatype skey =
    KInt pystr
  | KBool bool
  | KStr pystr
  | KNull
  | KSet "skey fset"
  | KSeq "skey list"
  | KTuple "skey list"
  | KRecord "(pystr \<times> skey) fset"
  | KMap "(pystr \<times> skey) fset"
  | KVariant pystr skey

text \<open>\<^verbatim>\<open>(?:0|-?[1-9][0-9]*)\Z\<close>\<close>

definition re_integer :: "pystr \<Rightarrow> bool" where
  "re_integer s \<longleftrightarrow> s = [48] \<or>
     (let t = (case s of c # r \<Rightarrow> if c = 45 then r else s | [] \<Rightarrow> s) in
      (case t of [] \<Rightarrow> False | c # r \<Rightarrow> is_digit c \<and> c \<noteq> 48 \<and> list_all is_digit r))"

abbreviation vfail :: "string \<Rightarrow> 'a res" where
  "vfail m \<equiv> Inl (ProtocolError ''VALUE'' m)"

fun find_case :: "pyval \<Rightarrow> pyval list \<Rightarrow> pyval option res" where
  "find_case tag [] = Inr None"
| "find_case tag (c # cs) =
     bindE (getE c ''tag'') (\<lambda>t. if tag = t then Inr (Some c) else find_case tag cs)"

text \<open>The loop over map entries, with the validator of the entry values as a parameter.\<close>

fun map_entries :: "(pyval \<Rightarrow> skey res) \<Rightarrow> pystr set \<Rightarrow> pyval list \<Rightarrow> (pystr \<times> skey) list res" where
  "map_entries f seen [] = Inr []"
| "map_entries f seen (e # es) =
     bindE (guardE (is_List e \<and> length (the_List e) = 2 \<and> is_Str (the_List e ! 0))
       (ProtocolError ''VALUE'' ''expected string-key map pair'')) (\<lambda>_.
     let k = the_Str (the_List e ! 0) in
     bindE (guardE (k \<notin> seen) (ProtocolError ''VALUE'' ''duplicate map key'')) (\<lambda>_.
     bindE (f (the_List e ! 1)) (\<lambda>x.
     bindE (map_entries f (insert k seen) es) (\<lambda>xs. Inr ((k, x) # xs)))))"

lemma map_entries_cong [fundef_cong]:
  "es = es' \<Longrightarrow> seen = seen' \<Longrightarrow> (\<And>x. f x = g x) \<Longrightarrow> map_entries f seen es = map_entries g seen' es'"
  by (simp add: ext [of f g])

function port_value :: "pyval \<Rightarrow> pyval \<Rightarrow> nat \<Rightarrow> skey res" where
  "port_value shape v depth =
     (if port_max_value_depth < depth then Inl (ProtocolError ''LIMIT'' ''value depth budget exceeded'')
      else bindE (getE shape ''kind'') (\<lambda>kind.
        if kind = pyl ''int'' then
          bindE (port_object v (exactly [''#bigint'']) ''VALUE'') (\<lambda>_.
          let number = fld v ''#bigint'' in
          if is_Str number \<and> re_integer (the_Str number) then Inr (KInt (the_Str number))
          else vfail ''integer must be a canonical decimal string'')
        else if kind = pyl ''bool'' then
          (if is_Bool v then Inr (KBool (the_Bool v)) else vfail ''expected boolean'')
        else if kind = pyl ''str'' then
          (if is_Str v then Inr (KStr (the_Str v)) else vfail ''expected string'')
        else if kind = pyl ''null'' then
          (if is_None v then Inr KNull else vfail ''expected null'')
        else if kind = pyl ''set'' then
          bindE (port_object v (exactly [''#set'']) ''VALUE'') (\<lambda>_.
          let values = fld v ''#set'' in
          if \<not> is_List values then vfail ''expected collection array''
          else bindE (mapE (\<lambda>x. bindE (getE shape ''element'') (\<lambda>t. port_value t x (depth + 1)))
              (the_List values)) (\<lambda>ks.
            if distinct ks then Inr (KSet (fset_of_list ks)) else vfail ''duplicate set member''))
        else if kind = pyl ''seq'' then
          (if \<not> is_List v then vfail ''expected collection array''
           else bindE (mapE (\<lambda>x. bindE (getE shape ''element'') (\<lambda>t. port_value t x (depth + 1)))
              (the_List v)) (\<lambda>ks. Inr (KSeq ks)))
        else if kind = pyl ''tuple'' then
          bindE (port_object v (exactly [''#tup'']) ''VALUE'') (\<lambda>_.
          let values = fld v ''#tup'' in
          if \<not> is_List values then vfail ''expected collection array''
          else bindE (bindE (getE shape ''elements'') iterE) (\<lambda>ts.
            if length (the_List values) \<noteq> length ts then vfail ''tuple arity does not match''
            else bindE (mapE (\<lambda>tx. port_value (fst tx) (snd tx) (depth + 1)) (zip ts (the_List values)))
              (\<lambda>ks. Inr (KTuple ks))))
        else if kind = pyl ''record'' then
          bindE (bindE (getE shape ''fields'') iterE) (\<lambda>fields.
          bindE (mapE (\<lambda>item. getE item ''wireName'') fields) (\<lambda>wires.
          bindE (seqE [guardE (list_all hashable wires) PyTypeError,
                       port_object v None ''VALUE'',
                       guardE (set (map PStr (keys v)) = set wires)
                         (ProtocolError ''VALUE'' ''object fields do not match contract'')]) (\<lambda>_.
          bindE (mapE (\<lambda>iw. bindE (getE (fst iw) ''type'') (\<lambda>t.
              bindE (port_value t (the (dget v (the_Str (snd iw)))) (depth + 1)) (\<lambda>k.
              Inr (the_Str (snd iw), k)))) (zip fields wires)) (\<lambda>kvs.
          Inr (KRecord (fset_of_list kvs))))))
        else if kind = pyl ''map'' then
          bindE (port_object v (exactly [''#map'']) ''VALUE'') (\<lambda>_.
          let entries = fld v ''#map'' in
          if \<not> is_List entries then vfail ''expected map entry array''
          else bindE (map_entries (\<lambda>x. bindE (getE shape ''value'') (\<lambda>t. port_value t x (depth + 1))) {}
              (the_List entries)) (\<lambda>kvs. Inr (KMap (fset_of_list kvs))))
        else if kind = pyl ''variant'' then
          bindE (port_object v (exactly [''tag'', ''value'']) ''VALUE'') (\<lambda>_.
          bindE (bindE (getE shape ''cases'') iterE) (\<lambda>cases.
          bindE (find_case (fld v ''tag'') cases) (\<lambda>found.
            case found of
              Some c \<Rightarrow> bindE (getE c ''payload'') (\<lambda>t.
                bindE (port_value t (fld v ''value'') (depth + 1)) (\<lambda>k.
                Inr (KVariant (the_Str (fld v ''tag'')) k)))
            | None \<Rightarrow> vfail ''unknown variant tag'')))
        else Inl (ProtocolError ''SCHEMA'' ''unsupported portable type'')))"
  by pat_completeness auto
termination
  by (relation "measure (\<lambda>(shape, v, depth). Suc port_max_value_depth - depth)") auto

declare port_value.simps [simp del]

definition port_validate_value :: "pyval \<Rightarrow> pyval \<Rightarrow> pyval res" where
  "port_validate_value shape v =
     bindE (port_validate_type shape) (\<lambda>_. bindE (port_json_bounds v) (\<lambda>_.
     bindE (port_value shape v 0) (\<lambda>_. Inr v)))"

section \<open>Manifests\<close>

definition port_typed_item :: "pyval \<Rightarrow> unit res" where
  "port_typed_item item = seqE
     [port_object item (exactly [''id'', ''type'']) ''SCHEMA'', port_identifier (fld item ''id''),
      port_type (fld item ''type'') 0]"

definition port_operation_item :: "pyval \<Rightarrow> unit res" where
  "port_operation_item action = seqE
     [port_object action (exactly [''id'', ''inputs'']) ''SCHEMA'', port_identifier (fld action ''id''),
      port_array (fld action ''inputs'') False,
      seqE (map port_typed_item (the_List (fld action ''inputs''))),
      port_unique (the_List (fld action ''inputs'')) ''id'' ''input ID'']"

definition port_validate_manifest :: "pyval \<Rightarrow> pyval res" where
  "port_validate_manifest m =
     (let ops = the_List (fld m ''initializers'') @ the_List (fld m ''actions'');
          obs = the_List (fld m ''observations'') in
      retE
       [port_json_bounds m,
        port_object m (exactly [''schema'', ''interfaceDigest'', ''initializers'', ''actions'', ''observations'']) ''SCHEMA'',
        guardE (fld m ''schema'' = pyl ''mirrorgate.port/v1'')
          (ProtocolError ''SCHEMA'' ''unsupported public manifest schema''),
        port_digest (fld m ''interfaceDigest''),
        port_array (fld m ''initializers'') True, port_array (fld m ''actions'') False,
        port_array (fld m ''observations'') True,
        seqE (map port_operation_item ops),
        port_unique ops ''id'' ''operation ID'',
        seqE (map port_typed_item obs),
        port_unique obs ''id'' ''observation ID'',
        (case utf8_len (json_dumps m) of
           None \<Rightarrow> Inl PyUnicodeError
         | Some n \<Rightarrow> guardE (n \<le> port_max_manifest_bytes)
             (ProtocolError ''LIMIT'' ''manifest byte budget exceeded''))] m)"

text \<open>\<^verbatim>\<open>load_manifest\<close>, given the bytes of the file: the read stops one byte past the budget.\<close>

definition port_load_manifest :: "nat \<Rightarrow> bytes \<Rightarrow> pyval res" where
  "port_load_manifest lim content =
     (let data = take (port_max_manifest_bytes + 1) content in
      if port_max_manifest_bytes < length data
      then Inl (ProtocolError ''LIMIT'' ''manifest byte budget exceeded'')
      else bindE (port_parse_json lim data) port_validate_manifest)"

definition listE :: "pyval \<Rightarrow> pyval list res" where
  "listE v = (case v of PList xs \<Rightarrow> Inr xs | _ \<Rightarrow> Inl PyTypeError)"

fun find_operation :: "pyval \<Rightarrow> pyval list \<Rightarrow> pyval res" where
  "find_operation action [] = vfail ''undeclared operation''"
| "find_operation action (item # items) =
     bindE (getE item ''id'') (\<lambda>i. if i = action then Inr item else find_operation action items)"

definition port_operation :: "pyval \<Rightarrow> pyval \<Rightarrow> pyval res" where
  "port_operation m action =
     bindE (bindE (getE m ''initializers'') listE) (\<lambda>is.
     bindE (bindE (getE m ''actions'') listE) (\<lambda>as. find_operation action (is @ as)))"

text \<open>The common tail of \<^verbatim>\<open>validate_inputs\<close> and \<^verbatim>\<open>validate_observations\<close>: fields, then values.\<close>

definition port_typed_fields :: "pyval list \<Rightarrow> pyval \<Rightarrow> unit res" where
  "port_typed_fields items vals =
     bindE (mapE (\<lambda>item. getE item ''id'') items) (\<lambda>ids.
     seqE
       [guardE (list_all hashable ids) PyTypeError,
        port_object vals None ''VALUE'',
        guardE (set (map PStr (keys vals)) = set ids)
          (ProtocolError ''VALUE'' ''object fields do not match contract''),
        seqE (map (\<lambda>ii. bindE (getE (fst ii) ''type'') (\<lambda>t.
          bindE (port_value t (the (dget vals (the_Str (snd ii)))) 0) (\<lambda>_. Inr ()))) (zip items ids))])"

definition port_validate_inputs :: "pyval \<Rightarrow> pyval \<Rightarrow> pyval \<Rightarrow> pyval res" where
  "port_validate_inputs m action inputs =
     bindE (port_operation m action) (\<lambda>selected.
     bindE (port_json_bounds inputs) (\<lambda>_.
     bindE (bindE (getE selected ''inputs'') iterE) (\<lambda>items.
     retE [port_typed_fields items inputs] inputs)))"

definition port_validate_observations :: "pyval \<Rightarrow> pyval \<Rightarrow> pyval res" where
  "port_validate_observations m vals =
     bindE (port_json_bounds vals) (\<lambda>_.
     bindE (bindE (getE m ''observations'') iterE) (\<lambda>items.
     retE [port_typed_fields items vals] vals))"

end
