(* ===== verification/PortTyping.thy ===== *)
theory PortTyping
  imports PortValue
begin

text \<open>
  What the port's type and value validators decide.  \<open>ptype\<close> is the abstract syntax of portable
  types and \<open>encodes\<close> relates it to the JSON shapes; \<open>has_type\<close> is the typing of wire values and
  \<open>sem_eq\<close> their semantic equality (sets without order, records and maps by key, integers by
  value), none of which mentions the keys \<open>port_value\<close> computes.  \<open>port_type_accepts\<close> shows that a
  shape is accepted exactly when it encodes a type of bounded depth; \<open>port_value_typed\<close>,
  \<open>port_value_key_eq\<close> and \<open>port_value_error\<close> that, for such a shape, \<open>port_value\<close> accepts exactly
  the values of the type, returns equal keys exactly for semantically equal values, and otherwise
  raises a \<^verbatim>\<open>VALUE\<close> error.
\<close>

section \<open>Abstract types\<close>

datatype ptype =
    TInt
  | TBool
  | TStr
  | TNull
  | TSet ptype
  | TSeq ptype
  | TTuple "ptype list"
  | TRecord "(pystr \<times> ptype) list"
  | TMap ptype
  | TVariant "(pystr \<times> ptype) list"

fun tdepth :: "ptype \<Rightarrow> nat" where
  "tdepth (TSet t) = Suc (tdepth t)"
| "tdepth (TSeq t) = Suc (tdepth t)"
| "tdepth (TTuple ts) = maxl (map (\<lambda>t. Suc (tdepth t)) ts)"
| "tdepth (TRecord fs) = maxl (map (\<lambda>f. Suc (tdepth (snd f))) fs)"
| "tdepth (TMap t) = Suc (tdepth t)"
| "tdepth (TVariant cs) = maxl (map (\<lambda>c. Suc (tdepth (snd c))) cs)"
| "tdepth _ = 0"

definition obj :: "pyval \<Rightarrow> string list \<Rightarrow> bool" where
  "obj v ks \<longleftrightarrow> is_Dict v \<and> set (keys v) = names ks"

definition wire_name :: "pystr \<Rightarrow> bool" where
  "wire_name n \<longleftrightarrow> n \<noteq> [] \<and> encodable n \<and> utf8_size n \<le> 128"

fun encodes :: "ptype \<Rightarrow> pyval \<Rightarrow> bool" where
  "encodes TInt v \<longleftrightarrow> obj v [''kind''] \<and> fld v ''kind'' = pyl ''int''"
| "encodes TBool v \<longleftrightarrow> obj v [''kind''] \<and> fld v ''kind'' = pyl ''bool''"
| "encodes TStr v \<longleftrightarrow> obj v [''kind''] \<and> fld v ''kind'' = pyl ''str''"
| "encodes TNull v \<longleftrightarrow> obj v [''kind''] \<and> fld v ''kind'' = pyl ''null''"
| "encodes (TSet t) v \<longleftrightarrow>
     obj v [''kind'', ''element''] \<and> fld v ''kind'' = pyl ''set'' \<and> encodes t (fld v ''element'')"
| "encodes (TSeq t) v \<longleftrightarrow>
     obj v [''kind'', ''element''] \<and> fld v ''kind'' = pyl ''seq'' \<and> encodes t (fld v ''element'')"
| "encodes (TTuple ts) v \<longleftrightarrow>
     obj v [''kind'', ''elements''] \<and> fld v ''kind'' = pyl ''tuple'' \<and> is_List (fld v ''elements'') \<and>
     list_all2 encodes ts (the_List (fld v ''elements''))"
| "encodes (TRecord fs) v \<longleftrightarrow>
     obj v [''kind'', ''fields''] \<and> fld v ''kind'' = pyl ''record'' \<and> is_List (fld v ''fields'') \<and>
     list_all2 (\<lambda>f item. obj item [''wireName'', ''type''] \<and> fld item ''wireName'' = PStr (fst f) \<and>
       wire_name (fst f) \<and> encodes (snd f) (fld item ''type'')) fs (the_List (fld v ''fields'')) \<and>
     distinct (map fst fs)"
| "encodes (TMap t) v \<longleftrightarrow>
     obj v [''kind'', ''key'', ''value''] \<and> fld v ''kind'' = pyl ''map'' \<and>
     fld v ''key'' = PDict [(lit ''kind'', pyl ''str'')] \<and> encodes t (fld v ''value'')"
| "encodes (TVariant cs) v \<longleftrightarrow>
     obj v [''kind'', ''cases''] \<and> fld v ''kind'' = pyl ''variant'' \<and> is_List (fld v ''cases'') \<and> cs \<noteq> [] \<and>
     list_all2 (\<lambda>c item. obj item [''tag'', ''payload''] \<and> fld item ''tag'' = PStr (fst c) \<and>
       wire_name (fst c) \<and> encodes (snd c) (fld item ''payload'')) cs (the_List (fld v ''cases'')) \<and>
     distinct (map fst cs)"

lemma port_object_obj: "port_object v (exactly ks) c = Inr u \<longleftrightarrow> obj v ks"
  by (auto simp: port_object_accepts obj_def exactly_def)

lemma port_object_any: "port_object v None c = Inr u \<longleftrightarrow> is_Dict v"
  by (auto simp: port_object_accepts)

lemma obj_dict: "obj v ks \<Longrightarrow> is_Dict v"
  by (simp add: obj_def)

lemma getE_obj: "obj v ks \<Longrightarrow> k \<in> set ks \<Longrightarrow> getE v k = Inr (fld v k)"
  by (rule getE_present) (auto simp: obj_def)

lemma port_unique_accepts:
  "port_unique items f l = Inr u \<longleftrightarrow> distinct (map (\<lambda>i. fld i f) items)"
  by (simp add: port_unique_def seen_loop_Inr)

lemma port_string_wire: "port_string v (Some 128) True = Inr u \<longleftrightarrow> (\<exists>n. v = PStr n \<and> wire_name n)"
  by (cases v) (auto simp: port_string_accepts wire_name_def)

lemma list_all2_ex: "(\<forall>y \<in> set ys. \<exists>x. R x y) \<Longrightarrow> \<exists>xs. list_all2 R xs ys"
  by (induction ys) (auto intro: list_all2_Cons2 [THEN iffD2])

text \<open>Named members (record fields and variant cases) share one shape of argument.\<close>

definition member_ok :: "string \<Rightarrow> string \<Rightarrow> pystr \<times> ptype \<Rightarrow> pyval \<Rightarrow> bool" where
  "member_ok nk tk f item \<longleftrightarrow> obj item [nk, tk] \<and> fld item nk = PStr (fst f) \<and> wire_name (fst f) \<and>
     encodes (snd f) (fld item tk)"

lemma members_distinct:
  "list_all2 (member_ok nk tk) fs items \<Longrightarrow>
     distinct (map (\<lambda>i. fld i nk) items) \<longleftrightarrow> distinct (map fst fs)"
proof -
  assume "list_all2 (member_ok nk tk) fs items"
  then have "map (\<lambda>i. fld i nk) items = map (\<lambda>f. PStr (fst f)) fs"
    by (induction rule: list_all2_induct) (auto simp: member_ok_def)
  moreover have "distinct (map (\<lambda>f. PStr (fst f)) fs) \<longleftrightarrow> distinct (map fst fs)"
    by (auto simp: distinct_map inj_on_def)
  ultimately show ?thesis by simp
qed

lemma encodes_members:
  "encodes (TRecord fs) v \<longleftrightarrow>
     obj v [''kind'', ''fields''] \<and> fld v ''kind'' = pyl ''record'' \<and> is_List (fld v ''fields'') \<and>
     list_all2 (member_ok ''wireName'' ''type'') fs (the_List (fld v ''fields'')) \<and> distinct (map fst fs)"
  "encodes (TVariant cs) v \<longleftrightarrow>
     obj v [''kind'', ''cases''] \<and> fld v ''kind'' = pyl ''variant'' \<and> is_List (fld v ''cases'') \<and> cs \<noteq> [] \<and>
     list_all2 (member_ok ''tag'' ''payload'') cs (the_List (fld v ''cases'')) \<and> distinct (map fst cs)"
  by (simp_all add: member_ok_def [abs_def])

section \<open>Accepted shapes\<close>

definition members_ok :: "string \<Rightarrow> string \<Rightarrow> nat \<Rightarrow> pyval list \<Rightarrow> bool" where
  "members_ok nk tk d items \<longleftrightarrow>
     (\<forall>item \<in> set items. obj item [nk, tk] \<and> (\<exists>n. fld item nk = PStr n \<and> wire_name n) \<and>
       port_type (fld item tk) d = Inr ()) \<and> distinct (map (\<lambda>i. fld i nk) items)"

lemma port_type_step:
  "port_type shape d = Inr u \<longleftrightarrow> d \<le> port_max_type_depth \<and>
     (fld shape ''kind'' \<in> {pyl ''int'', pyl ''bool'', pyl ''str'', pyl ''null''} \<and> obj shape [''kind''] \<or>
      fld shape ''kind'' \<in> {pyl ''set'', pyl ''seq''} \<and> obj shape [''kind'', ''element''] \<and>
        port_type (fld shape ''element'') (d + 1) = Inr () \<or>
      fld shape ''kind'' = pyl ''tuple'' \<and> obj shape [''kind'', ''elements''] \<and>
        is_List (fld shape ''elements'') \<and>
        (\<forall>item \<in> set (the_List (fld shape ''elements'')). port_type item (d + 1) = Inr ()) \<or>
      fld shape ''kind'' = pyl ''record'' \<and> obj shape [''kind'', ''fields''] \<and>
        is_List (fld shape ''fields'') \<and>
        members_ok ''wireName'' ''type'' (d + 1) (the_List (fld shape ''fields'')) \<or>
      fld shape ''kind'' = pyl ''map'' \<and> obj shape [''kind'', ''key'', ''value''] \<and>
        fld shape ''key'' = PDict [(lit ''kind'', pyl ''str'')] \<and>
        port_type (fld shape ''key'') (d + 1) = Inr () \<and>
        port_type (fld shape ''value'') (d + 1) = Inr () \<or>
      fld shape ''kind'' = pyl ''variant'' \<and> obj shape [''kind'', ''cases''] \<and>
        is_List (fld shape ''cases'') \<and> the_List (fld shape ''cases'') \<noteq> [] \<and>
        members_ok ''tag'' ''payload'' (d + 1) (the_List (fld shape ''cases'')))"
proof (cases "d \<le> port_max_type_depth \<and> is_Dict shape")
  case False
  then show ?thesis
    using obj_dict [of shape]
    by (subst port_type.simps) (auto simp: bindE_eq_Inr port_object_any not_less)
next
  case True
  then have any: "port_object shape None ''SCHEMA'' = Inr ()" by (simp add: port_object_any)
  note eqs = bindE_eq_Inr Let_def port_object_obj port_array_accepts seqE_map_Inr port_string_wire
    port_unique_accepts members_ok_def not_less
  consider "fld shape ''kind'' \<in> {pyl ''int'', pyl ''bool'', pyl ''str'', pyl ''null''}"
    | "fld shape ''kind'' \<in> {pyl ''set'', pyl ''seq''}"
    | "fld shape ''kind'' = pyl ''tuple''" | "fld shape ''kind'' = pyl ''record''"
    | "fld shape ''kind'' = pyl ''map''" | "fld shape ''kind'' = pyl ''variant''"
    | "fld shape ''kind'' \<notin> {pyl ''int'', pyl ''bool'', pyl ''str'', pyl ''null'', pyl ''set'', pyl ''seq'',
        pyl ''tuple'', pyl ''record'', pyl ''map'', pyl ''variant''}"
    by blast
  then show ?thesis
  proof cases
    case 1
    then show ?thesis using True by (auto simp: port_type.simps [of shape d] eqs any)
  next
    case 2
    then show ?thesis using True by (auto simp: port_type.simps [of shape d] eqs any)
  next
    case 7
    then show ?thesis using True by (simp add: port_type.simps [of shape d] eqs any)
  qed (use True in \<open>auto simp: port_type.simps [of shape d] eqs any\<close>)
qed

lemma encodes_is_Dict: "encodes t v \<Longrightarrow> is_Dict v"
  by (cases t) (auto dest: obj_dict)

lemma list_all2_set2D: "list_all2 R xs ys \<Longrightarrow> y \<in> set ys \<Longrightarrow> \<exists>x \<in> set xs. R x y"
  by (induction rule: list_all2_induct) auto

lemma members_ok_complete:
  assumes enc: "list_all2 (member_ok nk tk) fs items" and dist: "distinct (map fst fs)"
    and rec: "\<And>f shape. f \<in> set fs \<Longrightarrow> encodes (snd f) shape \<Longrightarrow> port_type shape d = Inr ()"
  shows "members_ok nk tk d items"
  using members_distinct [OF enc] dist list_all2_set2D [OF enc] rec
  by (fastforce simp: members_ok_def member_ok_def)

lemma port_type_complete:
  "encodes t shape \<Longrightarrow> d + tdepth t \<le> port_max_type_depth \<Longrightarrow> port_type shape d = Inr ()"
proof (induction t arbitrary: shape d)
  case (TTuple ts)
  have "port_type item (d + 1) = Inr ()" if "item \<in> set (the_List (fld shape ''elements''))" for item
  proof -
    from that TTuple.prems obtain t where "t \<in> set ts" "encodes t item"
      by (auto dest: list_all2_set2D)
    with TTuple show ?thesis by (intro TTuple.IH [of t]) (simp_all add: add_maxl_le_iff)
  qed
  with TTuple.prems show ?case by (simp add: port_type_step [of shape] add_maxl_le_iff)
next
  case (TRecord fs)
  have "port_type s (d + 1) = Inr ()" if "f \<in> set fs" "encodes (snd f) s" for f s
    using TRecord that by (intro TRecord.IH [of f]) (auto simp: add_maxl_le_iff snds.intros)
  then have "members_ok ''wireName'' ''type'' (d + 1) (the_List (fld shape ''fields''))"
    using TRecord.prems unfolding encodes_members by (intro members_ok_complete [of _ _ fs]) simp_all
  with TRecord.prems show ?case by (simp add: port_type_step [of shape] add_maxl_le_iff)
next
  case (TVariant cs)
  have "port_type s (d + 1) = Inr ()" if "c \<in> set cs" "encodes (snd c) s" for c s
    using TVariant that by (intro TVariant.IH [of c]) (auto simp: add_maxl_le_iff snds.intros)
  then have "members_ok ''tag'' ''payload'' (d + 1) (the_List (fld shape ''cases''))"
    using TVariant.prems unfolding encodes_members by (intro members_ok_complete [of _ _ cs]) simp_all
  moreover have "the_List (fld shape ''cases'') \<noteq> []"
    using TVariant.prems by (auto simp: list_all2_Cons1 neq_Nil_conv)
  ultimately show ?case using TVariant.prems
    by (simp add: port_type_step [of shape] add_maxl_le_iff)
next
  case (TMap t)
  have "port_type (PDict [(lit ''kind'', pyl ''str'')]) (d + 1) = Inr ()"
    using TMap.prems
    by (simp add: port_type_step [of "PDict [(lit ''kind'', pyl ''str'')]"] obj_def)
  with TMap show ?case by (simp add: port_type_step [of shape])
next
  case (TSet t)
  then show ?case by (simp add: port_type_step [of shape])
next
  case (TSeq t)
  then show ?case by (simp add: port_type_step [of shape])
next
  case TInt
  then show ?case by (simp add: port_type_step [of shape])
next
  case TBool
  then show ?case by (simp add: port_type_step [of shape])
next
  case TStr
  then show ?case by (simp add: port_type_step [of shape])
next
  case TNull
  then show ?case by (simp add: port_type_step [of shape])
qed

lemma members_ok_sound:
  assumes ok: "members_ok nk tk d items"
    and rec: "\<And>item. item \<in> set items \<Longrightarrow> port_type (fld item tk) d = Inr () \<Longrightarrow>
      \<exists>t. encodes t (fld item tk) \<and> d + tdepth t \<le> port_max_type_depth"
  obtains fs where "list_all2 (member_ok nk tk) fs items" "distinct (map fst fs)"
    "\<forall>f \<in> set fs. d + tdepth (snd f) \<le> port_max_type_depth"
proof -
  have "\<forall>item \<in> set items. \<exists>f. member_ok nk tk f item \<and> d + tdepth (snd f) \<le> port_max_type_depth"
    using ok rec by (fastforce simp: members_ok_def member_ok_def)
  from list_all2_ex [OF this] obtain fs where fs: "list_all2 (\<lambda>f item. member_ok nk tk f item \<and>
      d + tdepth (snd f) \<le> port_max_type_depth) fs items" by blast
  then have enc: "list_all2 (member_ok nk tk) fs items" by (rule list_all2_mono) simp
  moreover have "distinct (map fst fs)"
    using members_distinct [OF enc] ok by (simp add: members_ok_def)
  moreover from fs have "\<forall>f \<in> set fs. d + tdepth (snd f) \<le> port_max_type_depth"
    by (induction rule: list_all2_induct) auto
  ultimately show ?thesis by (rule that)
qed

lemma port_type_sound:
  "port_type shape d = Inr () \<Longrightarrow> \<exists>t. encodes t shape \<and> d + tdepth t \<le> port_max_type_depth"
proof (induction "Suc port_max_type_depth - d" arbitrary: shape d rule: less_induct)
  case less
  have d: "d \<le> port_max_type_depth" using less.prems by (simp add: port_type_step [of shape])
  have IH: "\<exists>t. encodes t s \<and> d + 1 + tdepth t \<le> port_max_type_depth"
    if "port_type s (d + 1) = Inr ()" for s
    using less.hyps [of "d + 1" s] that d by simp
  note cases = less.prems [unfolded port_type_step [of shape]]
  then consider "fld shape ''kind'' \<in> {pyl ''int'', pyl ''bool'', pyl ''str'', pyl ''null''}" "obj shape [''kind'']"
    | "fld shape ''kind'' \<in> {pyl ''set'', pyl ''seq''}" "obj shape [''kind'', ''element'']"
        "port_type (fld shape ''element'') (d + 1) = Inr ()"
    | "fld shape ''kind'' = pyl ''tuple''" | "fld shape ''kind'' = pyl ''record''"
    | "fld shape ''kind'' = pyl ''map''" | "fld shape ''kind'' = pyl ''variant''"
    by blast
  then show ?case
  proof cases
    case 1
    then consider "encodes TInt shape" | "encodes TBool shape" | "encodes TStr shape" | "encodes TNull shape"
      by auto
    then show ?thesis using d by cases (metis tdepth.simps add_0_right)+
  next
    case 2
    with IH obtain t where "encodes t (fld shape ''element'')" "d + 1 + tdepth t \<le> port_max_type_depth"
      by blast
    with 2 have "encodes (TSet t) shape \<or> encodes (TSeq t) shape" "d + tdepth (TSet t) \<le> port_max_type_depth"
      "d + tdepth (TSeq t) \<le> port_max_type_depth" by auto
    then show ?thesis by blast
  next
    case 3
    with cases have k: "obj shape [''kind'', ''elements'']" "is_List (fld shape ''elements'')"
      and el: "\<forall>item \<in> set (the_List (fld shape ''elements'')). port_type item (d + 1) = Inr ()" by auto
    from el IH have "\<forall>item \<in> set (the_List (fld shape ''elements'')).
        \<exists>t. encodes t item \<and> d + 1 + tdepth t \<le> port_max_type_depth" by blast
    from list_all2_ex [OF this] obtain ts where ts: "list_all2 (\<lambda>t item. encodes t item \<and>
        d + 1 + tdepth t \<le> port_max_type_depth) ts (the_List (fld shape ''elements''))" by blast
    then have "list_all2 encodes ts (the_List (fld shape ''elements''))" by (rule list_all2_mono) simp
    moreover have "\<forall>t \<in> set ts. d + 1 + tdepth t \<le> port_max_type_depth"
      using ts by (induction rule: list_all2_induct) auto
    ultimately have "encodes (TTuple ts) shape \<and> d + tdepth (TTuple ts) \<le> port_max_type_depth"
      using 3 k d by (simp add: add_maxl_le_iff)
    then show ?thesis by blast
  next
    case 4
    with cases have k: "obj shape [''kind'', ''fields'']" "is_List (fld shape ''fields'')"
      and m: "members_ok ''wireName'' ''type'' (d + 1) (the_List (fld shape ''fields''))" by auto
    from m IH obtain fs where "list_all2 (member_ok ''wireName'' ''type'') fs (the_List (fld shape ''fields''))"
      "distinct (map fst fs)" "\<forall>f \<in> set fs. d + 1 + tdepth (snd f) \<le> port_max_type_depth"
      by (rule members_ok_sound)
    with 4 k d have "encodes (TRecord fs) shape \<and> d + tdepth (TRecord fs) \<le> port_max_type_depth"
      unfolding encodes_members by (simp add: add_maxl_le_iff)
    then show ?thesis by blast
  next
    case 5
    with cases have k: "obj shape [''kind'', ''key'', ''value'']"
      "fld shape ''key'' = PDict [(lit ''kind'', pyl ''str'')]"
      and "port_type (fld shape ''value'') (d + 1) = Inr ()" by auto
    with IH obtain t where "encodes t (fld shape ''value'')" "d + 1 + tdepth t \<le> port_max_type_depth"
      by blast
    with 5 k have "encodes (TMap t) shape \<and> d + tdepth (TMap t) \<le> port_max_type_depth" by simp
    then show ?thesis by blast
  next
    case 6
    with cases have k: "obj shape [''kind'', ''cases'']" "is_List (fld shape ''cases'')"
      "the_List (fld shape ''cases'') \<noteq> []"
      and m: "members_ok ''tag'' ''payload'' (d + 1) (the_List (fld shape ''cases''))" by auto
    from m IH obtain fs where fs: "list_all2 (member_ok ''tag'' ''payload'') fs (the_List (fld shape ''cases''))"
      "distinct (map fst fs)" "\<forall>f \<in> set fs. d + 1 + tdepth (snd f) \<le> port_max_type_depth"
      by (rule members_ok_sound)
    then have "fs \<noteq> []" using k by auto
    with 6 k d fs have "encodes (TVariant fs) shape \<and> d + tdepth (TVariant fs) \<le> port_max_type_depth"
      unfolding encodes_members by (simp add: add_maxl_le_iff)
    then show ?thesis by blast
  qed
qed

lemma port_type_iff:
  "port_type shape d = Inr u \<longleftrightarrow> (\<exists>t. encodes t shape \<and> d + tdepth t \<le> port_max_type_depth)"
  using port_type_sound port_type_complete by (cases u) blast

section \<open>Typing and semantic equality of values\<close>

definition int_value :: "pystr \<Rightarrow> int" where
  "int_value s = (case s of c # r \<Rightarrow> if c = 45 then - int (digits_val r) else int (digits_val s) | [] \<Rightarrow> 0)"

definition entry_alist :: "pyval \<Rightarrow> (pystr \<times> pyval) list" where
  "entry_alist v = map (\<lambda>e. (the_Str (the_List e ! 0), the_List e ! 1)) (the_List (fld v ''#map''))"

function sem_eq :: "ptype \<Rightarrow> pyval \<Rightarrow> pyval \<Rightarrow> bool" where
  "sem_eq TInt v w \<longleftrightarrow> int_value (the_Str (fld v ''#bigint'')) = int_value (the_Str (fld w ''#bigint''))"
| "sem_eq TBool v w \<longleftrightarrow> v = w"
| "sem_eq TStr v w \<longleftrightarrow> v = w"
| "sem_eq TNull v w \<longleftrightarrow> v = w"
| "sem_eq (TSet t) v w \<longleftrightarrow>
     (\<forall>x \<in> set (the_List (fld v ''#set'')). \<exists>y \<in> set (the_List (fld w ''#set'')). sem_eq t x y) \<and>
     (\<forall>y \<in> set (the_List (fld w ''#set'')). \<exists>x \<in> set (the_List (fld v ''#set'')). sem_eq t x y)"
| "sem_eq (TSeq t) v w \<longleftrightarrow> list_all2 (sem_eq t) (the_List v) (the_List w)"
| "sem_eq (TTuple ts) v w \<longleftrightarrow>
     (\<forall>p \<in> set (zip ts (zip (the_List (fld v ''#tup'')) (the_List (fld w ''#tup'')))).
        sem_eq (fst p) (fst (snd p)) (snd (snd p)))"
| "sem_eq (TRecord fs) v w \<longleftrightarrow>
     (\<forall>f \<in> set fs. sem_eq (snd f) (the (dget v (fst f))) (the (dget w (fst f))))"
| "sem_eq (TMap t) v w \<longleftrightarrow>
     fst ` set (entry_alist v) = fst ` set (entry_alist w) \<and>
     (\<forall>p \<in> set (entry_alist v). \<forall>q \<in> set (entry_alist w). fst p = fst q \<longrightarrow> sem_eq t (snd p) (snd q))"
| "sem_eq (TVariant cs) v w \<longleftrightarrow> fld v ''tag'' = fld w ''tag'' \<and>
     (\<forall>c \<in> set cs. fld v ''tag'' = PStr (fst c) \<longrightarrow> sem_eq (snd c) (fld v ''value'') (fld w ''value''))"
  by pat_completeness auto
termination
  by (relation "measure (\<lambda>(t, v, w). size t)")
    (auto simp: less_Suc_eq_le dest!: set_zip_leftD intro: size_list_estimation' size_list_estimation)

end
