(* ===== verification/PortSemantics.thy ===== *)
theory PortSemantics
  imports PortTyping
begin

text \<open>
  The value validator against the typing of \<open>PortTyping\<close>.  \<open>keyed\<close> says that a validator accepts
  exactly the values of a type, that its keys decide semantic equality and that its errors are
  \<^verbatim>\<open>VALUE\<close> errors; every type constructor preserves it (\<open>keyed_set\<close> to \<open>keyed_variant\<close>), which gives
  \<open>port_value_keyed\<close> for every validated shape by induction on the type.
\<close>

function has_type :: "ptype \<Rightarrow> pyval \<Rightarrow> bool" where
  "has_type TInt v \<longleftrightarrow>
     obj v [''#bigint''] \<and> is_Str (fld v ''#bigint'') \<and> re_integer (the_Str (fld v ''#bigint''))"
| "has_type TBool v \<longleftrightarrow> is_Bool v"
| "has_type TStr v \<longleftrightarrow> is_Str v"
| "has_type TNull v \<longleftrightarrow> is_None v"
| "has_type (TSet t) v \<longleftrightarrow>
     obj v [''#set''] \<and> is_List (fld v ''#set'') \<and>
     (\<forall>x \<in> set (the_List (fld v ''#set'')). has_type t x) \<and>
     sorted_wrt (\<lambda>x y. \<not> sem_eq t x y) (the_List (fld v ''#set''))"
| "has_type (TSeq t) v \<longleftrightarrow> is_List v \<and> (\<forall>x \<in> set (the_List v). has_type t x)"
| "has_type (TTuple ts) v \<longleftrightarrow>
     obj v [''#tup''] \<and> is_List (fld v ''#tup'') \<and> length (the_List (fld v ''#tup'')) = length ts \<and>
     (\<forall>p \<in> set (zip ts (the_List (fld v ''#tup''))). has_type (fst p) (snd p))"
| "has_type (TRecord fs) v \<longleftrightarrow>
     is_Dict v \<and> set (keys v) = fst ` set fs \<and> (\<forall>f \<in> set fs. has_type (snd f) (the (dget v (fst f))))"
| "has_type (TMap t) v \<longleftrightarrow>
     obj v [''#map''] \<and> is_List (fld v ''#map'') \<and>
     (\<forall>e \<in> set (the_List (fld v ''#map'')). is_List e \<and> length (the_List e) = 2 \<and>
        is_Str (the_List e ! 0) \<and> has_type t (the_List e ! 1)) \<and>
     distinct (map fst (entry_alist v))"
| "has_type (TVariant cs) v \<longleftrightarrow>
     obj v [''tag'', ''value''] \<and> (\<exists>c \<in> set cs. fld v ''tag'' = PStr (fst c) \<and> has_type (snd c) (fld v ''value''))"
  by pat_completeness auto
termination
  by (relation "measure (\<lambda>(t, v). size t)")
    (auto simp: less_Suc_eq_le dest!: set_zip_leftD intro: size_list_estimation' size_list_estimation)

definition keyed :: "ptype \<Rightarrow> (pyval \<Rightarrow> skey res) \<Rightarrow> bool" where
  "keyed t f \<longleftrightarrow>
     (\<forall>v. (\<exists>k. f v = Inr k) \<longleftrightarrow> has_type t v) \<and>
     (\<forall>v w k l. f v = Inr k \<longrightarrow> f w = Inr l \<longrightarrow> (k = l \<longleftrightarrow> sem_eq t v w)) \<and>
     (\<forall>v e. f v = Inl e \<longrightarrow> (\<exists>m. e = ProtocolError ''VALUE'' m))"

lemma keyed_typed: "keyed t f \<Longrightarrow> (\<exists>k. f v = Inr k) \<longleftrightarrow> has_type t v"
  by (simp add: keyed_def)

lemma keyed_eq: "keyed t f \<Longrightarrow> f v = Inr k \<Longrightarrow> f w = Inr l \<Longrightarrow> k = l \<longleftrightarrow> sem_eq t v w"
  by (simp add: keyed_def)

lemma keyed_error: "keyed t f \<Longrightarrow> f v = Inl e \<Longrightarrow> \<exists>m. e = ProtocolError ''VALUE'' m"
  by (simp add: keyed_def)

lemma keyedI:
  assumes "\<And>v. (\<exists>k. f v = Inr k) \<longleftrightarrow> has_type t v"
    and "\<And>v w k l. f v = Inr k \<Longrightarrow> f w = Inr l \<Longrightarrow> k = l \<longleftrightarrow> sem_eq t v w"
    and "\<And>v e. f v = Inl e \<Longrightarrow> \<exists>m. e = ProtocolError ''VALUE'' m"
  shows "keyed t f"
  using assms by (simp add: keyed_def)

section \<open>Lists of keyed values\<close>

lemma mapE_Inl: "mapE f xs = Inl e \<Longrightarrow> \<exists>x \<in> set xs. f x = Inl e"
  by (induction xs) (auto simp: bindE_eq_Inl)

lemma mapE_total: "(\<exists>ks. mapE f xs = Inr ks) \<longleftrightarrow> (\<forall>x \<in> set xs. \<exists>k. f x = Inr k)"
  by (induction xs) (auto simp: bindE_eq_Inr)

lemma mapE_set:
  assumes "mapE f xs = Inr ks"
  shows "x \<in> set xs \<Longrightarrow> \<exists>k \<in> set ks. f x = Inr k" "k \<in> set ks \<Longrightarrow> \<exists>x \<in> set xs. f x = Inr k"
proof -
  have "list_all2 (\<lambda>x k. f x = Inr k) xs ks" using assms by (simp add: mapE_Inr_iff)
  then show "x \<in> set xs \<Longrightarrow> \<exists>k \<in> set ks. f x = Inr k" "k \<in> set ks \<Longrightarrow> \<exists>x \<in> set xs. f x = Inr k"
    by (induction rule: list_all2_induct) auto
qed

lemma keyed_distinct:
  assumes "keyed t f" "mapE f xs = Inr ks"
  shows "distinct ks \<longleftrightarrow> sorted_wrt (\<lambda>x y. \<not> sem_eq t x y) xs"
proof -
  from assms(2) show ?thesis
  proof (induction xs arbitrary: ks)
    case (Cons x xs)
    then obtain k ls where k: "f x = Inr k" and ls: "mapE f xs = Inr ls" and ks: "ks = k # ls"
      by (auto simp: bindE_eq_Inr)
    have "k \<in> set ls \<longleftrightarrow> (\<exists>y \<in> set xs. sem_eq t x y)"
      using mapE_set [OF ls] keyed_eq [OF assms(1) k] by blast
    with Cons.IH [OF ls] ks show ?case by auto
  qed simp
qed

lemma keyed_set_eq:
  assumes "keyed t f" "mapE f xs = Inr ks" "mapE f ys = Inr ls"
  shows "set ks = set ls \<longleftrightarrow>
    (\<forall>x \<in> set xs. \<exists>y \<in> set ys. sem_eq t x y) \<and> (\<forall>y \<in> set ys. \<exists>x \<in> set xs. sem_eq t x y)"
proof -
  note ks = mapE_set [OF assms(2)] and ls = mapE_set [OF assms(3)] and eq = keyed_eq [OF assms(1)]
  have "set ks \<subseteq> set ls \<longleftrightarrow> (\<forall>x \<in> set xs. \<exists>y \<in> set ys. sem_eq t x y)"
  proof
    assume sub: "set ks \<subseteq> set ls"
    show "\<forall>x \<in> set xs. \<exists>y \<in> set ys. sem_eq t x y"
    proof
      fix x
      assume "x \<in> set xs"
      with ks(1) sub obtain k where "k \<in> set ls" "f x = Inr k" by blast
      with ls(2) eq show "\<exists>y \<in> set ys. sem_eq t x y" by blast
    qed
  next
    assume R: "\<forall>x \<in> set xs. \<exists>y \<in> set ys. sem_eq t x y"
    show "set ks \<subseteq> set ls"
    proof
      fix k
      assume "k \<in> set ks"
      with ks(2) R obtain x y where "f x = Inr k" "y \<in> set ys" "sem_eq t x y" by meson
      with ls(1) eq show "k \<in> set ls" by blast
    qed
  qed
  moreover have "set ls \<subseteq> set ks \<longleftrightarrow> (\<forall>y \<in> set ys. \<exists>x \<in> set xs. sem_eq t x y)"
  proof
    assume sub: "set ls \<subseteq> set ks"
    show "\<forall>y \<in> set ys. \<exists>x \<in> set xs. sem_eq t x y"
    proof
      fix y
      assume "y \<in> set ys"
      with ls(1) sub obtain l where "l \<in> set ks" "f y = Inr l" by blast
      with ks(2) eq show "\<exists>x \<in> set xs. sem_eq t x y" by blast
    qed
  next
    assume R: "\<forall>y \<in> set ys. \<exists>x \<in> set xs. sem_eq t x y"
    show "set ls \<subseteq> set ks"
    proof
      fix l
      assume "l \<in> set ls"
      with ls(2) R obtain x y where "f y = Inr l" "x \<in> set xs" "sem_eq t x y" by meson
      with ks(1) eq show "l \<in> set ks" by blast
    qed
  qed
  ultimately show ?thesis by blast
qed

lemma keyed_list_eq:
  assumes "keyed t f" "mapE f xs = Inr ks" "mapE f ys = Inr ls"
  shows "ks = ls \<longleftrightarrow> list_all2 (sem_eq t) xs ys"
proof -
  from assms(2,3) show ?thesis
  proof (induction xs arbitrary: ks ys ls)
    case Nil
    then show ?case by (cases ys) (auto simp: bindE_eq_Inr)
  next
    case (Cons x xs)
    then obtain k ks' where k: "f x = Inr k" "mapE f xs = Inr ks'" "ks = k # ks'"
      by (auto simp: bindE_eq_Inr)
    show ?case
    proof (cases ys)
      case Nil
      with Cons k show ?thesis by auto
    next
      case (Cons y ys')
      then obtain l ls' where l: "f y = Inr l" "mapE f ys' = Inr ls'" "ls = l # ls'"
        using Cons.prems by (auto simp: bindE_eq_Inr)
      show ?thesis
        using Cons.IH [OF k(2) l(2)] keyed_eq [OF assms(1) k(1) l(1)] k l Cons by simp
    qed
  qed
qed

section \<open>The scalar types\<close>

lemma fset_of_list_eq: "fset_of_list xs = fset_of_list ys \<longleftrightarrow> set xs = set ys"
  by (metis fset_of_list.rep_eq fset_inject)

lemma port_object_Inl: "port_object v ks c = Inl e \<Longrightarrow> \<exists>m. e = ProtocolError c m"
  by (auto simp: port_object_def seqE_Cons_unfold bindE_eq_Inl guardE_eq_Inl split: option.splits)

lemma digits_val_Cons: "digits_val (c # s) = (c - 48) * 10 ^ length s + digits_val s"
proof (induction s rule: rev_induct)
  case (snoc x xs)
  have "digits_val (c # xs @ [x]) = digits_val (c # xs) * 10 + (x - 48)"
    using digits_val_append [of "c # xs" x] by simp
  with snoc show ?case by (simp add: digits_val_append algebra_simps)
qed (simp add: digits_val_def)

lemma digits_val_less: "list_all is_digit s \<Longrightarrow> digits_val s < 10 ^ length s"
proof (induction s)
  case (Cons c s)
  then have "c - 48 \<le> 9" by (auto simp: is_digit_def)
  then have "(c - 48) * 10 ^ length s \<le> 9 * 10 ^ length s" by simp
  moreover have "digits_val s < 10 ^ length s" using Cons by simp
  moreover have "(10::nat) ^ length (c # s) = 9 * 10 ^ length s + 10 ^ length s" by simp
  ultimately show ?case unfolding digits_val_Cons by linarith
qed (simp add: digits_val_def)

lemma digits_val_inj:
  "list_all is_digit s \<Longrightarrow> list_all is_digit t \<Longrightarrow> length s = length t \<Longrightarrow> digits_val s = digits_val t \<Longrightarrow> s = t"
proof (induction s arbitrary: t)
  case (Cons c s)
  then obtain d u where t: "t = d # u" by (cases t) auto
  with Cons have len: "length u = length s" and ds: "digits_val s < 10 ^ length s" "digits_val u < 10 ^ length s"
    by (auto dest: digits_val_less)
  have eq: "(c - 48) * 10 ^ length s + digits_val s = (d - 48) * 10 ^ length s + digits_val u"
    using Cons.prems t len by (simp add: digits_val_Cons)
  have "((c - 48) * 10 ^ length s + digits_val s) div 10 ^ length s = c - 48"
    "((d - 48) * 10 ^ length s + digits_val u) div 10 ^ length s = d - 48"
    using ds by simp_all
  with eq have "c - 48 = d - 48" by simp
  then have "c = d" using Cons.prems t by (auto simp: is_digit_def)
  with eq have "digits_val s = digits_val u" by simp
  with Cons t \<open>c = d\<close> show ?case by auto
qed simp

lemma canonical_digits:
  assumes "list_all is_digit (c # s)" "c \<noteq> 48"
  shows "10 ^ length s \<le> digits_val (c # s) \<and> digits_val (c # s) < 10 ^ Suc (length s)"
proof -
  have "1 \<le> c - 48" using assms by (auto simp: is_digit_def)
  then have "1 * 10 ^ length s \<le> (c - 48) * 10 ^ length s" by (rule mult_le_mono1)
  then have "10 ^ length s \<le> digits_val (c # s)" unfolding digits_val_Cons by linarith
  then show ?thesis using digits_val_less [OF assms(1)] by simp
qed

lemma canonical_inj:
  assumes "list_all is_digit (c # s)" "c \<noteq> 48" "list_all is_digit (d # t)" "d \<noteq> 48"
    "digits_val (c # s) = digits_val (d # t)"
  shows "c # s = d # t"
proof -
  have len: "length s \<le> length t" if "digits_val (c # s) < 10 ^ Suc (length t)"
    "10 ^ length s \<le> digits_val (c # s)" for c s and t :: pystr
  proof -
    have "(10::nat) ^ length s < 10 ^ Suc (length t)" using that by linarith
    then show ?thesis by (simp add: power_strict_increasing_iff del: power_Suc)
  qed
  have "length s = length t"
    using len [of c s t] len [of d t s] canonical_digits [OF assms(1,2)] canonical_digits [OF assms(3,4)]
      assms(5) by simp
  then show ?thesis using digits_val_inj [OF assms(1,3)] assms(5) by simp
qed

lemma re_integer_cases:
  assumes "re_integer s"
  obtains (zero) "s = [48]"
  | (pos) c r where "s = c # r" "list_all is_digit (c # r)" "c \<noteq> 48" "c \<noteq> 45"
  | (neg) c r where "s = 45 # c # r" "list_all is_digit (c # r)" "c \<noteq> 48"
proof (cases "s = [48]")
  case False
  with assms obtain c r where s: "s = c # r" by (cases s) (auto simp: re_integer_def)
  show ?thesis
  proof (cases "c = 45")
    case True
    with False s assms obtain d u where "r = d # u" by (cases r) (auto simp: re_integer_def)
    with True False s assms show ?thesis by (intro neg [of d u]) (auto simp: re_integer_def)
  next
    case False
    with \<open>s \<noteq> [48]\<close> s assms show ?thesis by (intro pos [of c r]) (auto simp: re_integer_def)
  qed
qed (rule zero)

lemma int_value_simps:
  "int_value [48] = 0"
  "c \<noteq> 45 \<Longrightarrow> int_value (c # r) = int (digits_val (c # r))"
  "int_value (45 # r) = - int (digits_val r)"
  by (simp_all add: int_value_def digits_val_def)

lemma canonical_pos:
  assumes "list_all is_digit (c # r)" "c \<noteq> 48"
  shows "0 < digits_val (c # r)"
  using canonical_digits [OF assms] by (meson less_le_trans zero_less_numeral zero_less_power)

lemma int_value_inj:
  assumes "re_integer s" "re_integer t"
  shows "s = t \<longleftrightarrow> int_value s = int_value t"
proof
  assume eq: "int_value s = int_value t"
  have sign: "int_value s = 0 \<longleftrightarrow> s = [48]" "0 < int_value s \<longleftrightarrow> hd s \<noteq> 45 \<and> s \<noteq> [48]"
    if "re_integer s" for s
    using that
    by (cases rule: re_integer_cases; use canonical_pos in \<open>fastforce simp: int_value_simps\<close>)+
  consider "int_value s = 0" | "0 < int_value s" | "int_value s < 0" by linarith
  then show "s = t"
  proof cases
    case 1
    then show ?thesis using sign(1) [OF assms(1)] sign(1) [OF assms(2)] eq by simp
  next
    case 2
    then have "hd s \<noteq> 45 \<and> s \<noteq> [48]" "hd t \<noteq> 45 \<and> t \<noteq> [48]"
      using sign(2) [OF assms(1)] sign(2) [OF assms(2)] eq by auto
    moreover obtain c r where "s = c # r" "list_all is_digit (c # r)" "c \<noteq> 48" "c \<noteq> 45"
      using assms(1) calculation by (cases rule: re_integer_cases) auto
    moreover obtain d u where "t = d # u" "list_all is_digit (d # u)" "d \<noteq> 48" "d \<noteq> 45"
      using assms(2) calculation by (cases rule: re_integer_cases) auto
    ultimately show ?thesis
      using eq canonical_inj [of c r d u] by (simp add: int_value_simps)
  next
    case 3
    then have "\<not> (hd s \<noteq> 45 \<and> s \<noteq> [48])" "s \<noteq> [48]" "\<not> (hd t \<noteq> 45 \<and> t \<noteq> [48])" "t \<noteq> [48]"
      using sign [OF assms(1)] sign [OF assms(2)] eq by auto
    moreover obtain c r where "s = 45 # c # r" "list_all is_digit (c # r)" "c \<noteq> 48"
      using assms(1) calculation by (cases rule: re_integer_cases) auto
    moreover obtain d u where "t = 45 # d # u" "list_all is_digit (d # u)" "d \<noteq> 48"
      using assms(2) calculation by (cases rule: re_integer_cases) auto
    ultimately show ?thesis
      using eq canonical_inj [of c r d u] by (simp add: int_value_simps)
  qed
qed simp

lemma keyed_int:
  "keyed TInt (\<lambda>v. bindE (port_object v (exactly [''#bigint'']) ''VALUE'') (\<lambda>_.
     let number = fld v ''#bigint'' in
     if is_Str number \<and> re_integer (the_Str number) then Inr (KInt (the_Str number))
     else vfail ''integer must be a canonical decimal string''))"
  by (rule keyedI)
    (auto simp: Let_def bindE_eq_Inr bindE_eq_Inl port_object_obj int_value_inj
      dest: port_object_Inl split: if_splits)

lemma keyed_bool: "keyed TBool (\<lambda>v. if is_Bool v then Inr (KBool (the_Bool v)) else vfail m)"
  by (rule keyedI) (auto simp: is_Bool_def split: if_splits)

lemma keyed_str: "keyed TStr (\<lambda>v. if is_Str v then Inr (KStr (the_Str v)) else vfail m)"
  by (rule keyedI) (auto simp: is_Str_def split: if_splits)

lemma keyed_null: "keyed TNull (\<lambda>v. if is_None v then Inr KNull else vfail m)"
  by (rule keyedI) (auto simp: is_None_def split: if_splits)

section \<open>The collection types\<close>

lemma keyed_total: "keyed t f \<Longrightarrow> (\<exists>ks. mapE f xs = Inr ks) \<longleftrightarrow> (\<forall>x \<in> set xs. has_type t x)"
  by (simp add: mapE_total keyed_typed)

lemma keyed_list_error: "keyed t f \<Longrightarrow> mapE f xs = Inl e \<Longrightarrow> \<exists>m. e = ProtocolError ''VALUE'' m"
  using mapE_Inl [of f xs e] keyed_error [of t f _ e] by blast

lemma keyed_set:
  assumes "keyed t f"
  shows "keyed (TSet t) (\<lambda>v. bindE (port_object v (exactly [''#set'']) ''VALUE'') (\<lambda>_.
    let values = fld v ''#set'' in
    if \<not> is_List values then vfail ''expected collection array''
    else bindE (mapE f (the_List values)) (\<lambda>ks.
      if distinct ks then Inr (KSet (fset_of_list ks)) else vfail ''duplicate set member'')))"
    (is "keyed _ ?g")
proof (rule keyedI)
  have acc: "?g v = Inr k \<longleftrightarrow> obj v [''#set''] \<and> is_List (fld v ''#set'') \<and>
      (\<exists>ks. mapE f (the_List (fld v ''#set'')) = Inr ks \<and> distinct ks \<and> k = KSet (fset_of_list ks))" for v k
    by (auto simp: Let_def bindE_eq_Inr port_object_obj split: if_splits)
  show "(\<exists>k. ?g v = Inr k) \<longleftrightarrow> has_type (TSet t) v" for v
    unfolding acc has_type.simps
    using keyed_total [OF assms, of "the_List (fld v ''#set'')"]
      keyed_distinct [OF assms, of "the_List (fld v ''#set'')"] by blast
  show "k = l \<longleftrightarrow> sem_eq (TSet t) v w" if "?g v = Inr k" "?g w = Inr l" for v w k l
  proof -
    from that(1) [unfolded acc] obtain ks where "mapE f (the_List (fld v ''#set'')) = Inr ks"
      "k = KSet (fset_of_list ks)" by blast
    moreover from that(2) [unfolded acc] obtain ls where "mapE f (the_List (fld w ''#set'')) = Inr ls"
      "l = KSet (fset_of_list ls)" by blast
    ultimately show ?thesis using keyed_set_eq [OF assms] by (simp add: fset_of_list_eq)
  qed
  show "\<exists>m. e = ProtocolError ''VALUE'' m" if "?g v = Inl e" for v e
    using that keyed_list_error [OF assms]
    by (auto simp: Let_def bindE_eq_Inl dest: port_object_Inl split: if_splits)
qed

lemma keyed_seq:
  assumes "keyed t f"
  shows "keyed (TSeq t) (\<lambda>v. if \<not> is_List v then vfail ''expected collection array''
    else bindE (mapE f (the_List v)) (\<lambda>ks. Inr (KSeq ks)))" (is "keyed _ ?g")
proof (rule keyedI)
  have acc: "?g v = Inr k \<longleftrightarrow> is_List v \<and> (\<exists>ks. mapE f (the_List v) = Inr ks \<and> k = KSeq ks)" for v k
    by (auto simp: bindE_eq_Inr)
  show "(\<exists>k. ?g v = Inr k) \<longleftrightarrow> has_type (TSeq t) v" for v
    unfolding acc has_type.simps using keyed_total [OF assms, of "the_List v"] by blast
  show "k = l \<longleftrightarrow> sem_eq (TSeq t) v w" if "?g v = Inr k" "?g w = Inr l" for v w k l
    using that keyed_list_eq [OF assms] unfolding acc sem_eq.simps by auto
  show "\<exists>m. e = ProtocolError ''VALUE'' m" if "?g v = Inl e" for v e
    using that keyed_list_error [OF assms] by (auto simp: bindE_eq_Inl split: if_splits)
qed

section \<open>Tuples, records, maps and variants\<close>

definition positional :: "(pyval \<Rightarrow> pyval \<Rightarrow> skey res) \<Rightarrow> pyval list \<Rightarrow> pyval list \<Rightarrow> skey list res" where
  "positional F ss xs = mapE (\<lambda>tx. F (fst tx) (snd tx)) (zip ss xs)"

lemma positional_Cons:
  "positional F (s # ss) (x # xs) = bindE (F s x) (\<lambda>k. bindE (positional F ss xs) (\<lambda>ks. Inr (k # ks)))"
  by (simp add: positional_def)

lemma positional_Nil: "positional F [] xs = Inr []"
  by (simp add: positional_def)

lemma positional_total:
  assumes "list_all2 (\<lambda>t s. keyed t (F s)) ts ss" "length xs = length ss"
  shows "(\<exists>ks. positional F ss xs = Inr ks) \<longleftrightarrow> (\<forall>p \<in> set (zip ts xs). has_type (fst p) (snd p))"
  using assms
proof (induction arbitrary: xs rule: list_all2_induct)
  case (Cons t ts s ss)
  from Cons.prems obtain y ys where "xs = y # ys" "length ys = length ss" by (cases xs) auto
  moreover from this Cons.IH have "(\<exists>ks. positional F ss ys = Inr ks) \<longleftrightarrow>
      (\<forall>p \<in> set (zip ts ys). has_type (fst p) (snd p))" by blast
  ultimately show ?case
    using keyed_typed [OF Cons(1), of y] by (simp add: positional_Cons bindE_eq_Inr) blast
qed (simp add: positional_Nil)

lemma positional_error:
  assumes "list_all2 (\<lambda>t s. keyed t (F s)) ts ss" "length xs = length ss" "positional F ss xs = Inl e"
  shows "\<exists>m. e = ProtocolError ''VALUE'' m"
  using assms
proof (induction arbitrary: xs rule: list_all2_induct)
  case (Cons t ts s ss)
  from Cons.prems(1) obtain y ys where xs: "xs = y # ys" "length ys = length ss" by (cases xs) auto
  from Cons.prems(2) have "F s y = Inl e \<or> positional F ss ys = Inl e"
    by (auto simp: xs(1) positional_Cons bindE_eq_Inl)
  then show ?case using keyed_error [OF Cons(1)] Cons.IH [OF xs(2)] by blast
qed (simp add: positional_Nil)

lemma positional_length: "positional F ss xs = Inr ks \<Longrightarrow> length xs = length ss \<Longrightarrow> length ks = length ss"
  by (auto simp: positional_def mapE_Inr_iff dest: list_all2_lengthD)

lemma positional_eq:
  assumes "list_all2 (\<lambda>t s. keyed t (F s)) ts ss" "length xs = length ss" "length ys = length ss"
    "positional F ss xs = Inr ks" "positional F ss ys = Inr ls"
  shows "ks = ls \<longleftrightarrow> (\<forall>p \<in> set (zip ts (zip xs ys)). sem_eq (fst p) (fst (snd p)) (snd (snd p)))"
  using assms
proof (induction arbitrary: xs ys ks ls rule: list_all2_induct)
  case (Cons t ts s ss)
  from Cons.prems(1) obtain x xs' where xs: "xs = x # xs'" "length xs' = length ss" by (cases xs) auto
  from Cons.prems(2) obtain y ys' where ys: "ys = y # ys'" "length ys' = length ss" by (cases ys) auto
  from Cons.prems(3) xs(1) obtain k ks' where k: "F s x = Inr k" "positional F ss xs' = Inr ks'" "ks = k # ks'"
    by (auto simp: positional_Cons bindE_eq_Inr)
  from Cons.prems(4) ys(1) obtain l ls' where l: "F s y = Inr l" "positional F ss ys' = Inr ls'" "ls = l # ls'"
    by (auto simp: positional_Cons bindE_eq_Inr)
  from Cons.IH [OF xs(2) ys(2) k(2) l(2)] keyed_eq [OF Cons(1) k(1) l(1)] show ?case
    by (simp add: xs ys k l)
qed (simp add: positional_Nil)

lemma keyed_tuple:
  assumes K: "list_all2 (\<lambda>t s. keyed t (F s)) ts ss"
  shows "keyed (TTuple ts) (\<lambda>v. bindE (port_object v (exactly [''#tup'']) ''VALUE'') (\<lambda>_.
    let values = fld v ''#tup'' in
    if \<not> is_List values then vfail ''expected collection array''
    else if length (the_List values) \<noteq> length ss then vfail ''tuple arity does not match''
    else bindE (positional F ss (the_List values)) (\<lambda>ks. Inr (KTuple ks))))" (is "keyed _ ?g")
proof (rule keyedI)
  have len: "length ts = length ss" using K by (rule list_all2_lengthD)
  have acc: "?g v = Inr k \<longleftrightarrow> obj v [''#tup''] \<and> is_List (fld v ''#tup'') \<and>
      length (the_List (fld v ''#tup'')) = length ss \<and>
      (\<exists>ks. positional F ss (the_List (fld v ''#tup'')) = Inr ks \<and> k = KTuple ks)" for v k
    by (auto simp: Let_def bindE_eq_Inr port_object_obj split: if_splits)
  show "(\<exists>k. ?g v = Inr k) \<longleftrightarrow> has_type (TTuple ts) v" for v
    unfolding acc has_type.simps len
    using positional_total [OF K, of "the_List (fld v ''#tup'')"] by blast
  show "k = l \<longleftrightarrow> sem_eq (TTuple ts) v w" if "?g v = Inr k" "?g w = Inr l" for v w k l
    using that(1) [unfolded acc] that(2) [unfolded acc]
      positional_eq [OF K, of "the_List (fld v ''#tup'')" "the_List (fld w ''#tup'')"] by auto
  show "\<exists>m. e = ProtocolError ''VALUE'' m" if "?g v = Inl e" for v e
    using that positional_error [OF K]
    by (auto simp: Let_def bindE_eq_Inl dest: port_object_Inl split: if_splits)
qed

definition named :: "(pyval \<Rightarrow> pyval \<Rightarrow> skey res) \<Rightarrow> (pystr \<Rightarrow> pyval) \<Rightarrow> (pystr \<times> pyval) list \<Rightarrow> (pystr \<times> skey) list res" where
  "named F h nss = mapE (\<lambda>ns. bindE (F (snd ns) (h (fst ns))) (\<lambda>k. Inr (fst ns, k))) nss"

lemma named_positional:
  "named F h nss = bindE (positional F (map snd nss) (map (\<lambda>p. h (fst p)) nss)) (\<lambda>ks. Inr (zip (map fst nss) ks))"
proof (induction nss)
  case (Cons p nss)
  show ?case
    by (cases "F (snd p) (h (fst p))"; cases "positional F (map snd nss) (map (\<lambda>p. h (fst p)) nss)")
      (use Cons in \<open>auto simp: named_def positional_Cons\<close>)
qed (simp add: named_def positional_Nil)

lemma map_zip_fst: "length ns = length ss \<Longrightarrow> map (\<lambda>p. h (fst p)) (zip ns ss) = map h ns"
  by (induction rule: list_induct2) auto

lemma set_zip_eq:
  "distinct ns \<Longrightarrow> length ks = length ns \<Longrightarrow> length ls = length ns \<Longrightarrow>
     set (zip ns ks) = set (zip ns ls) \<longleftrightarrow> ks = ls"
proof
  assume a: "distinct ns" "length ks = length ns" "length ls = length ns" "set (zip ns ks) = set (zip ns ls)"
  have "ks ! i = ls ! i" if i: "i < length ns" for i
  proof -
    have "(ns ! i, ks ! i) \<in> set (zip ns ks)" using a(2) i by (auto simp: set_zip)
    then have "(ns ! i, ks ! i) \<in> set (zip ns ls)" using a(4) by simp
    then obtain j where "j < length ns" "ns ! j = ns ! i" "ls ! j = ks ! i" by (auto simp: set_zip)
    with a(1) i show ?thesis by (auto simp: nth_eq_iff_index_eq)
  qed
  with a show "ks = ls" by (simp add: list_eq_iff_nth_eq)
qed simp

lemma keyed_record:
  assumes K: "list_all2 (\<lambda>f s. keyed (snd f) (F s)) fs ss" and dist: "distinct (map fst fs)"
  shows "keyed (TRecord fs) (\<lambda>v. bindE (seqE [port_object v None ''VALUE'',
      guardE (set (map PStr (keys v)) = set (map (\<lambda>f. PStr (fst f)) fs))
        (ProtocolError ''VALUE'' ''object fields do not match contract'')]) (\<lambda>_.
    bindE (named F (\<lambda>n. the (dget v n)) (zip (map fst fs) ss)) (\<lambda>kvs. Inr (KRecord (fset_of_list kvs)))))"
    (is "keyed _ ?g")
proof (rule keyedI)
  have len: "length fs = length ss" using K by (rule list_all2_lengthD)
  let ?xs = "\<lambda>v. map (\<lambda>f. the (dget v (fst f))) fs"
  have K': "list_all2 (\<lambda>t s. keyed t (F s)) (map snd fs) ss"
    using K by (simp add: list_all2_map1)
  have zs: "map (\<lambda>p. the (dget v (fst p))) (zip (map fst fs) ss) = ?xs v" for v
    using map_zip_fst [of "map fst fs" ss "\<lambda>n. the (dget v n)"] len by (simp add: comp_def)
  have keys: "set (map PStr (keys v)) = set (map (\<lambda>f. PStr (fst f)) fs) \<longleftrightarrow> set (keys v) = fst ` set fs" for v
    by (simp add: image_image [symmetric, of PStr fst] inj_image_eq_iff [of PStr] inj_def)
  have acc: "?g v = Inr k \<longleftrightarrow> is_Dict v \<and> set (keys v) = fst ` set fs \<and>
      (\<exists>ks. positional F ss (?xs v) = Inr ks \<and> k = KRecord (fset_of_list (zip (map fst fs) ks)))" for v k
    using len by (auto simp: bindE_eq_Inr port_object_any named_positional zs keys simp del: set_map)
  show "(\<exists>k. ?g v = Inr k) \<longleftrightarrow> has_type (TRecord fs) v" for v
    unfolding acc has_type.simps using positional_total [OF K', of "?xs v"] len
    by (simp add: zip_map_map zip_same_conv_map)
  show "k = l \<longleftrightarrow> sem_eq (TRecord fs) v w" if "?g v = Inr k" "?g w = Inr l" for v w k l
  proof -
    from that(1) [unfolded acc] obtain ks where ks: "positional F ss (?xs v) = Inr ks"
      "k = KRecord (fset_of_list (zip (map fst fs) ks))" by blast
    from that(2) [unfolded acc] obtain ls where ls: "positional F ss (?xs w) = Inr ls"
      "l = KRecord (fset_of_list (zip (map fst fs) ls))" by blast
    have "k = l \<longleftrightarrow> ks = ls"
      using ks ls positional_length [OF ks(1)] positional_length [OF ls(1)] len
      by (simp add: fset_of_list_eq set_zip_eq [OF dist])
    also have "\<dots> \<longleftrightarrow> sem_eq (TRecord fs) v w"
      using positional_eq [OF K' _ _ ks(1) ls(1)] len
      by (simp add: zip_map_map zip_same_conv_map)
    finally show ?thesis .
  qed
  show "\<exists>m. e = ProtocolError ''VALUE'' m" if "?g v = Inl e" for v e
    using that positional_error [OF K', of "?xs v"] len
    by (auto simp: bindE_eq_Inl seqE_Cons_unfold guardE_eq_Inl named_positional zs dest: port_object_Inl)
qed

definition entry_ok :: "pyval \<Rightarrow> bool" where
  "entry_ok e \<longleftrightarrow> is_List e \<and> length (the_List e) = 2 \<and> is_Str (the_List e ! 0)"

abbreviation entry_key :: "pyval \<Rightarrow> pystr" where
  "entry_key e \<equiv> the_Str (the_List e ! 0)"

lemma map_entries_Inr:
  "map_entries f seen es = Inr kvs \<longleftrightarrow>
     (\<forall>e \<in> set es. entry_ok e) \<and> distinct (map entry_key es) \<and> set (map entry_key es) \<inter> seen = {} \<and>
     (\<exists>ks. mapE (\<lambda>e. f (the_List e ! 1)) es = Inr ks \<and> kvs = zip (map entry_key es) ks)"
proof (induction es arbitrary: seen kvs)
  case (Cons e es)
  let ?k = "entry_key e"
  have "map_entries f seen (e # es) = Inr kvs \<longleftrightarrow> entry_ok e \<and> ?k \<notin> seen \<and>
      (\<exists>x xs. f (the_List e ! 1) = Inr x \<and> map_entries f (insert ?k seen) es = Inr xs \<and> kvs = (?k, x) # xs)"
    by (auto simp: bindE_eq_Inr Let_def entry_ok_def)
  also have "\<dots> \<longleftrightarrow> entry_ok e \<and> ?k \<notin> seen \<and> (\<exists>x ks. f (the_List e ! 1) = Inr x \<and>
      (\<forall>e \<in> set es. entry_ok e) \<and> distinct (map entry_key es) \<and>
      set (map entry_key es) \<inter> insert ?k seen = {} \<and>
      mapE (\<lambda>e. f (the_List e ! 1)) es = Inr ks \<and> kvs = (?k, x) # zip (map entry_key es) ks)"
    unfolding Cons.IH by blast
  finally have step: "map_entries f seen (e # es) = Inr kvs \<longleftrightarrow> entry_ok e \<and> ?k \<notin> seen \<and> (\<exists>x ks.
      f (the_List e ! 1) = Inr x \<and> (\<forall>e \<in> set es. entry_ok e) \<and> distinct (map entry_key es) \<and>
      set (map entry_key es) \<inter> insert ?k seen = {} \<and>
      mapE (\<lambda>e. f (the_List e ! 1)) es = Inr ks \<and> kvs = (?k, x) # zip (map entry_key es) ks)" .
  have disj: "set (map entry_key es) \<inter> insert ?k seen = {} \<longleftrightarrow>
      ?k \<notin> set (map entry_key es) \<and> set (map entry_key es) \<inter> seen = {}" by auto
  show ?case
    unfolding step disj
    by (cases "f (the_List e ! 1)"; cases "mapE (\<lambda>e. f (the_List e ! 1)) es")
      (simp_all add: conj_ac del: map_entries.simps)
qed auto

lemma map_entries_Inl:
  "map_entries f seen es = Inl e \<Longrightarrow> (\<exists>m. e = ProtocolError ''VALUE'' m) \<or> (\<exists>x. f x = Inl e)"
  by (induction es arbitrary: seen) (auto simp: bindE_eq_Inl Let_def guardE_eq_Inl)

lemma nth_zip_mem: "i < length xs \<Longrightarrow> length ys = length xs \<Longrightarrow> (xs ! i, ys ! i) \<in> set (zip xs ys)"
  by (auto simp: set_zip)

lemma set_zip_map_eq:
  assumes d: "distinct ns" "distinct ms" "length ks = length ns" "length ls = length ms"
  shows "set (zip ns ks) = set (zip ms ls) \<longleftrightarrow> set ns = set ms \<and>
    (\<forall>i < length ns. \<forall>j < length ms. ns ! i = ms ! j \<longrightarrow> ks ! i = ls ! j)" (is "?L \<longleftrightarrow> ?R")
proof
  assume L: ?L
  have "set ns = set ms" using L d(3,4) by (metis list.set_map map_fst_zip)
  moreover have "ks ! i = ls ! j" if "i < length ns" "j < length ms" "ns ! i = ms ! j" for i j
  proof -
    have "(ns ! i, ks ! i) \<in> set (zip ns ks)" using that(1) d(3) by (auto simp: set_zip)
    then have "(ns ! i, ks ! i) \<in> set (zip ms ls)" using L by simp
    then obtain j' where "j' < length ms" "ms ! j' = ns ! i" "ls ! j' = ks ! i" by (auto simp: set_zip)
    with that d(2) show ?thesis by (auto simp: nth_eq_iff_index_eq)
  qed
  ultimately show ?R by blast
next
  assume R: ?R
  have sub: "set (zip ns ks) \<subseteq> set (zip ms ls)"
  proof (rule subsetI)
    fix p
    assume "p \<in> set (zip ns ks)"
    then obtain i where i: "i < length ns" "p = (ns ! i, ks ! i)" using d by (auto simp: set_zip)
    then obtain j where j: "j < length ms" "ms ! j = ns ! i" using R by (metis in_set_conv_nth)
    then have "p = (ms ! j, ls ! j)" using R i by simp
    then show "p \<in> set (zip ms ls)" using nth_zip_mem [OF j(1) d(4)] by simp
  qed
  have "card (set (zip ns ks)) = card (set (zip ms ls))"
    using d R by (metis distinct_card distinct_zipI1 length_zip min.idem)
  with sub show ?L by (simp add: card_subset_eq)
qed

lemma keyed_map:
  assumes K: "keyed t f"
  shows "keyed (TMap t) (\<lambda>v. bindE (port_object v (exactly [''#map'']) ''VALUE'') (\<lambda>_.
    let entries = fld v ''#map'' in
    if \<not> is_List entries then vfail ''expected map entry array''
    else bindE (map_entries f {} (the_List entries)) (\<lambda>kvs. Inr (KMap (fset_of_list kvs)))))"
    (is "keyed _ ?g")
proof (rule keyedI)
  let ?es = "\<lambda>v. the_List (fld v ''#map'')"
  let ?m = "\<lambda>v. mapE (\<lambda>e. f (the_List e ! 1)) (?es v)"
  let ?ns = "\<lambda>v. map entry_key (?es v)"
  have acc: "?g v = Inr k \<longleftrightarrow> obj v [''#map''] \<and> is_List (fld v ''#map'') \<and>
      (\<forall>e \<in> set (?es v). entry_ok e) \<and> distinct (?ns v) \<and>
      (\<exists>ks. ?m v = Inr ks \<and> k = KMap (fset_of_list (zip (?ns v) ks)))" for v k
    by (auto simp: Let_def bindE_eq_Inr port_object_obj map_entries_Inr split: if_splits)
  have alist: "map fst (entry_alist v) = ?ns v" for v by (simp add: entry_alist_def comp_def)
  show "(\<exists>k. ?g v = Inr k) \<longleftrightarrow> has_type (TMap t) v" for v
  proof -
    have "(\<exists>ks. ?m v = Inr ks) \<longleftrightarrow> (\<forall>e \<in> set (?es v). has_type t (the_List e ! 1))"
      by (simp add: mapE_total keyed_typed [OF K])
    then show ?thesis unfolding acc has_type.simps alist entry_ok_def by blast
  qed
  show "k = l \<longleftrightarrow> sem_eq (TMap t) v w" if k: "?g v = Inr k" and l: "?g w = Inr l" for v w k l
  proof -
    from k [unfolded acc] obtain ks where ks: "distinct (?ns v)" "?m v = Inr ks"
      "k = KMap (fset_of_list (zip (?ns v) ks))" by blast
    from l [unfolded acc] obtain ls where ls: "distinct (?ns w)" "?m w = Inr ls"
      "l = KMap (fset_of_list (zip (?ns w) ls))" by blast
    have nth: "length ks = length (?es v)" "length ls = length (?es w)"
      "\<And>i. i < length (?es v) \<Longrightarrow> f (the_List (?es v ! i) ! 1) = Inr (ks ! i)"
      "\<And>j. j < length (?es w) \<Longrightarrow> f (the_List (?es w ! j) ! 1) = Inr (ls ! j)"
      using ks(2) ls(2) by (auto simp: mapE_Inr_iff list_all2_conv_all_nth)
    have "k = l \<longleftrightarrow> set (?ns v) = set (?ns w) \<and>
        (\<forall>i < length (?ns v). \<forall>j < length (?ns w). ?ns v ! i = ?ns w ! j \<longrightarrow> ks ! i = ls ! j)"
      using set_zip_map_eq [OF ks(1) ls(1), of ks ls] nth(1,2) ks(3) ls(3) by (simp add: fset_of_list_eq)
    also have "\<dots> \<longleftrightarrow> set (?ns v) = set (?ns w) \<and>
        (\<forall>i < length (?es v). \<forall>j < length (?es w). entry_key (?es v ! i) = entry_key (?es w ! j) \<longrightarrow>
          sem_eq t (the_List (?es v ! i) ! 1) (the_List (?es w ! j) ! 1))"
      using keyed_eq [OF K nth(3) nth(4)] by (auto simp del: set_map)
    also have "\<dots> \<longleftrightarrow> sem_eq (TMap t) v w"
      by (simp add: entry_alist_def all_set_conv_all_nth image_image)
    finally show ?thesis .
  qed
  show "\<exists>m. e = ProtocolError ''VALUE'' m" if "?g v = Inl e" for v e
    using that map_entries_Inl [of f "{}" "?es v" e] keyed_error [OF K, of _ e]
    by (auto simp: Let_def bindE_eq_Inl dest: port_object_Inl split: if_splits)
qed

lemma find_case_find:
  "\<forall>i \<in> set items. getE i ''tag'' = Inr (fld i ''tag'') \<Longrightarrow>
     find_case tag items = Inr (find (\<lambda>i. tag = fld i ''tag'') items)"
  by (induction items) auto

lemma keyed_variant:
  assumes K: "list_all2 (\<lambda>c i. fld i ''tag'' = PStr (fst c) \<and> keyed (snd c) (G i)) cs items"
    and dist: "distinct (map fst cs)"
  shows "keyed (TVariant cs) (\<lambda>v. bindE (port_object v (exactly [''tag'', ''value'']) ''VALUE'') (\<lambda>_.
    case find (\<lambda>i. fld v ''tag'' = fld i ''tag'') items of
      Some i \<Rightarrow> bindE (G i (fld v ''value'')) (\<lambda>k. Inr (KVariant (the_Str (fld v ''tag'')) k))
    | None \<Rightarrow> vfail ''unknown variant tag''))" (is "keyed _ ?g")
proof (rule keyedI)
  let ?f = "\<lambda>v. find (\<lambda>i. fld v ''tag'' = fld i ''tag'') items"
  have some: "\<exists>c \<in> set cs. fld v ''tag'' = PStr (fst c) \<and> keyed (snd c) (G i)" if "?f v = Some i" for v i
    using K that by (induction rule: list_all2_induct) (auto split: if_splits)
  have none: "fld v ''tag'' \<noteq> PStr (fst c)" if "?f v = None" "c \<in> set cs" for v c
    using K that by (induction rule: list_all2_induct) (auto split: if_splits)
  have unique: "c = c'" if "c \<in> set cs" "c' \<in> set cs" "fst c = fst c'" for c c'
    using dist that by (metis (mono_tags, lifting) distinct_map inj_onD)
  have acc: "?g v = Inr k \<longleftrightarrow> obj v [''tag'', ''value''] \<and>
      (\<exists>i x. ?f v = Some i \<and> G i (fld v ''value'') = Inr x \<and> k = KVariant (the_Str (fld v ''tag'')) x)" for v k
    by (auto simp: bindE_eq_Inr port_object_obj split: option.splits)
  show "(\<exists>k. ?g v = Inr k) \<longleftrightarrow> has_type (TVariant cs) v" for v
  proof (cases "?f v")
    case None
    then show ?thesis unfolding acc has_type.simps using none by auto
  next
    case (Some i)
    then obtain c where "c \<in> set cs" "fld v ''tag'' = PStr (fst c)" "keyed (snd c) (G i)" using some by blast
    with unique Some keyed_typed [of "snd c" "G i" "fld v ''value''"] show ?thesis
      unfolding acc has_type.simps by (metis option.inject pyval.inject(4))
  qed
  show "k = l \<longleftrightarrow> sem_eq (TVariant cs) v w" if k: "?g v = Inr k" and l: "?g w = Inr l" for v w k l
  proof -
    from k [unfolded acc] obtain i x where i: "?f v = Some i" "G i (fld v ''value'') = Inr x"
      "k = KVariant (the_Str (fld v ''tag'')) x" by blast
    from l [unfolded acc] obtain j y where j: "?f w = Some j" "G j (fld w ''value'') = Inr y"
      "l = KVariant (the_Str (fld w ''tag'')) y" by blast
    obtain c where c: "c \<in> set cs" "fld v ''tag'' = PStr (fst c)" "keyed (snd c) (G i)"
      using some [OF i(1)] by blast
    obtain c' where c': "c' \<in> set cs" "fld w ''tag'' = PStr (fst c')" using some [OF j(1)] by blast
    show ?thesis
    proof (cases "fst c = fst c'")
      case False
      with i j c c' show ?thesis by auto
    next
      case True
      then have "i = j" using i(1) j(1) c(2) c'(2) by simp
      then have "x = y \<longleftrightarrow> sem_eq (snd c) (fld v ''value'') (fld w ''value'')"
        using keyed_eq [OF c(3)] i(2) j(2) by blast
      moreover have "sem_eq (TVariant cs) v w \<longleftrightarrow> sem_eq (snd c) (fld v ''value'') (fld w ''value'')"
      proof -
        have "c'' = c" if "c'' \<in> set cs" "fld v ''tag'' = PStr (fst c'')" for c''
          using unique [OF that(1) c(1)] that(2) c(2) by simp
        moreover have "fld v ''tag'' = fld w ''tag''" using c(2) c'(2) True by simp
        ultimately show ?thesis using c(1,2) unfolding sem_eq.simps by blast
      qed
      ultimately show ?thesis using i(3) j(3) c(2) c'(2) True by simp
    qed
  qed
  show "\<exists>m. e = ProtocolError ''VALUE'' m" if g: "?g v = Inl e" for v e
  proof (cases "port_object v (exactly [''tag'', ''value'']) ''VALUE''")
    case (Inl e')
    with g show ?thesis by (auto dest: port_object_Inl)
  next
    case (Inr u)
    show ?thesis
    proof (cases "?f v")
      case (Some i)
      with some obtain t where "keyed t (G i)" by blast
      with g Inr Some keyed_error [of t "G i"] show ?thesis by (auto simp: bindE_eq_Inl)
    qed (use g Inr in auto)
  qed
qed

end
