(* ===== verification/PortTheorems.thy ===== *)
theory PortTheorems
  imports PortSemantics
begin

text \<open>
  The validated shapes and values of the port together: \<open>port_value_keyed\<close> instantiates the
  constructor lemmas of \<open>PortSemantics\<close> at the validator itself.
\<close>

lemma depth_ok:
  "d + tdepth t \<le> port_max_type_depth \<Longrightarrow> \<not> port_max_value_depth < d"
  by (simp add: port_max_type_depth_def port_max_value_depth_def)

lemma member_getE: "member_ok nk tk f item \<Longrightarrow> getE item nk = Inr (PStr (fst f)) \<and> getE item tk = Inr (fld item tk)"
  by (auto simp: member_ok_def getE_obj)

lemma members_mapE:
  "list_all2 (member_ok nk tk) fs items \<Longrightarrow> mapE (\<lambda>item. getE item nk) items = Inr (map (\<lambda>f. PStr (fst f)) fs)"
  by (induction rule: list_all2_induct) (auto simp: member_getE)

lemma record_values:
  assumes "list_all2 (member_ok ''wireName'' ''type'') fs items"
  shows "mapE (\<lambda>iw. bindE (getE (fst iw) ''type'') (\<lambda>t.
      bindE (F t (the (dget v (the_Str (snd iw))))) (\<lambda>k. Inr (the_Str (snd iw), k))))
      (zip items (map (\<lambda>f. PStr (fst f)) fs)) =
    named F (\<lambda>n. the (dget v n)) (zip (map fst fs) (map (\<lambda>i. fld i ''type'') items))"
  using assms
  by (induction rule: list_all2_induct) (auto simp: named_def member_getE)

lemma iterE_list: "is_List v \<Longrightarrow> iterE v = Inr (the_List v)"
  by (cases v) auto

lemma port_value_keyed:
  "encodes t shape \<Longrightarrow> d + tdepth t \<le> port_max_type_depth \<Longrightarrow> keyed t (\<lambda>v. port_value shape v d)"
proof (induction t arbitrary: shape d)
  case TInt
  then have "(\<lambda>v. port_value shape v d) = (\<lambda>v. bindE (port_object v (exactly [''#bigint'']) ''VALUE'') (\<lambda>_.
     let number = fld v ''#bigint'' in
     if is_Str number \<and> re_integer (the_Str number) then Inr (KInt (the_Str number))
     else vfail ''integer must be a canonical decimal string''))"
    using depth_ok [of d TInt] getE_obj [of shape "[''kind'']" "''kind''"]
    by (simp add: Let_def port_value.simps [of shape] fun_eq_iff cong: if_cong)
  then show ?case using keyed_int by simp
next
  case TBool
  then show ?case
    using keyed_bool depth_ok [of d TBool] getE_obj [of shape "[''kind'']" "''kind''"]
    by (simp add: Let_def port_value.simps [of shape] cong: if_cong)
next
  case TStr
  then show ?case
    using keyed_str depth_ok [of d TStr] getE_obj [of shape "[''kind'']" "''kind''"]
    by (simp add: Let_def port_value.simps [of shape] cong: if_cong)
next
  case TNull
  then show ?case
    using keyed_null depth_ok [of d TNull] getE_obj [of shape "[''kind'']" "''kind''"]
    by (simp add: Let_def port_value.simps [of shape] cong: if_cong)
next
  case (TSet t)
  then have "keyed t (\<lambda>v. port_value (fld shape ''element'') v (d + 1))" by (intro TSet.IH) auto
  from keyed_set [OF this] show ?case
    using TSet.prems depth_ok [of d "TSet t"]
    by (simp add: Let_def port_value.simps [of shape] getE_obj [of shape "[''kind'', ''element'']"] cong: if_cong)
next
  case (TSeq t)
  then have "keyed t (\<lambda>v. port_value (fld shape ''element'') v (d + 1))" by (intro TSeq.IH) auto
  from keyed_seq [OF this] show ?case
    using TSeq.prems depth_ok [of d "TSeq t"]
    by (simp add: Let_def port_value.simps [of shape] getE_obj [of shape "[''kind'', ''element'']"] cong: if_cong)
next
  case (TTuple ts)
  let ?ss = "the_List (fld shape ''elements'')"
  from TTuple.prems have ss: "list_all2 encodes ts ?ss" and "is_List (fld shape ''elements'')" by auto
  have "\<forall>t \<in> set ts. d + 1 + tdepth t \<le> port_max_type_depth"
    using TTuple.prems by (simp add: add_maxl_le_iff)
  with TTuple.IH have "list_all2 (\<lambda>t s. keyed t (\<lambda>v. port_value s v (d + 1))) ts ?ss"
    by (intro list.rel_mono_strong [OF ss]) auto
  from keyed_tuple [OF this] show ?case
    using TTuple.prems depth_ok [of d "TTuple ts"]
    by (simp add: Let_def port_value.simps [of shape] getE_obj [of shape "[''kind'', ''elements'']"] iterE_list
        positional_def cong: if_cong)
next
  case (TRecord fs)
  let ?items = "the_List (fld shape ''fields'')"
  from TRecord.prems have items: "list_all2 (member_ok ''wireName'' ''type'') fs ?items"
    and dist: "distinct (map fst fs)" and list: "is_List (fld shape ''fields'')"
    and obj: "obj shape [''kind'', ''fields'']" and kind: "fld shape ''kind'' = pyl ''record''"
    unfolding encodes_members by auto
  have "\<forall>f \<in> set fs. d + 1 + tdepth (snd f) \<le> port_max_type_depth"
    using TRecord.prems by (simp add: add_maxl_le_iff)
  with TRecord.IH have "list_all2 (\<lambda>f i. keyed (snd f) (\<lambda>v. port_value (fld i ''type'') v (d + 1))) fs ?items"
    by (intro list.rel_mono_strong [OF items]) (auto simp: member_ok_def snds.intros)
  then have K: "list_all2 (\<lambda>f s. keyed (snd f) (\<lambda>v. port_value s v (d + 1))) fs (map (\<lambda>i. fld i ''type'') ?items)"
    by (simp add: list_all2_map2)
  have hash: "list_all hashable (map (\<lambda>f. PStr (fst f)) fs)" by (simp add: list_all_iff hashable_def)
  show ?case
    using keyed_record [OF K dist] depth_ok [OF TRecord.prems(2)] hash
    by (simp add: Let_def port_value.simps [of shape] getE_obj [OF obj] kind iterE_list [OF list]
        members_mapE [OF items] record_values [OF items, symmetric] cong: if_cong)
next
  case (TMap t)
  then have "keyed t (\<lambda>v. port_value (fld shape ''value'') v (d + 1))" by (intro TMap.IH) auto
  from keyed_map [OF this] show ?case
    using TMap.prems depth_ok [of d "TMap t"]
    by (simp add: Let_def port_value.simps [of shape] getE_obj [of shape "[''kind'', ''key'', ''value'']"] cong: if_cong)
next
  case (TVariant cs)
  let ?items = "the_List (fld shape ''cases'')"
  from TVariant.prems have items: "list_all2 (member_ok ''tag'' ''payload'') cs ?items"
    and dist: "distinct (map fst cs)" and list: "is_List (fld shape ''cases'')"
    and obj: "obj shape [''kind'', ''cases'']" and kind: "fld shape ''kind'' = pyl ''variant''"
    unfolding encodes_members by auto
  have "\<forall>c \<in> set cs. d + 1 + tdepth (snd c) \<le> port_max_type_depth"
    using TVariant.prems by (simp add: add_maxl_le_iff)
  with TVariant.IH have K: "list_all2 (\<lambda>c i. fld i ''tag'' = PStr (fst c) \<and>
      keyed (snd c) (\<lambda>v. bindE (getE i ''payload'') (\<lambda>t. port_value t v (d + 1)))) cs ?items"
    by (intro list.rel_mono_strong [OF items]) (auto simp: member_ok_def snds.intros getE_obj)
  have "\<forall>i \<in> set ?items. getE i ''tag'' = Inr (fld i ''tag'')"
    using items by (auto dest!: list_all2_set2D simp: member_ok_def getE_obj)
  note found = find_case_find [OF this]
  show ?case
    using keyed_variant [OF K dist] depth_ok [OF TVariant.prems(2)]
    by (simp add: Let_def port_value.simps [of shape] getE_obj [OF obj] kind iterE_list [OF list] found bindE_assoc
        cong: if_cong option.case_cong)
qed

end
