(* ===== verification/PortProtocol.thy ===== *)
theory PortProtocol
  imports PortTheorems
begin

text \<open>
  Requests, responses and results of the worker port (\<^verbatim>\<open>protocol.py\<close>, \<^verbatim>\<open>_request_id\<close> to
  \<^verbatim>\<open>validate_result\<close>), and the manifest's contract: what an accepted manifest guarantees to
  \<open>port_operation\<close>, \<open>port_validate_inputs\<close> and \<open>port_validate_observations\<close>.
\<close>

definition port_request_id :: "pyval \<Rightarrow> unit res" where
  "port_request_id v = guardE (is_Int v \<and> 1 \<le> the_Int v \<and> the_Int v \<le> max_safe_integer)
     (ProtocolError ''SCHEMA'' ''request ID must be a positive safe integer'')"

definition port_request_fields :: "(string \<times> string list) list" where
  "port_request_fields =
     [(''hello'', [''interfaceDigest'', ''runtime'']), (''create'', []), (''invoke'', [''action'', ''inputs'']),
      (''observe'', []), (''dispose'', []), (''cancel'', [''requestId''])]"

definition port_version :: "pyval \<Rightarrow> unit res" where
  "port_version m = guardE (fld m ''v'' = PInt 1) (ProtocolError ''SCHEMA'' ''unsupported protocol version'')"

definition port_validate_request :: "pyval \<Rightarrow> pyval res" where
  "port_validate_request m =
     bindE (seqE [port_json_bounds m, port_object m None ''SCHEMA'', port_version m,
                  port_request_id (fld m ''id'')]) (\<lambda>_.
     case find (\<lambda>(op, fs). fld m ''op'' = pyl op) port_request_fields of
       None \<Rightarrow> Inl (ProtocolError ''SCHEMA'' ''unknown operation'')
     | Some (op, fs) \<Rightarrow> retE
         [port_object m (exactly ([''v'', ''id'', ''op''] @ fs)) ''SCHEMA'',
          if op = ''hello'' then seqE
            [port_digest (fld m ''interfaceDigest''), port_identifier (fld m ''runtime'')]
          else if op = ''invoke'' then seqE
            [port_identifier (fld m ''action''), port_object (fld m ''inputs'') None ''SCHEMA'',
             seqE (map (\<lambda>n. port_identifier (PStr n)) (keys (fld m ''inputs'')))]
          else if op = ''cancel'' then seqE
            [port_request_id (fld m ''requestId''),
             guardE (the_Int (fld m ''requestId'') < the_Int (fld m ''id''))
               (ProtocolError ''SCHEMA'' ''cancel target must precede its request ID'')]
          else Inr ()] m)"

text \<open>\<^verbatim>\<open>[A-Z][A-Z0-9_]{0,63}\Z\<close>\<close>

definition re_error_code :: "pystr \<Rightarrow> bool" where
  "re_error_code s = (case s of [] \<Rightarrow> False
     | c # cs \<Rightarrow> is_upper c \<and> length cs \<le> 63 \<and> list_all (\<lambda>c. is_upper c \<or> is_digit c \<or> c = 95) cs)"

definition port_validate_response :: "pyval \<Rightarrow> pyval res" where
  "port_validate_response m =
     retE
       [port_json_bounds m, port_object m None ''SCHEMA'', port_version m, port_request_id (fld m ''id''),
        guardE (is_Bool (fld m ''ok'')) (ProtocolError ''SCHEMA'' ''response ok must be boolean''),
        if the_Bool (fld m ''ok'') then port_object m (exactly [''v'', ''id'', ''ok'', ''result'']) ''SCHEMA''
        else (let error = fld m ''error'' in seqE
          [port_object m (exactly [''v'', ''id'', ''ok'', ''error'']) ''SCHEMA'',
           port_object error (exactly [''code'', ''message'']) ''SCHEMA'',
           guardE (is_Str (fld error ''code'') \<and> re_error_code (the_Str (fld error ''code'')))
             (ProtocolError ''SCHEMA'' ''invalid error code''),
           port_string (fld error ''message'') (Some 1024) False])] m"

definition port_validate_result :: "pyval \<Rightarrow> pyval \<Rightarrow> pyval \<Rightarrow> pyval res" where
  "port_validate_result request response manifest =
     bindE (port_validate_request request) (\<lambda>_.
     bindE (port_validate_response response) (\<lambda>_.
     bindE (guardE (fld response ''id'' = fld request ''id'')
       (ProtocolError ''SCHEMA'' ''uncorrelated response'')) (\<lambda>_.
     if \<not> the_Bool (fld response ''ok'') then Inr (fld response ''error'')
     else (let result = fld response ''result'' in
       if fld request ''op'' = pyl ''hello'' then retE
         [port_object result (exactly [''interfaceDigest'', ''runtime'']) ''SCHEMA'',
          guardE (fld result ''interfaceDigest'' = fld request ''interfaceDigest'' \<and>
                  fld result ''runtime'' = fld request ''runtime'')
            (ProtocolError ''HANDSHAKE'' ''worker identity does not match requested interface/runtime'')] result
       else if fld request ''op'' = pyl ''observe'' then
         bindE (port_validate_observations manifest result) (\<lambda>_. Inr result)
       else retE [guardE (result = PNone)
         (ProtocolError ''SCHEMA'' ''operation result must be null'')] result))))"

section \<open>What an accepted manifest guarantees\<close>

lemma port_typed_item_accepts:
  "port_typed_item item = Inr u \<longleftrightarrow> obj item [''id'', ''type''] \<and>
     is_Str (fld item ''id'') \<and> re_identifier (the_Str (fld item ''id'')) \<and>
     (\<exists>t. encodes t (fld item ''type'') \<and> tdepth t \<le> port_max_type_depth)"
  by (simp add: port_typed_item_def port_object_obj port_identifier_accepts port_type_iff)

lemma port_operation_item_accepts:
  "port_operation_item a = Inr u \<longleftrightarrow> obj a [''id'', ''inputs''] \<and>
     is_Str (fld a ''id'') \<and> re_identifier (the_Str (fld a ''id'')) \<and> is_List (fld a ''inputs'') \<and>
     (\<forall>i \<in> set (the_List (fld a ''inputs'')). port_typed_item i = Inr ()) \<and>
     distinct (map (\<lambda>i. fld i ''id'') (the_List (fld a ''inputs'')))"
  by (simp add: port_operation_item_def port_object_obj port_identifier_accepts port_array_accepts
      seqE_map_Inr port_unique_accepts)

definition manifest_operations :: "pyval \<Rightarrow> pyval list" where
  "manifest_operations m = the_List (fld m ''initializers'') @ the_List (fld m ''actions'')"

definition manifest_observations :: "pyval \<Rightarrow> pyval list" where
  "manifest_observations m = the_List (fld m ''observations'')"

lemma port_manifest_acceptsD:
  assumes "port_validate_manifest m = Inr m'"
  shows "m' = m" "port_json_bounds m = Inr ()"
    "obj m [''schema'', ''interfaceDigest'', ''initializers'', ''actions'', ''observations'']"
    "is_List (fld m ''initializers'')" "is_List (fld m ''actions'')" "is_List (fld m ''observations'')"
    "manifest_observations m \<noteq> []"
    "\<forall>a \<in> set (manifest_operations m). port_operation_item a = Inr ()"
    "distinct (map (\<lambda>a. fld a ''id'') (manifest_operations m))"
    "\<forall>i \<in> set (manifest_observations m). port_typed_item i = Inr ()"
    "distinct (map (\<lambda>i. fld i ''id'') (manifest_observations m))"
  using assms
  by (simp_all add: port_validate_manifest_def Let_def port_object_obj port_array_accepts seqE_map_Inr
      port_unique_accepts manifest_operations_def manifest_observations_def del: map_append)

lemma find_operation_unique:
  assumes "distinct (map (\<lambda>a. fld a ''id'') ops)" "\<forall>a \<in> set ops. getE a ''id'' = Inr (fld a ''id'')" "a \<in> set ops"
  shows "find_operation (fld a ''id'') ops = Inr a"
  using assms by (induction ops) (auto simp: image_iff)

lemma find_operation_none:
  assumes "\<forall>a \<in> set ops. getE a ''id'' = Inr (fld a ''id'')" "\<forall>a \<in> set ops. fld a ''id'' \<noteq> x"
  shows "find_operation x ops = vfail ''undeclared operation''"
  using assms by (induction ops) auto

lemma port_operation_manifest:
  assumes "port_validate_manifest m = Inr m'"
  shows "port_operation m action = find_operation action (manifest_operations m)"
  using port_manifest_acceptsD(3-5) [OF assms]
  by (auto simp: port_operation_def getE_obj listE_def manifest_operations_def is_List_def)

lemma manifest_ids:
  assumes "port_validate_manifest m = Inr m'"
  shows "\<forall>a \<in> set (manifest_operations m). getE a ''id'' = Inr (fld a ''id'')"
  using port_manifest_acceptsD(8) [OF assms] by (auto simp: port_operation_item_accepts getE_obj)

section \<open>Values against declared types\<close>

lemma typed_fields_ids:
  "\<forall>i \<in> set items. port_typed_item i = Inr () \<Longrightarrow>
     mapE (\<lambda>item. getE item ''id'') items = Inr (map (\<lambda>i. PStr (the_Str (fld i ''id''))) items)"
  by (induction items) (auto simp: port_typed_item_accepts getE_obj)

lemma typed_fields_values:
  assumes "list_all2 (\<lambda>t i. encodes t (fld i ''type'') \<and> tdepth t \<le> port_max_type_depth \<and> obj i [''id'', ''type'']) ts items"
  shows "(seqE (map (\<lambda>ii. bindE (getE (fst ii) ''type'') (\<lambda>t.
      bindE (port_value t (h (the_Str (snd ii))) 0) (\<lambda>_. Inr ())))
        (zip items (map (\<lambda>i. PStr (f i)) items))) = Inr () \<longleftrightarrow>
      list_all2 (\<lambda>t i. has_type t (h (f i))) ts items) \<and>
    (\<forall>e. seqE (map (\<lambda>ii. bindE (getE (fst ii) ''type'') (\<lambda>t.
      bindE (port_value t (h (the_Str (snd ii))) 0) (\<lambda>_. Inr ())))
        (zip items (map (\<lambda>i. PStr (f i)) items))) = Inl e \<longrightarrow> (\<exists>m. e = ProtocolError ''VALUE'' m))"
  using assms
proof (induction rule: list_all2_induct)
  case (Cons t ts i items)
  have K: "keyed t (\<lambda>v. port_value (fld i ''type'') v 0)"
    using Cons(1) by (intro port_value_keyed) auto
  have g: "getE i ''type'' = Inr (fld i ''type'')" using Cons(1) by (auto simp: getE_obj)
  show ?case
  proof (cases "port_value (fld i ''type'') (h (f i)) 0")
    case (Inl e)
    then show ?thesis using keyed_typed [OF K, of "h (f i)"] keyed_error [OF K] g by simp
  next
    case (Inr k)
    then show ?thesis using keyed_typed [OF K, of "h (f i)"] Cons.IH g by auto
  qed
qed simp

text \<open>The decision made by \<open>port_typed_fields\<close>, for items of a validated manifest.\<close>

definition fields_typed :: "ptype list \<Rightarrow> pyval list \<Rightarrow> pyval \<Rightarrow> bool" where
  "fields_typed ts items vals \<longleftrightarrow> is_Dict vals \<and>
     set (keys vals) = (\<lambda>i. the_Str (fld i ''id'')) ` set items \<and>
     list_all2 (\<lambda>t i. has_type t (the (dget vals (the_Str (fld i ''id''))))) ts items"

lemma typed_fields_decided:
  assumes ok: "\<forall>i \<in> set items. port_typed_item i = Inr ()"
  obtains ts where "list_all2 (\<lambda>t i. encodes t (fld i ''type'')) ts items"
    "\<And>vals. port_typed_fields items vals = Inr () \<longleftrightarrow> fields_typed ts items vals"
    "\<And>vals e. port_typed_fields items vals = Inl e \<Longrightarrow> \<exists>m. e = ProtocolError ''VALUE'' m"
proof -
  have "\<forall>i \<in> set items. \<exists>t. encodes t (fld i ''type'') \<and> tdepth t \<le> port_max_type_depth \<and> obj i [''id'', ''type'']"
    using ok by (auto simp: port_typed_item_accepts)
  from list_all2_ex [OF this] obtain ts where
    ts: "list_all2 (\<lambda>t i. encodes t (fld i ''type'') \<and> tdepth t \<le> port_max_type_depth \<and> obj i [''id'', ''type'']) ts items"
    by blast
  let ?ids = "map (\<lambda>i. PStr (the_Str (fld i ''id''))) items"
  have keys: "set (map PStr (keys vals)) = set ?ids \<longleftrightarrow> set (keys vals) = (\<lambda>i. the_Str (fld i ''id'')) ` set items" for vals
    by (simp add: image_image [symmetric, of PStr "\<lambda>i. the_Str (fld i ''id'')"] inj_image_eq_iff [of PStr] inj_def)
  have hash: "list_all hashable ?ids" by (simp add: list_all_iff hashable_def)
  note vals = typed_fields_values [OF ts, of "\<lambda>n. the (dget v n)" "\<lambda>i. the_Str (fld i ''id'')" for v]
  have form: "port_typed_fields items vals = seqE
       [port_object vals None ''VALUE'',
        guardE (set (keys vals) = (\<lambda>i. the_Str (fld i ''id'')) ` set items)
          (ProtocolError ''VALUE'' ''object fields do not match contract''),
        seqE (map (\<lambda>ii. bindE (getE (fst ii) ''type'') (\<lambda>t.
          bindE (port_value t (the (dget vals (the_Str (snd ii)))) 0) (\<lambda>_. Inr ()))) (zip items ?ids))]" for vals
    using hash by (simp add: port_typed_fields_def typed_fields_ids [OF ok] keys del: set_map)
  show ?thesis
  proof (rule that)
    show "list_all2 (\<lambda>t i. encodes t (fld i ''type'')) ts items" using ts by (rule list_all2_mono) simp
    show "port_typed_fields items v = Inr () \<longleftrightarrow> fields_typed ts items v" for v
      using vals [of v] by (simp add: form port_object_any fields_typed_def)
    show "\<exists>m. e = ProtocolError ''VALUE'' m" if "port_typed_fields items v = Inl e" for v e
      using that vals [of v] unfolding form
      by (auto simp: seqE_Cons_unfold bindE_eq_Inl guardE_eq_Inl dest: port_object_Inl)
  qed
qed

section \<open>Requests\<close>

definition port_id_ok :: "pyval \<Rightarrow> bool" where
  "port_id_ok v \<longleftrightarrow> is_Int v \<and> 1 \<le> the_Int v \<and> the_Int v \<le> max_safe_integer"

definition port_request_ok :: "pyval \<Rightarrow> bool" where
  "port_request_ok m \<longleftrightarrow> fld m ''v'' = PInt 1 \<and> port_id_ok (fld m ''id'') \<and>
     (fld m ''op'' = pyl ''hello'' \<and> obj m [''v'', ''id'', ''op'', ''interfaceDigest'', ''runtime''] \<and>
        port_digest (fld m ''interfaceDigest'') = Inr () \<and> port_identifier (fld m ''runtime'') = Inr () \<or>
      (fld m ''op'' = pyl ''create'' \<or> fld m ''op'' = pyl ''observe'' \<or> fld m ''op'' = pyl ''dispose'') \<and>
        obj m [''v'', ''id'', ''op''] \<or>
      fld m ''op'' = pyl ''invoke'' \<and> obj m [''v'', ''id'', ''op'', ''action'', ''inputs''] \<and>
        port_identifier (fld m ''action'') = Inr () \<and> is_Dict (fld m ''inputs'') \<and>
        list_all re_identifier (keys (fld m ''inputs'')) \<or>
      fld m ''op'' = pyl ''cancel'' \<and> obj m [''v'', ''id'', ''op'', ''requestId''] \<and>
        port_id_ok (fld m ''requestId'') \<and> the_Int (fld m ''requestId'') < the_Int (fld m ''id''))"

text \<open>C25 Frames round-trip: whatever \<open>port_encode_frame\<close> emits for a dict is parsed back to that very
  dict, provided the interpreter allows at least 97 nested JSON containers.\<close>

theorem port_frame_roundtrip:
  assumes "wf_pyval m" "97 \<le> lim" "port_encode_frame m = Inr bs"
  shows "port_parse_frame lim bs = Inr m"
  using assms by (rule port_parse_encoded)

theorem port_frame_roundtrip_witness:
  "port_encode_frame (PDict [(lit ''v'', PInt 1)]) = Inr [123, 34, 118, 34, 58, 49, 125, 10] \<and>
   port_parse_frame 97 [123, 34, 118, 34, 58, 49, 125, 10] = Inr (PDict [(lit ''v'', PInt 1)])"
proof -
  have e: "port_encode_frame (PDict [(lit ''v'', PInt 1)]) = Inr [123, 34, 118, 34, 58, 49, 125, 10]"
    by code_simp
  have w: "wf_pyval (PDict [(lit ''v'', PInt 1)])" by code_simp
  show ?thesis using port_frame_roundtrip [OF w _ e, of 97] e by simp
qed

text \<open>C35 The iterative bounds check accepts a value exactly when it is at most 96 levels high, has at
  most 8192 nodes, and every key and scalar in it is a Unicode string, a safe integer, a boolean or null.\<close>

theorem port_bounds_meaning:
  "port_json_bounds v = Inr () \<longleftrightarrow>
     height v \<le> 96 \<and> nodes v \<le> 8192 \<and> all_parts encodable wire_leaf v"
  by (simp add: port_bounds_accepts port_max_json_depth_def port_max_nodes_def)

text \<open>C34 A shape passes the type validator at depth \<open>d\<close> exactly when it is the JSON encoding of a
  portable type whose nesting stays within the 32 levels that remain.\<close>

theorem port_type_decides:
  "port_type shape d = Inr () \<longleftrightarrow> (\<exists>t. encodes t shape \<and> d + tdepth t \<le> 32)"
  by (simp add: port_type_iff port_max_type_depth_def)

text \<open>C6 For a validated type the value validator decides typing: it accepts exactly the values of
  the type, two accepted values get equal keys exactly when they are semantically equal (so duplicate
  set members are detected by meaning, not by spelling), and every rejection is a \<^verbatim>\<open>VALUE\<close> error, never a
  depth limit or a Python exception.\<close>

theorem port_value_decides:
  assumes "port_validate_type shape = Inr s"
  shows "\<exists>t. encodes t shape \<and> (\<forall>v. (\<exists>k. port_value shape v 0 = Inr k) \<longleftrightarrow> has_type t v) \<and>
    (\<forall>v w k l. port_value shape v 0 = Inr k \<longrightarrow> port_value shape w 0 = Inr l \<longrightarrow> (k = l \<longleftrightarrow> sem_eq t v w)) \<and>
    (\<forall>v e. port_value shape v 0 = Inl e \<longrightarrow> (\<exists>m. e = ProtocolError ''VALUE'' m))"
proof -
  from assms obtain t where "encodes t shape" "0 + tdepth t \<le> port_max_type_depth"
    by (auto simp: port_validate_type_def port_type_iff)
  then show ?thesis using port_value_keyed [of t shape 0] unfolding keyed_def by blast
qed

theorem port_value_decides_witness:
  "\<exists>t. encodes t (PDict [(lit ''kind'', pyl ''set''), (lit ''element'', PDict [(lit ''kind'', pyl ''int'')])]) \<and>
    (\<forall>v. (\<exists>k. port_value (PDict [(lit ''kind'', pyl ''set''), (lit ''element'', PDict [(lit ''kind'', pyl ''int'')])]) v 0
      = Inr k) \<longleftrightarrow> has_type t v)"
proof -
  have "port_validate_type (PDict [(lit ''kind'', pyl ''set''), (lit ''element'', PDict [(lit ''kind'', pyl ''int'')])]) =
     Inr (PDict [(lit ''kind'', pyl ''set''), (lit ''element'', PDict [(lit ''kind'', pyl ''int'')])])"
    by code_simp
  from port_value_decides [OF this] show ?thesis by blast
qed


definition sample_manifest :: pyval where
  "sample_manifest = PDict
     [(lit ''schema'', pyl ''mirrorgate.port/v1''), (lit ''interfaceDigest'', PStr (replicate 64 97)),
      (lit ''initializers'', PList [PDict [(lit ''id'', pyl ''start''), (lit ''inputs'',
         PList [PDict [(lit ''id'', pyl ''n''), (lit ''type'', PDict [(lit ''kind'', pyl ''int'')])]])]]),
      (lit ''actions'', PList []),
      (lit ''observations'', PList [PDict [(lit ''id'', pyl ''x''), (lit ''type'', PDict [(lit ''kind'', pyl ''bool'')])]])]"

lemma sample_manifest_ok: "port_validate_manifest sample_manifest = Inr sample_manifest"
  by code_simp





end
