(* ===== verification/ControlCodec.thy ===== *)
theory ControlCodec
  imports PortProtocol
begin

text \<open>
  The control channel's codec (\<^verbatim>\<open>supervisor/mirrorgate/control_protocol.py\<close>, up to
  \<^verbatim>\<open>encode_control_frame\<close>, and \<^verbatim>\<open>canonical_base64\<close>): scalar checks, JSON hooks, bounds, frames.
  \<open>control_json\<close> interprets \<open>json_codec\<close> on the control hooks, so both codecs share one round-trip
  proof.  Base64 is modelled as \<^verbatim>\<open>base64.b64encode\<close> and the strict \<^verbatim>\<open>base64.b64decode\<close>.
\<close>

definition control_max_frame_bytes :: nat where "control_max_frame_bytes = 1048576"
definition control_max_json_depth :: nat where "control_max_json_depth = 128"
definition control_max_json_nodes :: nat where "control_max_json_nodes = 16384"
definition control_max_manifest_bytes :: nat where "control_max_manifest_bytes = 262144"
definition control_max_attachment_frame_bytes :: nat where "control_max_attachment_frame_bytes = 4096"
definition control_max_output_chunk_bytes :: nat where "control_max_output_chunk_bytes = 16384"

abbreviation ainv :: "string \<Rightarrow> string \<Rightarrow> pyexc" where
  "ainv stage msg \<equiv> ControlProtocolError ''ARGUMENT_INVALID'' stage msg False"

abbreviation afatal :: "string \<Rightarrow> pyexc" where
  "afatal msg \<equiv> ControlProtocolError ''ARGUMENT_INVALID'' ''bootstrap'' msg True"

definition unlit :: "pystr \<Rightarrow> string" where
  "unlit s = map char_of s"

fun control_pairs_from :: "(pystr \<times> pyval) list \<Rightarrow> (pystr \<times> pyval) list \<Rightarrow> pyval res" where
  "control_pairs_from v [] = Inr (PDict v)"
| "control_pairs_from v ((k, child) # items) =
     (if k \<in> set (map fst v) then Inl (afatal ''duplicate JSON object key'')
      else control_pairs_from (dset v k child) items)"

definition control_pairs :: "(pystr \<times> pyval) list \<Rightarrow> pyval res" where
  "control_pairs items = control_pairs_from [] items"

definition control_number :: "bool \<Rightarrow> pystr \<Rightarrow> pyval res" where
  "control_number fl tok =
     (let d = decimal_of tok; e = afatal ''JSON numbers must be exact safe integers'' in
      if decimal_raises d then Inl e
      else (case decimal_int d of Some i \<Rightarrow> if safe_int i then Inr (PInt i) else Inl e | None \<Rightarrow> Inl e))"

definition control_constant :: "string \<Rightarrow> pyval res" where
  "control_constant w = Inl (afatal ''nonfinite JSON number'')"

definition control_scalar_string :: "pyval \<Rightarrow> string \<Rightarrow> nat \<Rightarrow> bool \<Rightarrow> unit res" where
  "control_scalar_string v label mx nonempty =
     (if \<not> is_Str v \<or> nonempty \<and> the_Str v = [] then Inl (ainv ''bootstrap'' (label @ '' must be a string''))
      else (case utf8_len (the_Str v) of
              None \<Rightarrow> Inl (ainv ''bootstrap'' (label @ '' contains an invalid Unicode scalar''))
            | Some n \<Rightarrow> guardE (n \<le> mx)
                (ControlProtocolError ''LIMIT_EXCEEDED'' ''bootstrap'' (label @ '' exceeds its byte limit'') False)))"

definition control_leaf :: "pyval \<Rightarrow> unit res" where
  "control_leaf v = (case v of
     PStr s \<Rightarrow> control_scalar_string v ''string'' control_max_frame_bytes False
   | PInt i \<Rightarrow> guardE (safe_int i) (afatal ''unsafe JSON integer'')
   | PNone \<Rightarrow> Inr ()
   | PBool b \<Rightarrow> Inr ()
   | _ \<Rightarrow> Inl (afatal ''unsupported JSON value''))"

definition control_bounds :: "pyval \<Rightarrow> unit res" where
  "control_bounds v = bounds_loop control_max_json_depth control_max_json_nodes
     (ControlProtocolError ''LIMIT_EXCEEDED'' ''bootstrap'' ''JSON depth or node budget exceeded'' True)
     (\<lambda>k. control_scalar_string (PStr k) ''object key'' control_max_frame_bytes False) control_leaf 0 [(v, 0)]"

definition control_object :: "pyval \<Rightarrow> string list \<Rightarrow> string list \<Rightarrow> string \<Rightarrow> unit res" where
  "control_object v required optional label = seqE
     [guardE (is_Dict v) (ainv ''bootstrap'' (label @ '' must be an object'')),
      guardE (names required \<subseteq> set (keys v) \<and> set (keys v) \<subseteq> names required \<union> names optional)
        (ainv ''bootstrap'' (label @ '' fields do not match contract''))]"

definition control_safe :: "pyval \<Rightarrow> string \<Rightarrow> bool \<Rightarrow> unit res" where
  "control_safe v label positive =
     guardE (is_Int v \<and> (if positive then 1 else 0) \<le> the_Int v \<and> the_Int v \<le> max_safe_integer)
       (ainv ''bootstrap'' (label @ '' must be a '' @ (if positive then ''positive '' else '''') @ ''safe integer''))"

definition control_handle :: "pyval \<Rightarrow> string \<Rightarrow> unit res" where
  "control_handle v label = guardE (is_Str v \<and> re_hex 32 (the_Str v))
     (ainv ''bootstrap'' (label @ '' must be a 128-bit lowercase hex handle''))"

definition control_public_id :: "pyval \<Rightarrow> string \<Rightarrow> unit res" where
  "control_public_id v label = guardE (is_Str v \<and> re_identifier (the_Str v))
     (ainv ''bootstrap'' (label @ '' is not a public identifier''))"

definition control_enum :: "pyval \<Rightarrow> string list \<Rightarrow> string \<Rightarrow> unit res" where
  "control_enum v allowed label = guardE (v \<in> set (map pyl allowed)) (ainv ''bootstrap'' (''invalid '' @ label))"

definition control_digest :: "pyval \<Rightarrow> string \<Rightarrow> unit res" where
  "control_digest v label = guardE (is_Str v \<and> re_hex 64 (the_Str v)) (ainv ''bootstrap'' (''invalid '' @ label))"

definition control_remaining_resources :: "pyval \<Rightarrow> unit res" where
  "control_remaining_resources v = seqE
     [guardE (is_List v \<and> length (the_List v) \<le> 64) (ainv ''cleanup'' ''invalid remaining resources''),
      seen_loop (\<lambda>item. control_public_id item ''remaining resource'')
        (ainv ''cleanup'' ''duplicate remaining resource'') {} (the_List v)]"

definition control_cleanup_result :: "pyval \<Rightarrow> unit res" where
  "control_cleanup_result v = seqE
     [control_object v [''phase'', ''cleanupStatus'', ''remainingResources''] [] ''cleanup result'',
      control_enum (fld v ''phase'') [''closed'', ''cleanupFailed''] ''terminal session phase'',
      control_enum (fld v ''cleanupStatus'') [''succeeded'', ''failed''] ''terminal cleanup status'',
      control_remaining_resources (fld v ''remainingResources''),
      guardE ((fld v ''phase'' = pyl ''closed'') = (fld v ''cleanupStatus'' = pyl ''succeeded'') \<and>
              \<not> (fld v ''phase'' = pyl ''closed'' \<and> the_List (fld v ''remainingResources'') \<noteq> []))
        (ainv ''cleanup'' ''incoherent terminal cleanup result'')]"

text \<open>\<^verbatim>\<open>raise ControlProtocolError(exc.code, exc.stage, exc.message, fatal=True)\<close>\<close>

definition make_fatal :: "'a res \<Rightarrow> 'a res" where
  "make_fatal m = (case m of Inl (ControlProtocolError c s msg f) \<Rightarrow> Inl (ControlProtocolError c s msg True) | x \<Rightarrow> x)"

definition control_parse_frame :: "nat \<Rightarrow> nat \<Rightarrow> bytes \<Rightarrow> pyval res" where
  "control_parse_frame lim mx data =
     bindE (seqE
       [guardE (length data \<le> mx + 1)
          (ControlProtocolError ''LIMIT_EXCEEDED'' ''bootstrap'' ''control frame byte budget exceeded'' True),
        guardE (\<not> startswith data [239, 187, 191] \<and> endswith data [10] \<and> 10 \<notin> set (butlast data) \<and>
                13 \<notin> set data \<and> \<not> bytes_blank (butlast data))
          (afatal ''invalid control JSONL framing'')]) (\<lambda>_.
     bindE (case utf8_decode (butlast data) of
        None \<Rightarrow> Inl (afatal ''invalid UTF-8 JSON'')
      | Some text \<Rightarrow>
          (case json_loads control_number control_constant control_pairs lim text of
             Inl (ControlProtocolError c s m f) \<Rightarrow> Inl (ControlProtocolError c s m f)
           | Inl _ \<Rightarrow> Inl (afatal ''invalid UTF-8 JSON'')
           | Inr v \<Rightarrow> Inr v)) (\<lambda>v.
     retE [make_fatal (control_bounds v),
           guardE (is_Dict v) (afatal ''control frame root must be an object'')] v))"

definition control_encode_frame :: "nat \<Rightarrow> pyval \<Rightarrow> bytes res" where
  "control_encode_frame mx message = bindE (control_bounds message) (\<lambda>_.
     case utf8 (json_dumps message) of
       None \<Rightarrow> Inl (ainv ''bootstrap'' ''cannot encode control frame'')
     | Some payload \<Rightarrow>
         if mx < length payload
         then Inl (ControlProtocolError ''LIMIT_EXCEEDED'' ''bootstrap'' ''control frame byte budget exceeded'' False)
         else Inr (payload @ [10]))"

section \<open>Base64\<close>

definition b64char :: "nat \<Rightarrow> nat" where
  "b64char n = (if n < 26 then 65 + n else if n < 52 then 71 + n else if n < 62 then n - 4
     else if n = 62 then 43 else 47)"

definition b64val :: "nat \<Rightarrow> nat option" where
  "b64val c = (if is_upper c then Some (c - 65) else if is_lower c then Some (c - 71)
     else if is_digit c then Some (c + 4) else if c = 43 then Some 62 else if c = 47 then Some 63 else None)"

fun b64encode :: "bytes \<Rightarrow> pystr" where
  "b64encode [] = []"
| "b64encode [a] = [b64char (a div 4), b64char (a mod 4 * 16), 61, 61]"
| "b64encode [a, b] = [b64char (a div 4), b64char (a mod 4 * 16 + b div 16), b64char (b mod 16 * 4), 61]"
| "b64encode (a # b # c # r) =
     b64char (a div 4) # b64char (a mod 4 * 16 + b div 16) # b64char (b mod 16 * 4 + c div 64) #
     b64char (c mod 64) # b64encode r"

text \<open>Strict decoding: complete quads, padding only at the end.\<close>

fun b64decode :: "pystr \<Rightarrow> bytes option" where
  "b64decode [] = Some []"
| "b64decode (p # q # r # s # rest) =
     (case (b64val p, b64val q) of
        (Some a, Some b) \<Rightarrow>
          if r = 61 \<and> s = 61 \<and> rest = [] then Some [a * 4 + b div 16]
          else (case b64val r of
                  None \<Rightarrow> None
                | Some c \<Rightarrow>
                    if s = 61 \<and> rest = [] then Some [a * 4 + b div 16, b mod 16 * 16 + c div 4]
                    else (case b64val s of
                            None \<Rightarrow> None
                          | Some d \<Rightarrow> map_option (\<lambda>bs. (a * 4 + b div 16) # (b mod 16 * 16 + c div 4) #
                              (c mod 4 * 64 + d) # bs) (b64decode rest)))
      | _ \<Rightarrow> None)"
| "b64decode _ = None"

definition canonical_base64 :: "bytes \<Rightarrow> pystr res" where
  "canonical_base64 data = (if control_max_output_chunk_bytes < length data
     then Inl (ControlProtocolError ''LIMIT_EXCEEDED'' ''authoring'' ''output chunk exceeds limit'' False)
     else Inr (b64encode data))"

section \<open>When the checks accept\<close>

lemma control_scalar_accepts [accept_simps]:
  "control_scalar_string v l mx ne = Inr u \<longleftrightarrow> is_Str v \<and> (ne \<longrightarrow> the_Str v \<noteq> []) \<and> encodable (the_Str v) \<and>
     utf8_size (the_Str v) \<le> mx"
  by (auto simp: control_scalar_string_def utf8_len_eq)

lemma control_object_accepts [accept_simps]:
  "control_object v rq op l = Inr u \<longleftrightarrow> is_Dict v \<and> names rq \<subseteq> set (keys v) \<and> set (keys v) \<subseteq> names rq \<union> names op"
  by (simp add: control_object_def)

lemma control_object_obj: "control_object v rq [] l = Inr u \<longleftrightarrow> obj v rq"
  by (auto simp: control_object_accepts obj_def)

lemma control_safe_accepts [accept_simps]:
  "control_safe v l pos = Inr u \<longleftrightarrow>
     is_Int v \<and> (if pos then 1 else 0) \<le> the_Int v \<and> the_Int v \<le> max_safe_integer"
  by (simp add: control_safe_def)

lemma control_handle_accepts [accept_simps]: "control_handle v l = Inr u \<longleftrightarrow> is_Str v \<and> re_hex 32 (the_Str v)"
  by (simp add: control_handle_def)

lemma control_public_id_accepts [accept_simps]:
  "control_public_id v l = Inr u \<longleftrightarrow> is_Str v \<and> re_identifier (the_Str v)"
  by (simp add: control_public_id_def)

lemma control_enum_accepts [accept_simps]: "control_enum v ks l = Inr u \<longleftrightarrow> v \<in> pyl ` set ks"
  by (simp add: control_enum_def)

lemma control_digest_accepts [accept_simps]: "control_digest v l = Inr u \<longleftrightarrow> is_Str v \<and> re_hex 64 (the_Str v)"
  by (simp add: control_digest_def)

lemma control_remaining_accepts [accept_simps]:
  "control_remaining_resources v = Inr u \<longleftrightarrow> is_List v \<and> length (the_List v) \<le> 64 \<and>
     (\<forall>x \<in> set (the_List v). is_Str x \<and> re_identifier (the_Str x)) \<and> distinct (the_List v)"
  by (simp add: control_remaining_resources_def seen_loop_Inr control_public_id_accepts)

lemma control_cleanup_accepts [accept_simps]:
  "control_cleanup_result v = Inr u \<longleftrightarrow> obj v [''phase'', ''cleanupStatus'', ''remainingResources''] \<and>
     control_remaining_resources (fld v ''remainingResources'') = Inr () \<and>
     (fld v ''phase'' = pyl ''closed'' \<and> fld v ''cleanupStatus'' = pyl ''succeeded'' \<and>
        fld v ''remainingResources'' = PList [] \<or>
      fld v ''phase'' = pyl ''cleanupFailed'' \<and> fld v ''cleanupStatus'' = pyl ''failed'')"
proof -
  have "control_remaining_resources x = Inr () \<Longrightarrow> the_List x = [] \<longleftrightarrow> x = PList []" for x
    by (cases x) (auto simp: control_remaining_accepts)
  then show ?thesis
    by (auto simp: control_cleanup_result_def control_object_obj control_enum_accepts)
qed

text \<open>Control strings carry a byte budget of their own, besides being encodable.\<close>

definition control_text :: "pystr \<Rightarrow> bool" where
  "control_text s \<longleftrightarrow> encodable s \<and> utf8_size s \<le> control_max_frame_bytes"

fun control_wire_leaf :: "pyval \<Rightarrow> bool" where
  "control_wire_leaf (PStr s) = control_text s"
| "control_wire_leaf (PInt i) = safe_int i"
| "control_wire_leaf (PFloat t) = False"
| "control_wire_leaf _ = True"

lemma control_bounds_accepts:
  "control_bounds v = Inr u \<longleftrightarrow> height v \<le> control_max_json_depth \<and> nodes v \<le> control_max_json_nodes \<and>
     all_parts control_text control_wire_leaf v"
proof -
  have "control_leaf x = Inr () \<longleftrightarrow> control_wire_leaf x" if "\<not> is_List x" "\<not> is_Dict x" for x
    using that by (cases x) (auto simp: control_leaf_def control_scalar_accepts control_text_def)
  then show ?thesis
    unfolding control_bounds_def bounds_loop_accepts
    by (intro conj_cong refl all_parts_cong) (auto simp: control_scalar_accepts control_text_def)
qed

section \<open>The codec's hooks\<close>

lemma control_pairs_from_distinct:
  "distinct (map fst (d @ kvs)) \<Longrightarrow> control_pairs_from d kvs = Inr (PDict (d @ kvs))"
proof (induction kvs arbitrary: d)
  case (Cons kv kvs)
  obtain k v where kv: "kv = (k, v)" by (cases kv)
  with Cons.prems have "k \<notin> set (map fst d)" by auto
  with Cons.IH [of "d @ [kv]"] Cons.prems kv show ?case by (simp add: dset_fresh)
qed simp

lemma control_pairs_from_fuel: "control_pairs_from d kvs \<noteq> Inl OutOfFuel"
  by (induction d kvs rule: control_pairs_from.induct) auto

lemma control_number_int: "safe_int i \<Longrightarrow> control_number fl (print_int i) = Inr (PInt i)"
  by (simp add: control_number_def Let_def decimal_int_print_int safe_int_no_raise)

lemma control_number_fuel: "control_number fl t \<noteq> Inl OutOfFuel"
  by (simp add: control_number_def Let_def split: option.splits)

lemma control_pairs_distinct: "distinct (map fst kvs) \<Longrightarrow> control_pairs kvs = Inr (PDict kvs)"
  using control_pairs_from_distinct [of "[]" kvs] by (simp add: control_pairs_def)

interpretation control_json: json_codec control_number control_constant control_pairs safe_int jprint_char "\<lambda>_. True"
  by unfold_locales
    (simp_all add: jchars_print_char control_number_int control_number_fuel control_constant_def control_pairs_distinct,
     simp add: control_pairs_def control_pairs_from_fuel)

section \<open>Round trips\<close>

lemma control_wire_weaken: "all_parts control_text control_wire_leaf v \<Longrightarrow> all_parts encodable wire_leaf v"
  by (induction v rule: pyval_induct) (auto simp: control_text_def)

lemma json_dumps_dict_hd: "is_Dict m \<Longrightarrow> \<exists>t. json_dumps m = 123 # t"
  by (cases m) auto

lemma control_parse_encoded:
  assumes wf: "wf_pyval m" and dict: "is_Dict m" and lim: "129 \<le> lim"
    and enc: "control_encode_frame mx m = Inr bs"
  shows "control_parse_frame lim mx bs = Inr m"
proof -
  from enc obtain payload where bounds: "control_bounds m = Inr ()"
    and payload: "utf8 (json_dumps m) = Some payload" and len: "length payload \<le> mx"
    and bs: "bs = payload @ [10]"
    by (auto simp: control_encode_frame_def bindE_eq_Inr split: option.splits if_splits)
  have parts: "all_parts encodable wire_leaf m" "height m \<le> 128"
    using bounds by (auto simp: control_bounds_accepts control_max_json_depth_def control_wire_weaken)
  have pr: "jprintable safe_int m" using wf parts by (simp add: wire_printable)
  have ctrl: "b \<notin> set payload" if "b < 32" for b
    using json_dumps_no_ctrl [OF pr that] utf8_low [OF payload, of b] that by simp
  have "jdepth m \<le> lim" using jdepth_le_height [of m] parts lim by simp
  then have loads: "json_loads control_number control_constant control_pairs lim (json_dumps m) = Inr m"
    by (rule control_json.loads_dumps [OF pr jstrings_True])
  obtain t where t: "json_dumps m = 123 # t" using json_dumps_dict_hd [OF dict] by blast
  then obtain p where p: "payload = 123 # p" using payload by (auto simp: utf8_Some utf8_char_def)
  then have "\<not> bytes_blank payload" "\<not> startswith (payload @ [10]) [239, 187, 191]"
    by (auto simp: bytes_blank_def startswith_def)
  then show ?thesis
    using len ctrl [of 10] ctrl [of 13] dict loads bounds utf8_decode_utf8 [OF wf_json_dumps [OF wf pr] payload]
    by (simp add: control_parse_frame_def bs endswith_def make_fatal_def)
qed

lemma b64val_char: "n < 64 \<Longrightarrow> b64val (b64char n) = Some n \<and> b64char n \<noteq> 61"
  by (auto simp: b64val_def b64char_def is_upper_def is_lower_def is_digit_def)

lemma b64_quads:
  "a < 256 \<Longrightarrow> b < 256 \<Longrightarrow> a div 4 < (64 :: nat) \<and> a mod 4 * 16 + b div 16 < 64 \<and> a mod 4 * 16 < 64 \<and>
     a div 4 * 4 + (a mod 4 * 16 + b div 16) div 16 = a \<and> (a mod 4 * 16 + b div 16) mod 16 = b div 16"
proof -
  assume "a < 256" "b < 256"
  then have "a div 4 < 64" "b div 16 < 16" "a mod 4 < 4" by auto
  moreover have "a div 4 * 4 + a mod 4 = a" by (rule div_mult_mod_eq)
  ultimately show ?thesis by auto
qed

lemma b64_pairs:
  "b < 256 \<Longrightarrow> c < 256 \<Longrightarrow> b mod 16 * 4 + c div 64 < (64 :: nat) \<and> b mod 16 * 4 < 64 \<and> c mod 64 < 64 \<and>
     b div 16 * 16 + (b mod 16 * 4 + c div 64) div 4 = b \<and> b div 16 * 16 + b mod 16 * 4 div 4 = b \<and>
     (b mod 16 * 4 + c div 64) mod 4 * 64 + c mod 64 = c"
proof -
  assume "b < 256" "c < 256"
  then have "c div 64 < 4" "b mod 16 < 16" by auto
  moreover have "b div 16 * 16 + b mod 16 = b" "c div 64 * 64 + c mod 64 = c" by (rule div_mult_mod_eq)+
  ultimately show ?thesis by auto
qed

lemma b64_roundtrip: "\<forall>b \<in> set bs. b < 256 \<Longrightarrow> b64decode (b64encode bs) = Some bs"
proof (induction bs rule: b64encode.induct)
  case (2 a)
  then show ?case using b64_quads [of a 0] by (simp add: b64val_char)
next
  case (3 a b)
  then show ?case using b64_quads [of a b] b64_pairs [of b 0] by (simp add: b64val_char)
next
  case (4 a b c r)
  then show ?case using b64_quads [of a b] b64_pairs [of b c] by (simp add: b64val_char)
qed simp

text \<open>Output chunks are ASCII and of bounded size.\<close>

lemma b64char_ascii [simp]: "b64char n < 128"
  by (auto simp: b64char_def)

lemma length_b64encode: "length (b64encode bs) = (length bs + 2) div 3 * 4"
proof (induction bs rule: b64encode.induct)
  case (4 a b c r)
  have "(length r + 3 + 2) div 3 = (length r + 2) div 3 + 1" by presburger
  with 4 show ?case by (simp add: add.commute)
qed auto

lemma b64encode_ascii: "is_ascii (b64encode bs)"
  by (induction bs rule: b64encode.induct) (auto simp: is_ascii_def)

end
