(* ===== verification/ControlProtocol.thy ===== *)
theory ControlProtocol
  imports ControlCodec
begin

text \<open>
  The closed records of control protocol v1 (\<^verbatim>\<open>control_protocol.py\<close>, \<^verbatim>\<open>_input_ref\<close> to
  \<^verbatim>\<open>codec_for_version\<close>): requests, errors, responses, terminal results, operation status, events and
  attachments.  Every validator is the list of its checks in source order.
\<close>

section \<open>Vocabulary\<close>

definition control_error_codes :: "string list" where
  "control_error_codes = [''VERSION_UNSUPPORTED'', ''CAPABILITY_UNAVAILABLE'', ''ARGUMENT_INVALID'', ''POLICY_DENIED'',
     ''HANDLE_INVALID'', ''STATE_INVALID'', ''LIMIT_EXCEEDED'', ''PREPARATION_FAILED'', ''BUILD_FAILED'',
     ''NEGOTIATION_ATTESTATION_INVALID'', ''BACKEND_ADMISSION_FAILED'', ''ATTACHMENT_FAILED'',
     ''WORKER_PROTOCOL_FAILED'', ''WORKER_EXITED'', ''CANCELLED'', ''DEADLINE_EXCEEDED'', ''CLEANUP_FAILED'',
     ''OPERATION_UNKNOWN'']"

definition control_error_stages :: "string list" where
  "control_error_stages = [''bootstrap'', ''policy'', ''authoring'', ''prepare'', ''build'', ''authorize'', ''attach'',
     ''worker'', ''cleanup'']"

definition control_operations :: "string list" where
  "control_operations = [''hello'', ''session.open'', ''authoring.exec'', ''session.prepare'', ''session.authorize'',
     ''worker.acquire'', ''worker.release'', ''session.cancel'', ''session.close'', ''session.status'',
     ''operation.status'']"

definition control_phases :: "string list" where
  "control_phases = [''open'', ''authoring'', ''preparing'', ''prepared'', ''authorized'', ''reserved'', ''starting'',
     ''running'', ''closing'', ''closed'', ''cleanupFailed'']"

definition control_reasons :: "string list" where
  "control_reasons = [''normal'', ''user-cancel'', ''deadline'', ''client-failure'', ''worker-failure'']"

definition control_events :: "string list" where
  "control_events = [''operation.finished'', ''authoring.output'', ''build.output'', ''worker.started'',
     ''worker.ready'', ''worker.exited'', ''worker.closing'', ''session.closed'']"

definition control_limit_keys :: "string list" where
  "control_limit_keys = [''sessionWallMs'', ''executionWallMs'', ''commandCpuSeconds'', ''addressSpaceBytes'',
     ''uidProcesses'', ''openFiles'', ''fileBytes'', ''stdoutBytes'', ''stderrBytes'', ''snapshotFiles'',
     ''snapshotBytes'', ''tmpBytes'', ''scratchBytes'']"

definition control_hello_limit_keys :: "string list" where
  "control_hello_limit_keys = [''maxFrameBytes'', ''maxJsonDepth'', ''maxJsonNodes'', ''maxPendingOutputBytes'',
     ''maxSessionsPerConnection'', ''maxInflightRequestsPerConnection'', ''maxCompletedOperationsPerSession'',
     ''helloTimeoutMs'', ''requestAckTimeoutMs'', ''workerAttachmentTimeoutMs'', ''sessionWallMs'',
     ''gracefulStopMs'', ''teardownMs'']"

section \<open>Argument records\<close>

definition control_input_ref :: "pyval \<Rightarrow> unit res" where
  "control_input_ref v =
     (let path = the_Str (fld v ''relativePath'') in seqE
       [control_object v [''rootId'', ''relativePath''] [] ''input reference'',
        control_public_id (fld v ''rootId'') ''rootId'',
        control_scalar_string (fld v ''relativePath'') ''relativePath'' 1024 True,
        guardE (\<not> startswith path [slash] \<and> 0 \<notin> set path \<and>
                \<not> (path \<noteq> lit ''.'' \<and> list_ex bad_part (psplit slash path)))
          (ainv ''policy'' ''relativePath is not canonical'')])"

definition control_submission :: "pyval \<Rightarrow> unit res" where
  "control_submission v = seqE
     [guardE (is_Dict v \<and> (fld v ''kind'' = pyl ''prebuilt'' \<or> fld v ''kind'' = pyl ''source''))
        (ainv ''policy'' ''invalid submission''),
      if fld v ''kind'' = pyl ''prebuilt'' then control_object v [''kind'', ''input''] [] ''prebuilt submission''
      else seqE
        [control_object v [''kind'', ''input'', ''buildPlanId'', ''authoring''] [] ''source submission'',
         control_public_id (fld v ''buildPlanId'') ''buildPlanId'',
         guardE (is_Bool (fld v ''authoring'')) (ainv ''policy'' ''authoring must be boolean'')],
      control_input_ref (fld v ''input'')]"

definition control_limits :: "pyval \<Rightarrow> string list \<Rightarrow> bool \<Rightarrow> unit res" where
  "control_limits v ks positive = seqE
     [control_object v [] ks ''limits'',
      seqE (map (\<lambda>(k, item). control_safe item (unlit k) positive) (the_Dict v))]"

definition control_outcome :: "pyval \<Rightarrow> unit res" where
  "control_outcome v = seqE
     [control_object v [''status''] [''failureFamily''] ''outcome summary'',
      guardE (fld v ''status'' \<in> pyl ` set [''passed'', ''mismatch'', ''failed'', ''cancelled'', ''timedOut''])
        (ainv ''cleanup'' ''invalid outcome status''),
      whenE (has v ''failureFamily'') (control_public_id (fld v ''failureFamily'') ''failureFamily'')]"

definition control_attestation :: "pyval \<Rightarrow> unit res" where
  "control_attestation v = seqE
     ([control_object v [''registrationId'', ''request'', ''policy'', ''status'', ''descriptorSchema'', ''semanticDigest'',
         ''adapterId'', ''targetProfile'', ''stateComputerContractVersion''] [] ''attestation''] @
      map (\<lambda>k. control_scalar_string (fld v k) k 128 True)
        [''registrationId'', ''descriptorSchema'', ''adapterId'', ''targetProfile'', ''stateComputerContractVersion''] @
      [guardE (fld v ''request'' = pyl ''verify'' \<and> fld v ''policy'' = pyl ''require'' \<and>
               fld v ''status'' = pyl ''matched'' \<and>
               fld v ''descriptorSchema'' = pyl ''mirrors.model-interface-descriptor/v1'' \<and>
               is_Str (fld v ''semanticDigest'') \<and> re_hex 64 (the_Str (fld v ''semanticDigest'')))
        (ainv ''authorize'' ''invalid required-match attestation'')])"

section \<open>Requests\<close>

definition control_envelope :: "int \<Rightarrow> pyval \<Rightarrow> unit res" where
  "control_envelope version m =
     (case seqE
        [control_object m [''v'', ''kind'', ''id'', ''op'', ''args''] [] ''request envelope'',
         guardE (fld m ''v'' = PInt version \<and> fld m ''kind'' = pyl ''request'') (PyValueError ''''),
         control_safe (fld m ''id'') ''request id'' True,
         guardE (fld m ''op'' \<in> pyl ` set control_operations) PyKeyError] of
        Inl e \<Rightarrow> Inl (afatal ''invalid request envelope or operation'')
      | Inr u \<Rightarrow> Inr u)"

definition control_hello_args :: "pyval \<Rightarrow> unit res" where
  "control_hello_args args =
     (let versions = fld args ''controlVersions''; caps = fld args ''requiredCapabilities'' in seqE
       [control_object args [''controlVersions'', ''requiredCapabilities''] [] ''hello arguments'',
        guardE (is_List versions \<and> 1 \<le> length (the_List versions) \<and> length (the_List versions) \<le> 8 \<and>
                list_all (\<lambda>v. is_Int v \<and> 1 \<le> the_Int v) (the_List versions) \<and> no_dups (the_List versions))
          (ainv ''bootstrap'' ''invalid controlVersions''),
        guardE (is_List caps \<and> length (the_List caps) \<le> 64 \<and> list_all is_Str (the_List caps))
          (ainv ''bootstrap'' ''invalid requiredCapabilities''),
        seqE (map (\<lambda>cap. control_public_id cap ''capability'') (the_List caps)),
        guardE (no_dups (the_List caps)) (ainv ''bootstrap'' ''invalid requiredCapabilities'')])"

text \<open>\<^verbatim>\<open>validate_manifest(_parse_json(...))\<close> with its \<^verbatim>\<open>ProtocolError\<close> replaced; \<open>lim\<close> is the nesting allowance.\<close>

definition control_manifest_json :: "nat \<Rightarrow> pyval \<Rightarrow> unit res" where
  "control_manifest_json lim v = bindE (control_scalar_string v ''manifestJson'' control_max_manifest_bytes False)
     (\<lambda>_. case utf8 (the_Str v) of
        None \<Rightarrow> Inl PyUnicodeError
      | Some data \<Rightarrow>
          (case bindE (port_parse_json lim data) port_validate_manifest of
             Inl (ProtocolError c m) \<Rightarrow> Inl (ainv ''policy'' ''invalid public manifest'')
           | Inl e \<Rightarrow> Inl e
           | Inr m \<Rightarrow> Inr ()))"

text \<open>\<^verbatim>\<open>without = dict(message); without["args"] = dict(args); without["args"].pop("manifestJson")\<close>\<close>

definition without_manifest :: "pyval \<Rightarrow> pyval" where
  "without_manifest m =
     PDict (dset (the_Dict m) (lit ''args'') (PDict (ddel (the_Dict (fld m ''args'')) (lit ''manifestJson''))))"

definition control_metadata_limit :: "pyval \<Rightarrow> unit res" where
  "control_metadata_limit m = bindE (control_encode_frame control_max_frame_bytes (without_manifest m))
     (\<lambda>bs. guardE (length bs - 1 \<le> 65535)
       (ControlProtocolError ''LIMIT_EXCEEDED'' ''policy'' ''session.open metadata exceeds byte limit'' False))"

definition control_open_args :: "nat \<Rightarrow> pyval \<Rightarrow> pyval \<Rightarrow> unit res" where
  "control_open_args lim m args = seqE
     [control_object args [''policyId'', ''submission'', ''runtime'', ''manifestJson''] [''limits'', ''modelRevisionId'']
        ''session.open arguments'',
      control_public_id (fld args ''policyId'') ''policyId'', control_public_id (fld args ''runtime'') ''runtime'',
      control_submission (fld args ''submission''),
      control_manifest_json lim (fld args ''manifestJson''),
      whenE (has args ''limits'') (control_limits (fld args ''limits'') control_limit_keys True),
      whenE (has args ''modelRevisionId'') (seqE
        [control_scalar_string (fld args ''modelRevisionId'') ''modelRevisionId'' 128 True,
         guardE (is_ascii (the_Str (fld args ''modelRevisionId''))) (ainv ''policy'' ''modelRevisionId must be ASCII'')]),
      control_metadata_limit m]"

definition control_required_args :: "(string \<times> string list) list" where
  "control_required_args =
     [(''authoring.exec'', [''sessionId'', ''toolId'', ''arguments'', ''cwd'']), (''session.prepare'', [''sessionId'']),
      (''session.authorize'', [''sessionId'', ''preparedRevision'', ''challenge'', ''attestation'']),
      (''worker.acquire'', [''sessionId'', ''authorizationId'']),
      (''worker.release'', [''sessionId'', ''workerId'', ''reason'']), (''session.cancel'', [''sessionId'', ''reason'']),
      (''session.close'', [''sessionId'']), (''session.status'', [''sessionId'']),
      (''operation.status'', [''sessionId'', ''operationId''])]"

definition control_exec_args :: "pyval \<Rightarrow> unit res" where
  "control_exec_args args =
     (let argv = fld args ''arguments'' in seqE
       [control_public_id (fld args ''toolId'') ''toolId'',
        control_input_ref (PDict [(lit ''rootId'', pyl ''cwd''), (lit ''relativePath'', fld args ''cwd'')]),
        guardE (is_List argv \<and> length (the_List argv) \<le> 256) (ainv ''authoring'' ''invalid arguments''),
        seqE (map (\<lambda>item. control_scalar_string item ''argument'' 65535 False) (the_List argv)),
        guardE (sum_list (map (\<lambda>item. utf8_size (the_Str item)) (the_List argv)) \<le> 65535 \<and>
                list_all (\<lambda>item. 0 \<notin> set (the_Str item)) (the_List argv))
          (ControlProtocolError ''LIMIT_EXCEEDED'' ''authoring'' ''arguments exceed limits'' False)])"

definition control_session_args :: "string \<Rightarrow> pyval \<Rightarrow> unit res" where
  "control_session_args op args = seqE
     [control_object args (the (map_of control_required_args op))
        (if op = ''session.close'' then [''outcomeSummary''] else []) (op @ '' arguments''),
      control_handle (fld args ''sessionId'') ''sessionId'',
      if op = ''authoring.exec'' then control_exec_args args
      else if op = ''session.authorize'' then seqE
        [control_safe (fld args ''preparedRevision'') ''preparedRevision'' True,
         control_handle (fld args ''challenge'') ''challenge'', control_attestation (fld args ''attestation'')]
      else if op = ''worker.acquire'' then control_handle (fld args ''authorizationId'') ''authorizationId''
      else if op = ''worker.release'' then control_handle (fld args ''workerId'') ''workerId''
      else Inr (),
      whenE (op \<in> {''worker.release'', ''session.cancel''})
        (control_enum (fld args ''reason'') control_reasons ''cleanup reason''),
      whenE (op = ''session.close'' \<and> has args ''outcomeSummary'') (control_outcome (fld args ''outcomeSummary'')),
      whenE (op = ''operation.status'') (control_safe (fld args ''operationId'') ''operationId'' True)]"

definition control_validate_request :: "nat \<Rightarrow> pyval \<Rightarrow> pyval res" where
  "control_validate_request lim m =
     (let op = unlit (the_Str (fld m ''op'')); args = fld m ''args'' in retE
       [control_bounds m, control_envelope 1 m,
        if op = ''hello'' then control_hello_args args
        else if op = ''session.open'' then control_open_args lim m args
        else control_session_args op args] m)"

section \<open>Responses\<close>

definition control_validate_error :: "pyval \<Rightarrow> unit res" where
  "control_validate_error v = seqE
     [control_object v [''code'', ''stage'', ''message''] [''operationId''] ''control error'',
      control_enum (fld v ''code'') control_error_codes ''control error code'',
      control_enum (fld v ''stage'') control_error_stages ''control error stage'',
      control_scalar_string (fld v ''message'') ''error message'' 1024 False,
      whenE (has v ''operationId'') (control_safe (fld v ''operationId'') ''operationId'' True)]"

definition control_validate_response :: "pyval \<Rightarrow> pyval option \<Rightarrow> pyval res" where
  "control_validate_response m request = retE
     [control_bounds m,
      if \<not> is_Dict m \<or> fld m ''ok'' = PBool True
      then control_object m [''v'', ''kind'', ''id'', ''ok'', ''result''] [] ''success response''
      else seqE [control_object m [''v'', ''kind'', ''id'', ''ok'', ''error''] [] ''failure response'',
                 control_validate_error (fld m ''error'')],
      guardE (fld m ''v'' = PInt 1 \<and> fld m ''kind'' = pyl ''response'' \<and> is_Bool (fld m ''ok''))
        (ainv ''bootstrap'' ''invalid response envelope''),
      control_safe (fld m ''id'') ''response id'' True,
      (case request of None \<Rightarrow> Inr ()
       | Some r \<Rightarrow> guardE (fld m ''id'' = fld r ''id'') (afatal ''uncorrelated response''))] m"

definition control_validate_terminal_result :: "string \<Rightarrow> pyval \<Rightarrow> pyval res" where
  "control_validate_terminal_result op v = retE
     [control_bounds v,
      if op = ''session.prepare'' then seqE
        ([control_object v [''preparedRevision'', ''artifactId'', ''artifactHash'', ''manifestHash'', ''runtime'',
            ''policyId'', ''challenge''] [''sourceHash''] ''prepared result'',
          guardE (fld v ''preparedRevision'' = PInt 1) (ainv ''prepare'' ''invalid prepared revision''),
          control_handle (fld v ''artifactId'') ''artifactId'', control_handle (fld v ''challenge'') ''challenge''] @
         map (\<lambda>k. whenE (has v k) (control_digest (fld v k) k)) [''artifactHash'', ''manifestHash'', ''sourceHash''] @
         [control_public_id (fld v ''runtime'') ''runtime'', control_public_id (fld v ''policyId'') ''policyId''])
      else if op = ''authoring.exec'' then seqE
        [control_object v [''exitCode'', ''stdoutBytes'', ''stderrBytes''] [] ''command result'',
         guardE (is_Int (fld v ''exitCode'') \<and> safe_int (the_Int (fld v ''exitCode'')))
           (ainv ''authoring'' ''invalid command exit code''),
         control_safe (fld v ''stdoutBytes'') ''stdoutBytes'' False,
         control_safe (fld v ''stderrBytes'') ''stderrBytes'' False]
      else if op \<in> {''worker.release'', ''session.cancel'', ''session.close''} then control_cleanup_result v
      else Inl (ainv ''bootstrap'' ''operation does not have a terminal result'')] v"

definition control_validate_operation_status :: "pyval \<Rightarrow> string option \<Rightarrow> bool \<Rightarrow> pyval res" where
  "control_validate_operation_status v op terminal =
     (let status = fld v ''status'' in
      bindE (seqE
       [control_bounds v,
        guardE (is_Dict v \<and> status \<in> pyl ` set [''pending'', ''succeeded'', ''failed''])
          (ainv ''bootstrap'' ''invalid operation status''),
        control_object v ([''operationId'', ''status''] @ (if status = pyl ''succeeded'' then [''result'']
          else if status = pyl ''failed'' then [''error''] else [])) [] ''operation status'',
        control_safe (fld v ''operationId'') ''operationId'' True,
        guardE (\<not> (terminal \<and> status = pyl ''pending''))
          (ainv ''bootstrap'' ''operation.finished must be terminal''),
        whenE (status = pyl ''failed'') (seqE
          [control_validate_error (fld v ''error''),
           guardE ((if has (fld v ''error'') ''operationId'' then fld (fld v ''error'') ''operationId''
                    else fld v ''operationId'') = fld v ''operationId'')
             (ainv ''bootstrap'' ''operation error correlation mismatch'')])]) (\<lambda>_.
      (case op of
         Some o' \<Rightarrow> if status = pyl ''succeeded''
           then bindE (control_validate_terminal_result o' (fld v ''result'')) (\<lambda>_. Inr v) else Inr v
       | None \<Rightarrow> Inr v)))"

section \<open>Results\<close>

definition control_capability :: "pyval \<Rightarrow> unit res" where
  "control_capability cap =
     (let available = the_Bool (fld cap ''available''); scope = fld cap ''enforcedScope'' in seqE
       [guardE (is_Bool (fld cap ''available'') \<and> scope \<in> pyl ` set [''connection'', ''session'', ''command'', ''process'',
          ''host-uid'', ''host'', ''none'']) (ainv ''bootstrap'' ''invalid capability''),
        control_limits (fld cap ''limits'') (control_hello_limit_keys @ control_limit_keys) False,
        guardE (\<not> (available \<and> (has cap ''reason'' \<or> scope = pyl ''none'') \<or>
                   \<not> available \<and> \<not> has cap ''reason'' \<or> \<not> available \<and> scope \<noteq> pyl ''none''))
          (ainv ''bootstrap'' ''invalid unavailable capability report''),
        whenE (has cap ''reason'') (control_public_id (fld cap ''reason'') ''capability reason'')])"

fun control_capabilities :: "pyval set \<Rightarrow> pyval list \<Rightarrow> unit res" where
  "control_capabilities seen [] = Inr ()"
| "control_capabilities seen (cap # caps) = seqE
     [control_object cap [''id'', ''available'', ''enforcedScope'', ''limits''] [''reason''] ''capability'',
      control_public_id (fld cap ''id'') ''capability id'',
      guardE (fld cap ''id'' \<notin> seen) (ainv ''bootstrap'' ''duplicate capability''),
      control_capability cap,
      control_capabilities (insert (fld cap ''id'') seen) caps]"

definition control_hello_result :: "int \<Rightarrow> pyval \<Rightarrow> pyval \<Rightarrow> unit res" where
  "control_hello_result version args result =
     (let caps = the_List (fld result ''capabilities'');
          wanted = (if has args ''requiredCapabilities'' then the_List (fld args ''requiredCapabilities'') else []) in seqE
       [control_object result [''controlVersion'', ''instanceId'', ''capabilities'', ''limits''] [] ''hello result'',
        guardE (fld result ''controlVersion'' = PInt version)
          (ControlProtocolError ''VERSION_UNSUPPORTED'' ''bootstrap'' ''invalid selected version'' False),
        control_handle (fld result ''instanceId'') ''instanceId'',
        control_limits (fld result ''limits'') control_hello_limit_keys True,
        guardE (set (keys (fld result ''limits'')) = names control_hello_limit_keys)
          (ainv ''bootstrap'' ''hello limits are incomplete''),
        guardE (is_List (fld result ''capabilities'') \<and> length caps \<le> 64) (ainv ''bootstrap'' ''invalid capability array''),
        control_capabilities {} caps,
        guardE (set wanted \<subseteq> set (map (\<lambda>c. fld c ''id'') (filter (\<lambda>c. the_Bool (fld c ''available'')) caps)))
          (ControlProtocolError ''CAPABILITY_UNAVAILABLE'' ''bootstrap'' ''required capability was not negotiated'' False)])"

definition control_worker_descriptor :: "string \<Rightarrow> pyval \<Rightarrow> unit res" where
  "control_worker_descriptor mode result =
     (let endpoint = fld result ''endpoint''; path = the_Str (fld endpoint ''path'') in seqE
       [control_object result [''workerId'', ''endpoint'', ''attachmentToken'', ''attachmentTimeoutMs'', ''releaseMode''] []
          ''worker descriptor'',
        control_handle (fld result ''workerId'') ''workerId'',
        control_object endpoint [''kind'', ''path''] [] ''endpoint'',
        control_scalar_string (fld endpoint ''path'') ''worker endpoint'' 107 True,
        guardE (fld endpoint ''kind'' = pyl ''unix'' \<and> startswith path [slash] \<and> 0 \<notin> set path \<and>
                \<not> list_ex bad_part (tl (psplit slash path))) (ainv ''attach'' ''invalid worker endpoint''),
        guardE (is_Str (fld result ''attachmentToken'') \<and> re_hex 64 (the_Str (fld result ''attachmentToken'')))
          (ainv ''attach'' ''invalid attachment token''),
        control_safe (fld result ''attachmentTimeoutMs'') ''attachmentTimeoutMs'' True,
        guardE (fld result ''releaseMode'' = pyl mode) (ainv ''attach'' ''invalid releaseMode'')])"

definition control_session_status :: "pyval \<Rightarrow> unit res" where
  "control_session_status result =
     (let resources = fld result ''resources''; cleanup = fld result ''cleanup'' in seqE
       [control_object result [''phase'', ''resources'', ''cleanup''] [] ''session status'',
        control_enum (fld result ''phase'') control_phases ''session phase'',
        control_object resources [''authoringProcesses'', ''buildProcesses'', ''workers'', ''snapshots''] [] ''resources'',
        seqE (map (\<lambda>(k, v). control_safe v (unlit k) False) (the_Dict resources)),
        control_object cleanup [''status'', ''remainingResources''] [] ''cleanup'',
        control_enum (fld cleanup ''status'') [''notStarted'', ''pending'', ''succeeded'', ''failed''] ''cleanup status'',
        control_remaining_resources (fld cleanup ''remainingResources''),
        whenE (fld result ''phase'' \<in> {pyl ''closed'', pyl ''cleanupFailed''})
          (control_cleanup_result (PDict [(lit ''phase'', fld result ''phase''),
             (lit ''cleanupStatus'', fld cleanup ''status''),
             (lit ''remainingResources'', fld cleanup ''remainingResources'')]))])"

definition control_success_result :: "int \<Rightarrow> pyval \<Rightarrow> pyval \<Rightarrow> string option \<Rightarrow> unit res" where
  "control_success_result version request result operation =
     (let op = fld request ''op'' in
      if op = pyl ''hello'' then control_hello_result version (fld request ''args'') result
      else if op = pyl ''session.open'' then seqE
        [control_object result [''sessionId''] [] ''session.open result'', control_handle (fld result ''sessionId'') ''sessionId'']
      else if op \<in> pyl ` set [''authoring.exec'', ''session.prepare'', ''session.cancel'', ''session.close''] then seqE
        [control_object result [''operationId''] [] ''accepted result'',
         control_safe (fld result ''operationId'') ''operationId'' True]
      else if op = pyl ''worker.release'' then seqE
        [control_object result [''operationId'', ''cleanupMode''] [] ''worker.release result'',
         control_safe (fld result ''operationId'') ''operationId'' True,
         guardE (fld result ''cleanupMode'' \<in> {pyl ''dispose-then-terminate'', pyl ''terminate-only''})
           (ainv ''cleanup'' ''invalid cleanupMode'')]
      else if op = pyl ''session.authorize'' then seqE
        [control_object result [''authorizationId''] [] ''authorize result'',
         control_handle (fld result ''authorizationId'') ''authorizationId'']
      else if op = pyl ''worker.acquire'' then control_worker_descriptor ''control-v1'' result
      else if op = pyl ''operation.status'' then
        bindE (control_validate_operation_status result operation False) (\<lambda>_.
          guardE (fld result ''operationId'' = fld (fld request ''args'') ''operationId'')
            (ainv ''bootstrap'' ''operation status correlation mismatch''))
      else if op = pyl ''session.status'' then control_session_status result
      else Inr ())"

definition control_validate_result :: "pyval \<Rightarrow> pyval \<Rightarrow> string option \<Rightarrow> pyval res" where
  "control_validate_result request response operation =
     bindE (control_validate_response response (Some request)) (\<lambda>_.
     if \<not> the_Bool (fld response ''ok'') then Inr (fld response ''error'')
     else retE [control_success_result 1 request (fld response ''result'') operation] (fld response ''result''))"

section \<open>Events and attachments\<close>

text \<open>The \<^verbatim>\<open>try\<close> around \<^verbatim>\<open>b64decode\<close> turns every failure, a non-string included, into one error.\<close>

definition control_output_event :: "pyval \<Rightarrow> unit res" where
  "control_output_event d = seqE
     [control_object d [''operationId'', ''stream'', ''chunk'', ''bytesBase64''] [] ''output event'',
      control_safe (fld d ''operationId'') ''operationId'' True, control_safe (fld d ''chunk'') ''chunk'' True,
      guardE (fld d ''stream'' \<in> {pyl ''stdout'', pyl ''stderr''}) (ainv ''bootstrap'' ''invalid output stream''),
      (case (if is_Str (fld d ''bytesBase64'') then b64decode (the_Str (fld d ''bytesBase64'')) else None) of
         None \<Rightarrow> Inl (ainv ''bootstrap'' ''invalid output base64'')
       | Some decoded \<Rightarrow> guardE (b64encode decoded = the_Str (fld d ''bytesBase64'') \<and>
                                length decoded \<le> control_max_output_chunk_bytes)
           (ainv ''bootstrap'' ''noncanonical or oversized output base64''))]"

definition control_event_data :: "string \<Rightarrow> pyval \<Rightarrow> string option \<Rightarrow> unit res" where
  "control_event_data name d operation =
     (if name = ''operation.finished'' then bindE (control_validate_operation_status d operation True) (\<lambda>_. Inr ())
      else if name \<in> {''authoring.output'', ''build.output''} then control_output_event d
      else if name \<in> {''worker.started'', ''worker.ready''} then seqE
        [control_object d [''workerId''] [] name, control_handle (fld d ''workerId'') ''workerId'']
      else if name = ''worker.closing'' then seqE
        [control_object d [''workerId'', ''reason''] [] name, control_handle (fld d ''workerId'') ''workerId'',
         control_enum (fld d ''reason'') control_reasons ''cleanup reason'']
      else if name = ''worker.exited'' then seqE
        [control_object d [''workerId'', ''reason''] [''exitCode''] name, control_handle (fld d ''workerId'') ''workerId'',
         control_scalar_string (fld d ''reason'') ''reason'' 128 True,
         control_enum (fld d ''reason'') control_reasons ''worker exit reason'',
         guardE (has d ''exitCode'' \<longrightarrow> is_Int (fld d ''exitCode'') \<and> safe_int (the_Int (fld d ''exitCode'')))
           (ainv ''worker'' ''invalid exitCode'')]
      else if name = ''session.closed'' then control_cleanup_result d
      else Inr ())"

definition control_validate_event :: "pyval \<Rightarrow> string option \<Rightarrow> pyval res" where
  "control_validate_event m operation = retE
     [control_bounds m,
      control_object m [''v'', ''kind'', ''seq'', ''sessionId'', ''event'', ''data''] [] ''event envelope'',
      guardE (fld m ''v'' = PInt 1 \<and> fld m ''kind'' = pyl ''event'' \<and> fld m ''event'' \<in> pyl ` set control_events)
        (afatal ''invalid event envelope''),
      control_safe (fld m ''seq'') ''event sequence'' True, control_handle (fld m ''sessionId'') ''sessionId'',
      control_event_data (unlit (the_Str (fld m ''event''))) (fld m ''data'') operation] m"

definition control_validate_attachment :: "bool \<Rightarrow> pyval \<Rightarrow> pyval res" where
  "control_validate_attachment success m = retE
     [control_object m ([''v'', ''kind'', ''sessionId'', ''workerId''] @ (if success then [] else [''attachmentToken''])) []
        ''attachment record'',
      guardE (fld m ''v'' = PInt 1 \<and> fld m ''kind'' = pyl (if success then ''attached'' else ''attach''))
        (ControlProtocolError ''ATTACHMENT_FAILED'' ''attach'' ''invalid attachment kind'' True),
      control_handle (fld m ''sessionId'') ''sessionId'', control_handle (fld m ''workerId'') ''workerId'',
      whenE (\<not> success) (guardE (is_Str (fld m ''attachmentToken'') \<and> re_hex 64 (the_Str (fld m ''attachmentToken'')))
        (ControlProtocolError ''ATTACHMENT_FAILED'' ''attach'' ''invalid attachment token'' True)),
      bindE (control_encode_frame control_max_attachment_frame_bytes m) (\<lambda>bs.
        guardE (length bs \<le> control_max_attachment_frame_bytes + 1)
          (ControlProtocolError ''ATTACHMENT_FAILED'' ''attach'' ''attachment record too large'' True))] m"

datatype control_codec = CodecV1 | CodecV2

definition codec_for_version :: "pyval \<Rightarrow> control_codec res" where
  "codec_for_version version =
     (if version = PInt 1 then Inr CodecV1
      else if version = PInt 2 then Inr CodecV2
      else Inl (ControlProtocolError ''VERSION_UNSUPPORTED'' ''bootstrap'' ''unsupported control version'' True))"

end
