(* ===== verification/ControlProtocolV2.thy ===== *)
theory ControlProtocolV2
  imports ControlProtocol
begin

text \<open>
  Control protocol v2 (\<^verbatim>\<open>control_protocol_v2.py\<close>): the hosting records on top of the v1 validators,
  and the choice of the control version.  \<open>run_ok\<close> and \<open>public_task_ok\<close> state what an accepted hosted
  run and an accepted public task satisfy.
\<close>

definition v2_operations :: "string list" where
  "v2_operations = control_operations @ [''agent.start'', ''agent.status'', ''agent.cancel'']"

definition v2_events :: "string list" where
  "v2_events = control_events @ [''agent.updated'', ''agent.finished'']"

definition v2_run_phases :: "string list" where
  "v2_run_phases = [''starting'', ''running'', ''submitting'', ''cleaning'', ''finished'']"

definition v2_run_outcomes :: "string list" where
  "v2_run_outcomes = [''submitted'', ''failed'', ''cancelled'', ''timedOut'']"

definition v2_error_codes :: "string list" where
  "v2_error_codes = control_error_codes @ [''AGENT_START_FAILED'', ''AGENT_EXITED'', ''AUDIT_UNAVAILABLE'']"

definition v2_error_stages :: "string list" where
  "v2_error_stages = control_error_stages @ [''hosting'']"

definition v2_host_limits :: "(string \<times> int) list" where
  "v2_host_limits = [(''wallMs'', 300000), (''stdoutBytes'', 1048576), (''stderrBytes'', 1048576),
     (''progressRecords'', 256), (''progressBytes'', 262144), (''progressRecordBytes'', 16384)]"

definition v2_max_instruction_bytes :: nat where "v2_max_instruction_bytes = 65536"
definition v2_max_public_files :: nat where "v2_max_public_files = 128"
definition v2_max_public_file_bytes :: nat where "v2_max_public_file_bytes = 262144"
definition v2_max_public_path_bytes :: nat where "v2_max_public_path_bytes = 1024"

text \<open>\<^verbatim>\<open>dict(message, key=value)\<close>\<close>

definition with_field :: "pyval \<Rightarrow> string \<Rightarrow> pyval \<Rightarrow> pyval" where
  "with_field m k v = PDict (dset (the_Dict m) (lit k) v)"

section \<open>Public tasks and limits\<close>

definition path_collides :: "pystr \<Rightarrow> pystr \<Rightarrow> bool" where
  "path_collides p q \<longleftrightarrow> p = q \<or> startswith p (q @ [slash]) \<or> startswith q (p @ [slash])"

definition v2_public_path :: "pystr \<Rightarrow> bool" where
  "v2_public_path path \<longleftrightarrow> \<not> startswith path [slash] \<and> 92 \<notin> set path \<and> 0 \<notin> set path \<and>
     \<not> list_ex bad_part (psplit slash path) \<and> hd (psplit slash path) \<noteq> lit ''.mirrorgate''"

fun v2_public_files :: "pystr list \<Rightarrow> nat \<Rightarrow> pyval list \<Rightarrow> unit res" where
  "v2_public_files paths tot [] = Inr ()"
| "v2_public_files paths tot (item # items) =
     (let path = the_Str (fld item ''path''); tot' = tot + utf8_size (the_Str (fld item ''text'')) in seqE
       [control_object item [''path'', ''text''] [] ''public file'',
        control_scalar_string (fld item ''path'') ''public file path'' v2_max_public_path_bytes True,
        guardE (v2_public_path path) (ainv ''hosting'' ''noncanonical or reserved public file path''),
        guardE (\<not> list_ex (path_collides path) paths) (ainv ''hosting'' ''colliding public file paths''),
        control_scalar_string (fld item ''text'') ''public file text'' v2_max_public_file_bytes False,
        guardE (tot' \<le> v2_max_public_file_bytes)
          (ControlProtocolError ''LIMIT_EXCEEDED'' ''hosting'' ''public file text exceeds aggregate limit'' False),
        v2_public_files (path # paths) tot' items])"

definition v2_validate_public_task :: "pyval \<Rightarrow> pyval res" where
  "v2_validate_public_task v = retE
     [control_bounds v, control_object v [''instructions'', ''files''] [] ''public task'',
      control_scalar_string (fld v ''instructions'') ''instructions'' v2_max_instruction_bytes True,
      guardE (is_List (fld v ''files'') \<and> length (the_List (fld v ''files'')) \<le> v2_max_public_files)
        (ControlProtocolError ''LIMIT_EXCEEDED'' ''hosting'' ''public files exceed count limit'' False),
      v2_public_files [] 0 (the_List (fld v ''files''))] v"

definition v2_validate_host_limits :: "bool \<Rightarrow> pyval \<Rightarrow> unit res" where
  "v2_validate_host_limits complete v =
     (let ks = map fst v2_host_limits in seqE
       [control_object v (if complete then ks else []) (if complete then [] else ks) ''hosting limits'',
        seqE (map (\<lambda>(k, item). seqE
          [control_safe item (unlit k) True,
           guardE (the_Int item \<le> the (map_of v2_host_limits (unlit k)))
             (ControlProtocolError ''LIMIT_EXCEEDED'' ''hosting'' (unlit k @ '' exceeds hosting ceiling'') False)])
          (the_Dict v))])"

section \<open>Requests\<close>

definition v2_agent_args :: "string \<Rightarrow> pyval \<Rightarrow> unit res" where
  "v2_agent_args op args = seqE
     [control_object args
        (if op = ''agent.start'' then [''sessionId'', ''profileId'', ''publicTask'']
         else if op = ''agent.status'' then [''sessionId''] else [''sessionId'', ''runId'', ''reason''])
        (if op = ''agent.start'' then [''limits''] else if op = ''agent.status'' then [''runId''] else [])
        (op @ '' arguments''),
      control_handle (fld args ''sessionId'') ''sessionId'',
      whenE (has args ''runId'') (control_handle (fld args ''runId'') ''runId''),
      if op = ''agent.start'' then seqE
        [control_public_id (fld args ''profileId'') ''profileId'',
         bindE (v2_validate_public_task (fld args ''publicTask'')) (\<lambda>_. Inr ()),
         whenE (has args ''limits'') (v2_validate_host_limits False (fld args ''limits''))]
      else whenE (op = ''agent.cancel'') (control_enum (fld args ''reason'') control_reasons ''cancellation reason'')]"

definition v2_validate_request :: "nat \<Rightarrow> pyval \<Rightarrow> pyval res" where
  "v2_validate_request lim m =
     bindE (seqE [control_bounds m,
                  control_object m [''v'', ''kind'', ''id'', ''op'', ''args''] [] ''request envelope'']) (\<lambda>_.
     if fld m ''op'' = pyl ''hello'' then control_validate_request lim m
     else bindE (seqE
       [guardE (fld m ''v'' = PInt 2 \<and> fld m ''kind'' = pyl ''request'' \<and> fld m ''op'' \<in> pyl ` set v2_operations)
          (afatal ''invalid v2 request envelope or operation''),
        control_safe (fld m ''id'') ''request id'' True]) (\<lambda>_.
       if \<not> startswith (the_Str (fld m ''op'')) (lit ''agent.'')
       then bindE (control_validate_request lim (with_field m ''v'' (PInt 1))) (\<lambda>_. Inr m)
       else retE [v2_agent_args (unlit (the_Str (fld m ''op''))) (fld m ''args'')] m))"

section \<open>Hosted runs\<close>

definition v2_validate_error :: "pyval \<Rightarrow> unit res" where
  "v2_validate_error v = seqE
     [control_object v [''code'', ''stage'', ''message''] [''operationId''] ''control error'',
      control_enum (fld v ''code'') v2_error_codes ''error code'',
      control_enum (fld v ''stage'') v2_error_stages ''error stage'',
      control_scalar_string (fld v ''message'') ''error message'' 1024 False,
      whenE (has v ''operationId'') (control_safe (fld v ''operationId'') ''operationId'' True)]"

definition v2_validate_submission :: "pyval \<Rightarrow> unit res" where
  "v2_validate_submission v = seqE
     [control_object v [''submissionId'', ''sourceHash'', ''sourceRevision''] [] ''source submission'',
      control_handle (fld v ''submissionId'') ''submissionId'', control_digest (fld v ''sourceHash'') ''sourceHash'',
      guardE (fld v ''sourceRevision'' = PInt 1) (ainv ''hosting'' ''invalid source revision'')]"

text \<open>The records of the progress window: sequence numbers from \<open>seq\<close>, tot encoded size from \<open>tot\<close>.\<close>

fun v2_progress_records :: "int \<Rightarrow> nat \<Rightarrow> int \<Rightarrow> pyval list \<Rightarrow> nat res" where
  "v2_progress_records limit tot seq [] = Inr tot"
| "v2_progress_records limit tot seq (r # rs) =
     bindE (seqE
       [control_object r [''seq'', ''message''] [] ''progress record'',
        guardE (fld r ''seq'' = PInt seq) (ainv ''hosting'' ''noncontiguous progress sequence''),
        control_scalar_string (fld r ''message'') ''progress message'' (nat limit) False]) (\<lambda>_.
     bindE (control_encode_frame control_max_frame_bytes r) (\<lambda>bs.
     let n = length bs - 1 in
     if limit < int n
     then Inl (ControlProtocolError ''LIMIT_EXCEEDED'' ''hosting'' ''progress record exceeds encoded byte limit'' False)
     else v2_progress_records limit (tot + n) (seq + 1) rs))"

definition v2_validate_progress :: "pyval \<Rightarrow> pyval \<Rightarrow> unit res" where
  "v2_validate_progress limits progress =
     (let first = the_Int (fld progress ''firstSeq''); records = fld progress ''records'' in
      bindE (seqE
       [control_object progress [''firstSeq'', ''nextSeq'', ''truncated'', ''records''] [] ''run progress'',
        control_safe (fld progress ''firstSeq'') ''firstSeq'' True,
        control_safe (fld progress ''nextSeq'') ''nextSeq'' True,
        guardE (fld progress ''truncated'' = PBool (1 < first) \<and> is_List records \<and>
                int (length (the_List records)) \<le> the_Int (fld limits ''progressRecords'') \<and>
                the_Int (fld progress ''nextSeq'') = first + int (length (the_List records)))
          (ainv ''hosting'' ''invalid bounded progress window'')]) (\<lambda>_.
      bindE (v2_progress_records (the_Int (fld limits ''progressRecordBytes'')) 0 first (the_List records)) (\<lambda>tot.
      guardE (int tot \<le> the_Int (fld limits ''progressBytes''))
        (ControlProtocolError ''LIMIT_EXCEEDED'' ''hosting'' ''progress window exceeds encoded byte limit'' False))))"

definition v2_expected_cleanup :: "pyval \<Rightarrow> pyval set" where
  "v2_expected_cleanup phase =
     (if phase = pyl ''cleaning'' then {pyl ''pending''}
      else if phase = pyl ''finished'' then {pyl ''succeeded'', pyl ''failed''} else {pyl ''notStarted''})"

definition v2_validate_run :: "pyval \<Rightarrow> pyval res" where
  "v2_validate_run v =
     (let phase = fld v ''phase''; cleanup = fld v ''cleanup''; limits = fld v ''limits'' in retE
       [control_bounds v,
        control_object v [''runId'', ''phase'', ''cleanup'', ''limits'', ''progress''] [''outcome'', ''submission'', ''error'']
          ''hosted run'',
        control_handle (fld v ''runId'') ''runId'',
        control_enum phase v2_run_phases ''run phase'',
        v2_validate_host_limits True limits,
        control_object cleanup [''status'', ''remainingResources''] [] ''hosting cleanup'',
        control_enum (fld cleanup ''status'') [''notStarted'', ''pending'', ''succeeded'', ''failed''] ''cleanup status'',
        control_remaining_resources (fld cleanup ''remainingResources''),
        guardE (\<not> (fld cleanup ''status'' \<in> {pyl ''notStarted'', pyl ''succeeded''} \<and>
                   the_List (fld cleanup ''remainingResources'') \<noteq> []))
          (ainv ''hosting'' ''incoherent hosting cleanup''),
        whenE (has v ''outcome'') (control_enum (fld v ''outcome'') v2_run_outcomes ''run outcome''),
        whenE (has v ''submission'') (v2_validate_submission (fld v ''submission'')),
        guardE ((fld v ''outcome'' = pyl ''submitted'') = has v ''submission'')
          (ainv ''hosting'' ''submission and primary outcome disagree''),
        whenE (has v ''error'') (v2_validate_error (fld v ''error'')),
        guardE ((fld v ''outcome'' \<in> {pyl ''failed'', pyl ''cancelled'', pyl ''timedOut''}) = has v ''error'')
          (ainv ''hosting'' ''failure outcome and primary error disagree''),
        guardE (fld cleanup ''status'' \<in> v2_expected_cleanup phase \<and>
                (phase \<in> {pyl ''cleaning'', pyl ''finished''}) = has v ''outcome'')
          (ainv ''hosting'' ''run phase and outcome/cleanup disagree''),
        v2_validate_progress limits (fld v ''progress'')] v)"

section \<open>Responses, results and events\<close>

definition v2_validate_response :: "pyval \<Rightarrow> pyval option \<Rightarrow> pyval res" where
  "v2_validate_response m request = retE
     [control_bounds m,
      if is_Dict m \<and> fld m ''ok'' = PBool True
      then control_object m [''v'', ''kind'', ''id'', ''ok'', ''result''] [] ''success response''
      else seqE [control_object m [''v'', ''kind'', ''id'', ''ok'', ''error''] [] ''failure response'',
                 v2_validate_error (fld m ''error'')],
      guardE (fld m ''v'' = PInt (case request of Some r \<Rightarrow> if fld r ''op'' = pyl ''hello'' then 1 else 2 | None \<Rightarrow> 2) \<and>
              fld m ''kind'' = pyl ''response'' \<and> is_Bool (fld m ''ok''))
        (ainv ''bootstrap'' ''invalid response envelope''),
      control_safe (fld m ''id'') ''response id'' True,
      (case request of None \<Rightarrow> Inr ()
       | Some r \<Rightarrow> guardE (fld m ''id'' = fld r ''id'') (afatal ''uncorrelated response''))] m"

definition v2_hello_result :: "pyval \<Rightarrow> pyval \<Rightarrow> pyval \<Rightarrow> unit res" where
  "v2_hello_result request response result =
     (let selected = fld result ''controlVersion'' in
      bindE (guardE (is_Dict result \<and> selected \<in> {PInt 1, PInt 2} \<and>
                     selected \<in> set (the_List (fld (fld request ''args'') ''controlVersions'')))
        (ControlProtocolError ''VERSION_UNSUPPORTED'' ''bootstrap'' ''selected control version was not offered'' False)) (\<lambda>_.
      bindE (control_validate_result request
        (with_field response ''result'' (with_field result ''controlVersion'' (PInt 1))) None) (\<lambda>_.
      guardE (\<not> (selected = PInt 1 \<and>
          list_ex (\<lambda>cap. startswith (the_Str (fld cap ''id'')) (lit ''hosting.'')) (the_List (fld result ''capabilities''))))
        (ainv ''bootstrap'' ''v1 selection exposes hosting capability''))))"

definition v2_run_result :: "pyval \<Rightarrow> pyval \<Rightarrow> unit res" where
  "v2_run_result request result =
     (let op = fld request ''op''; args = fld request ''args''; run = fld result ''run'' in
      bindE (control_object result [''run''] [] ''run result'') (\<lambda>_.
      if run = PNone then guardE (op = pyl ''agent.status'' \<and> \<not> has args ''runId'')
        (ControlProtocolError ''HANDLE_INVALID'' ''hosting'' ''explicit run cannot be absent'' False)
      else bindE (v2_validate_run run) (\<lambda>_. seqE
        [guardE ((if has args ''runId'' then fld args ''runId'' else fld run ''runId'') = fld run ''runId'')
           (ControlProtocolError ''HANDLE_INVALID'' ''hosting'' ''uncorrelated run result'' False),
         guardE (\<not> (op = pyl ''agent.cancel'' \<and> fld run ''phase'' \<noteq> pyl ''finished''))
           (ainv ''hosting'' ''cancellation must join hosting cleanup'')])))"

definition v2_validate_result :: "nat \<Rightarrow> pyval \<Rightarrow> pyval \<Rightarrow> string option \<Rightarrow> pyval res" where
  "v2_validate_result lim request response operation =
     bindE (v2_validate_request lim request) (\<lambda>_.
     bindE (v2_validate_response response (Some request)) (\<lambda>_.
     if \<not> the_Bool (fld response ''ok'') then Inr (fld response ''error'')
     else (let op = fld request ''op''; result = fld response ''result'' in
       bindE
        (if op = pyl ''hello'' then v2_hello_result request response result
         else if op = pyl ''agent.start'' then seqE
           [control_object result [''runId''] [] ''accepted run'', control_handle (fld result ''runId'') ''runId'']
         else if op \<in> {pyl ''agent.status'', pyl ''agent.cancel''} then v2_run_result request result
         else if op = pyl ''session.status'' \<and> is_Dict result \<and> fld result ''phase'' = pyl ''submitted'' then
           bindE (control_validate_result (with_field request ''v'' (PInt 1))
             (with_field (with_field response ''v'' (PInt 1)) ''result'' (with_field result ''phase'' (pyl ''authoring''))) None)
             (\<lambda>_. guardE (fld (fld result ''cleanup'') ''status'' = pyl ''notStarted'')
               (ainv ''hosting'' ''submitted session already closing''))
         else bindE (control_validate_result (with_field request ''v'' (PInt 1)) (with_field response ''v'' (PInt 1)) operation)
           (\<lambda>_. Inr ()))
        (\<lambda>_. Inr result))))"

definition v2_validate_event :: "pyval \<Rightarrow> string option \<Rightarrow> pyval res" where
  "v2_validate_event m operation =
     bindE (seqE
       [control_bounds m,
        control_object m [''v'', ''kind'', ''seq'', ''sessionId'', ''event'', ''data''] [] ''event envelope'',
        guardE (fld m ''v'' = PInt 2 \<and> fld m ''kind'' = pyl ''event'' \<and> fld m ''event'' \<in> pyl ` set v2_events)
          (afatal ''invalid v2 event envelope''),
        control_safe (fld m ''seq'') ''event sequence'' True,
        control_handle (fld m ''sessionId'') ''sessionId'']) (\<lambda>_.
     if startswith (the_Str (fld m ''event'')) (lit ''agent.'')
     then bindE (control_object (fld m ''data'') [''run''] [] ''run event'') (\<lambda>_.
       let run = fld (fld m ''data'') ''run'' in
       bindE (v2_validate_run run) (\<lambda>_.
       retE [guardE ((fld run ''phase'' = pyl ''finished'') = (fld m ''event'' = pyl ''agent.finished''))
         (ainv ''hosting'' ''run event and phase disagree'')] m))
     else bindE (control_validate_event (with_field m ''v'' (PInt 1)) operation) (\<lambda>_. Inr m))"

definition select_control_version :: "nat \<Rightarrow> int list \<Rightarrow> pyval \<Rightarrow> int res" where
  "select_control_version lim supported hello =
     bindE (control_validate_request lim hello) (\<lambda>_.
     bindE (guardE (fld hello ''op'' = pyl ''hello'') (afatal ''hello required'')) (\<lambda>_.
     let candidates = set (map the_Int (the_List (fld (fld hello ''args'') ''controlVersions''))) \<inter> set supported in
     if candidates = {} then
       Inl (ControlProtocolError ''VERSION_UNSUPPORTED'' ''bootstrap'' ''no supported control version'' False)
     else Inr (Max candidates)))"

end
