(* ===== verification/ControlPolicy.thy ===== *)
theory ControlPolicy
  imports SourceView ControlProtocolV2
begin

text \<open>
  Operator policies (\<^verbatim>\<open>supervisor/mirrorgate/control_policy.py\<close>, up to \<^verbatim>\<open>RuntimePlan\<close>): catalog checks,
  control limits and how a request tightens them, approved roots and path resolution, build plans, tool
  plans and runtime plans.  \<^verbatim>\<open>AdmissionError\<close> is the error of every rejection except where the source
  lets another exception through (a path that is not a string).
\<close>

definition policy_object :: "pyval \<Rightarrow> string list \<Rightarrow> string \<Rightarrow> unit res" where
  "policy_object v expected label = guardE (is_Dict v \<and> set (keys v) = names expected)
     (AdmissionError (label @ '' fields do not match the control policy schema''))"

definition policy_array :: "pyval \<Rightarrow> string \<Rightarrow> bool \<Rightarrow> pyval list res" where
  "policy_array v label nonempty = (if is_List v \<and> \<not> (nonempty \<and> the_List v = []) then Inr (the_List v)
     else Inl (AdmissionError (label @ '' must be '' @ (if nonempty then ''a nonempty '' else ''an '') @ ''array'')))"

definition policy_id :: "pyval \<Rightarrow> string \<Rightarrow> pystr res" where
  "policy_id v label = (if is_Str v \<and> re_identifier (the_Str v) then Inr (the_Str v)
     else Inl (AdmissionError (label @ '' is not a valid catalog ID'')))"

definition opaque_ascii :: "pyval \<Rightarrow> string \<Rightarrow> pystr res" where
  "opaque_ascii v label =
     (if is_Str v \<and> the_Str v \<noteq> [] \<and> is_ascii (the_Str v) \<and> length (the_Str v) \<le> 128 \<and>
         list_all (\<lambda>c. 33 \<le> c \<and> c \<le> 126) (the_Str v)
      then Inr (the_Str v) else Inl (AdmissionError (label @ '' must be bounded printable ASCII'')))"

definition checked_relative_path :: "pyval \<Rightarrow> string \<Rightarrow> pystr res" where
  "checked_relative_path v label =
     (let bound = AdmissionError (label @ '' must be a bounded UTF-8 relative path'') in
      case v of
        PStr s \<Rightarrow> (case utf8_len s of
            None \<Rightarrow> Inl (AdmissionError (label @ '' must contain Unicode scalars''))
          | Some n \<Rightarrow> retE
              [guardE (0 \<notin> set s \<and> n \<le> 1024) bound,
               guardE (\<not> pp_absolute s \<and> lit ''..'' \<notin> set (pp_parts s) \<and> pp_str s = s \<and> s \<noteq> [])
                 (AdmissionError (label @ '' must be canonical and relative''))] s)
      | _ \<Rightarrow> Inl bound)"

definition policy_command :: "pyval \<Rightarrow> string \<Rightarrow> pystr list res" where
  "policy_command v label =
     bindE (policy_array v label True) (\<lambda>items.
     bindE (seqE
       [guardE (length items \<le> 256) (AdmissionError (label @ '' contains invalid arguments'')),
        bounded_args items (label @ '' contains invalid arguments'') (label @ '' must contain Unicode scalars'')
          (label @ '' exceeds the argument byte limit''),
        guardE (pp_absolute (the_Str (hd items)))
          (AdmissionError (label @ '' executable must be an absolute sandbox path''))]) (\<lambda>_.
     Inr (map the_Str items)))"

text \<open>\<^verbatim>\<open>_unique\<close>: the dict from IDs to items, in the order of the items.\<close>

fun policy_unique :: "('a \<Rightarrow> pystr) \<Rightarrow> string \<Rightarrow> (pystr \<times> 'a) list \<Rightarrow> 'a list \<Rightarrow> (pystr \<times> 'a) list res" where
  "policy_unique key label acc [] = Inr acc"
| "policy_unique key label acc (x # xs) =
     (if key x \<in> set (map fst acc) then Inl (AdmissionError (''duplicate '' @ label @ '' ID''))
      else policy_unique key label (acc @ [(key x, x)]) xs)"

section \<open>Limits\<close>

record climits =
  session_wall_ms :: int
  execution_wall_ms :: int
  command_cpu_seconds :: int
  c_address_space_bytes :: int
  c_uid_processes :: int
  c_open_files :: int
  c_file_bytes :: int
  c_stdout_bytes :: int
  c_stderr_bytes :: int
  snapshot_files :: int
  snapshot_bytes :: int
  c_tmp_bytes :: int
  c_scratch_bytes :: int

definition climit_fields :: "string list" where
  "climit_fields = [''sessionWallMs'', ''executionWallMs'', ''commandCpuSeconds'', ''addressSpaceBytes'', ''uidProcesses'',
     ''openFiles'', ''fileBytes'', ''stdoutBytes'', ''stderrBytes'', ''snapshotFiles'', ''snapshotBytes'', ''tmpBytes'',
     ''scratchBytes'']"

definition climit_item :: "pystr \<Rightarrow> pyval \<Rightarrow> unit res" where
  "climit_item name v = guardE (is_Int v \<and> 1 \<le> the_Int v \<and> the_Int v \<le> max_safe_integer)
     (AdmissionError (unlit name @ '' must be a positive bounded integer''))"

definition climits_parse :: "pyval \<Rightarrow> climits res" where
  "climits_parse v = (let g = (\<lambda>k. the_Int (fld v k)) in retE
     [policy_object v climit_fields ''limits'',
      seqE (map (\<lambda>(k, x). climit_item k x) (the_Dict v)),
      guardE (32 \<le> g ''openFiles'') (AdmissionError ''openFiles must be at least 32'')]
     \<lparr>session_wall_ms = g ''sessionWallMs'', execution_wall_ms = g ''executionWallMs'',
      command_cpu_seconds = g ''commandCpuSeconds'', c_address_space_bytes = g ''addressSpaceBytes'',
      c_uid_processes = g ''uidProcesses'', c_open_files = g ''openFiles'', c_file_bytes = g ''fileBytes'',
      c_stdout_bytes = g ''stdoutBytes'', c_stderr_bytes = g ''stderrBytes'', snapshot_files = g ''snapshotFiles'',
      snapshot_bytes = g ''snapshotBytes'', c_tmp_bytes = g ''tmpBytes'', c_scratch_bytes = g ''scratchBytes''\<rparr>)"

definition climits_as_wire :: "climits \<Rightarrow> (pystr \<times> pyval) list" where
  "climits_as_wire l =
     [(lit ''sessionWallMs'', PInt (session_wall_ms l)), (lit ''executionWallMs'', PInt (execution_wall_ms l)),
      (lit ''commandCpuSeconds'', PInt (command_cpu_seconds l)), (lit ''addressSpaceBytes'', PInt (c_address_space_bytes l)),
      (lit ''uidProcesses'', PInt (c_uid_processes l)), (lit ''openFiles'', PInt (c_open_files l)),
      (lit ''fileBytes'', PInt (c_file_bytes l)), (lit ''stdoutBytes'', PInt (c_stdout_bytes l)),
      (lit ''stderrBytes'', PInt (c_stderr_bytes l)), (lit ''snapshotFiles'', PInt (snapshot_files l)),
      (lit ''snapshotBytes'', PInt (snapshot_bytes l)), (lit ''tmpBytes'', PInt (c_tmp_bytes l)),
      (lit ''scratchBytes'', PInt (c_scratch_bytes l))]"

fun tighten_loop :: "(pystr \<times> pyval) list \<Rightarrow> (pystr \<times> pyval) list \<Rightarrow> (pystr \<times> pyval) list res" where
  "tighten_loop current [] = Inr current"
| "tighten_loop current ((name, item) # rest) =
     (if is_Int item \<and> 0 < the_Int item \<and>
         (case map_of current name of Some (PInt c) \<Rightarrow> the_Int item \<le> c | _ \<Rightarrow> False)
      then tighten_loop (dset current name item) rest
      else Inl (AdmissionError (''tightened '' @ unlit name @ '' must be positive and no looser than policy'')))"

definition climits_tighten :: "climits \<Rightarrow> pyval \<Rightarrow> climits res" where
  "climits_tighten l requested =
     (if requested = PNone then Inr l
      else bindE (guardE (is_Dict requested \<and> set (keys requested) \<subseteq> names climit_fields)
             (AdmissionError ''tightened limits contain unknown fields'')) (\<lambda>_.
           bindE (tighten_loop (climits_as_wire l) (the_Dict requested)) (\<lambda>current. climits_parse (PDict current))))"

definition climits_sandbox :: "climits \<Rightarrow> bool \<Rightarrow> limits" where
  "climits_sandbox l execution = default_limits
     \<lparr>wall_seconds := Millis (if execution then execution_wall_ms l else session_wall_ms l),
      cpu_seconds := PInt (command_cpu_seconds l), address_space_bytes := PInt (c_address_space_bytes l),
      uid_processes := PInt (c_uid_processes l), open_files := PInt (c_open_files l), file_bytes := PInt (c_file_bytes l),
      stdout_bytes := PInt (c_stdout_bytes l), stderr_bytes := PInt (c_stderr_bytes l), tmp_bytes := PInt (c_tmp_bytes l),
      scratch_bytes := PInt (c_scratch_bytes l)\<rparr>"

section \<open>Approved roots\<close>

record approved_root =
  ar_id :: pystr
  ar_path :: path
  ar_kinds :: "pystr set"
  ar_allowed_uids :: "int set"
  ar_identity :: "nat \<times> nat"
  ar_source_view :: "source_view_policy option"

definition approved_root_parse :: "host \<Rightarrow> bool \<Rightarrow> pyval \<Rightarrow> approved_root res" where
  "approved_root_parse h allow_source_view v =
     bindE (guardE (\<not> has v ''sourceView'' \<or> allow_source_view)
       (AdmissionError ''source views require the control policy v2 catalog'')) (\<lambda>_.
     bindE (policy_object v ([''id'', ''path'', ''kinds'', ''allowedUids''] @ (if has v ''sourceView'' then [''sourceView''] else []))
       ''approved root'') (\<lambda>_.
     bindE (policy_id (fld v ''id'') ''root id'') (\<lambda>root_id.
     bindE (bindE (path_arg (fld v ''path'')) (checked_directory h)) (\<lambda>path.
     bindE (policy_array (fld v ''kinds'') ''root kinds'' True) (\<lambda>kinds.
     bindE (guardE (set kinds \<subseteq> set (map pyl [''prebuilt'', ''source'']) \<and> no_dups kinds)
       (AdmissionError ''root kinds must be unique prebuilt/source values'')) (\<lambda>_.
     bindE (policy_array (fld v ''allowedUids'') ''allowedUids'' True) (\<lambda>uids.
     bindE (guardE (list_all (\<lambda>u. is_Int u \<and> 0 \<le> the_Int u) uids \<and> no_dups uids)
       (AdmissionError ''allowedUids must contain unique nonnegative integers'')) (\<lambda>_.
     bindE (if has v ''sourceView''
            then bindE (guardE (set kinds = {pyl ''source''}) (AdmissionError ''source views require a source-only root'')) (\<lambda>_.
                 bindE (source_view_parse h (fld v ''sourceView'')) (\<lambda>sv. Inr (Some sv)))
            else Inr None) (\<lambda>source_view.
     bindE (os_stat h path) (\<lambda>info.
     Inr \<lparr>ar_id = root_id, ar_path = path, ar_kinds = the_Str ` set kinds, ar_allowed_uids = the_Int ` set uids,
          ar_identity = (st_dev info, st_ino info), ar_source_view = source_view\<rparr>))))))))))"

fun resolve_parts :: "host \<Rightarrow> path \<Rightarrow> pystr list \<Rightarrow> path res" where
  "resolve_parts h current [] = Inr current"
| "resolve_parts h current (part # rest) =
     bindE (except_os ''approved input is unavailable'' (os_lstat h (current @ [part]))) (\<lambda>info.
     bindE (seqE
       [guardE (\<not> s_islnk info \<and> (rest = [] \<or> s_isdir info))
          (AdmissionError ''approved input path contains a symlink or non-directory component''),
        guardE (rest \<noteq> [] \<or> s_isdir info \<or> s_isreg info)
          (AdmissionError ''approved input must be a regular file or directory'')]) (\<lambda>_.
     resolve_parts h (current @ [part]) rest))"

definition approved_root_resolve :: "host \<Rightarrow> approved_root \<Rightarrow> int \<Rightarrow> pyval \<Rightarrow> pystr \<Rightarrow> path res" where
  "approved_root_resolve h r uid relative kind =
     bindE (guardE (uid \<in> ar_allowed_uids r \<and> kind \<in> ar_kinds r)
       (AdmissionError ''principal is not allowed to use this input root'')) (\<lambda>_.
     bindE (checked_relative_path relative ''input relativePath'') (\<lambda>rel.
     bindE (os_stat h (ar_path r)) (\<lambda>info.
     bindE (guardE ((st_dev info, st_ino info) = ar_identity r)
       (AdmissionError ''approved input root identity changed'')) (\<lambda>_.
     if rel = lit ''.'' then Inr (ar_path r) else resolve_parts h (ar_path r) (pp_parts rel)))))"

section \<open>Build, tool and runtime plans\<close>

record build_plan =
  bp_id :: pystr
  bp_command :: "pystr list"
  bp_cwd :: pystr
  bp_artifact_path :: pystr
  bp_profile :: string
  bp_source_files :: "pystr list"
  bp_runtime_sha256 :: "pystr option"
  bp_dependencies :: "(pystr \<times> pystr \<times> pystr) list"
  bp_entry_point :: "pystr option"

definition node_digest :: "pyval \<Rightarrow> pystr res" where
  "node_digest v = (if is_Str v \<and> re_hex 64 (the_Str v) then Inr (the_Str v)
     else Inl (AdmissionError ''Node content identity must be lowercase SHA256''))"

definition node_dependency :: "pyval \<Rightarrow> (pystr \<times> pystr \<times> pystr) res" where
  "node_dependency v =
     bindE (policy_object v [''rootId'', ''relativePath'', ''sha256''] ''Node dependency'') (\<lambda>_.
     bindE (policy_id (fld v ''rootId'') ''dependency root ID'') (\<lambda>root.
     bindE (checked_relative_path (fld v ''relativePath'') ''path'') (\<lambda>rel.
     bindE (node_digest (fld v ''sha256'')) (\<lambda>digest. Inr (root, rel, digest)))))"

definition node_build_plan :: "pyval \<Rightarrow> build_plan res" where
  "node_build_plan v =
     bindE (policy_object v [''id'', ''profile'', ''entryPoint'', ''sourceFiles'', ''runtimeSha256'', ''dependencies'']
       ''Node build plan'') (\<lambda>_.
     bindE (guardE (fld v ''profile'' = pyl ''node-esm/v1'') (AdmissionError ''unsupported preparation profile'')) (\<lambda>_.
     bindE (checked_relative_path (fld v ''entryPoint'') ''Node entryPoint'') (\<lambda>entry.
     bindE (policy_array (fld v ''sourceFiles'') ''Node sourceFiles'' True) (\<lambda>raw_files.
     bindE (mapE (\<lambda>x. checked_relative_path x ''Node source file'') raw_files) (\<lambda>files.
     bindE (seqE
       [guardE (length files \<le> 1024 \<and> no_dups files \<and> entry \<in> set files \<and> endswith entry (lit ''.mjs''))
          (AdmissionError ''Node source selection must uniquely include an ESM entry''),
        guardE (list_all (\<lambda>p. p \<noteq> lit ''.'' \<and> p \<noteq> lit ''node_modules'' \<and> \<not> startswith p (lit ''node_modules/'')) files)
          (AdmissionError ''Node dependencies require an approved dependency root'')]) (\<lambda>_.
     bindE (policy_array (fld v ''dependencies'') ''Node dependencies'' False) (\<lambda>dependencies.
     bindE (guardE (length dependencies \<le> 1) (AdmissionError ''Node profile permits one approved node_modules tree'')) (\<lambda>_.
     bindE (mapE node_dependency dependencies) (\<lambda>deps.
     bindE (policy_id (fld v ''id'') ''build plan id'') (\<lambda>plan_id.
     bindE (node_digest (fld v ''runtimeSha256'')) (\<lambda>runtime.
     Inr \<lparr>bp_id = plan_id, bp_command = [], bp_cwd = lit ''.'', bp_artifact_path = lit ''.'', bp_profile = ''node-esm/v1'',
          bp_source_files = files, bp_runtime_sha256 = Some runtime, bp_dependencies = deps,
          bp_entry_point = Some entry\<rparr>)))))))))))"

definition build_plan_parse :: "bool \<Rightarrow> pyval \<Rightarrow> build_plan res" where
  "build_plan_parse allow_node_esm v =
     (if has v ''profile'' then
        (if allow_node_esm then node_build_plan v else Inl (AdmissionError ''Node preparation requires control policy v2''))
      else
        bindE (policy_object v [''id'', ''command'', ''cwd'', ''artifactPath''] ''build plan'') (\<lambda>_.
        bindE (policy_id (fld v ''id'') ''build plan id'') (\<lambda>plan_id.
        bindE (policy_command (fld v ''command'') ''build command'') (\<lambda>command.
        bindE (checked_relative_path (fld v ''cwd'') ''build cwd'') (\<lambda>cwd.
        bindE (checked_relative_path (fld v ''artifactPath'') ''build artifactPath'') (\<lambda>artifact.
        Inr \<lparr>bp_id = plan_id, bp_command = command, bp_cwd = cwd, bp_artifact_path = artifact,
             bp_profile = ''custom-build/v1'', bp_source_files = [], bp_runtime_sha256 = None, bp_dependencies = [],
             bp_entry_point = None\<rparr>))))))"

record tool_plan =
  tp_id :: pystr
  tp_command :: "pystr list"
  tp_argument_mode :: pystr

definition tool_plan_parse :: "pyval \<Rightarrow> tool_plan res" where
  "tool_plan_parse v =
     bindE (policy_object v [''id'', ''command'', ''argumentMode''] ''tool plan'') (\<lambda>_.
     bindE (guardE (fld v ''argumentMode'' \<in> set (map pyl [''none'', ''append'']))
       (AdmissionError ''tool argumentMode must be none or append'')) (\<lambda>_.
     bindE (policy_id (fld v ''id'') ''tool id'') (\<lambda>tool_id.
     bindE (policy_command (fld v ''command'') ''tool command'') (\<lambda>command.
     Inr \<lparr>tp_id = tool_id, tp_command = command, tp_argument_mode = the_Str (fld v ''argumentMode'')\<rparr>))))"

definition tool_plan_argv :: "tool_plan \<Rightarrow> pyval \<Rightarrow> pystr list res" where
  "tool_plan_argv t arguments = retE
     [guardE (is_List arguments \<and> length (the_List arguments) \<le> 256)
        (AdmissionError ''tool arguments must be a bounded array''),
      bounded_args (the_List arguments) ''tool arguments contain invalid values''
        ''tool arguments must contain Unicode scalars'' ''tool arguments exceed the byte limit'',
      guardE (\<not> (tp_argument_mode t = lit ''none'' \<and> the_List arguments \<noteq> []))
        (AdmissionError ''this tool does not accept request arguments'')]
     (tp_command t @ map the_Str (the_List arguments))"

record node_shim_plan =
  ns_root :: path
  ns_worker_path :: pystr
  ns_protocol_path :: pystr

definition node_shim_parse :: "host \<Rightarrow> pyval \<Rightarrow> node_shim_plan res" where
  "node_shim_parse h v =
     bindE (policy_object v [''root'', ''workerPath'', ''protocolPath''] ''node shim'') (\<lambda>_.
     bindE (bindE (path_arg (fld v ''root'')) (checked_directory h)) (\<lambda>root.
     bindE (checked_relative_path (fld v ''workerPath'') ''node workerPath'') (\<lambda>worker.
     bindE (checked_relative_path (fld v ''protocolPath'') ''node protocolPath'') (\<lambda>protocol.
     Inr \<lparr>ns_root = root, ns_worker_path = worker, ns_protocol_path = protocol\<rparr>))))"

record runtime_plan =
  rp_id :: pystr
  rp_kind :: string
  rp_runtime_mounts :: "mount list"
  rp_command :: "pystr list"
  rp_artifact_entry :: pystr
  rp_node_shim :: "node_shim_plan option"
  rp_descriptor_schema :: pystr
  rp_adapter_id :: pystr
  rp_target_profile :: pystr
  rp_state_computer_contract_version :: pystr

definition runtime_mount_item :: "host \<Rightarrow> pyval \<Rightarrow> mount res" where
  "runtime_mount_item h v = bindE (policy_object v [''source'', ''destination''] ''runtime mount'') (\<lambda>_.
     runtime_mount_checked h (fld v ''source'') (fld v ''destination''))"

definition artifact_sandbox_path :: "pystr \<Rightarrow> pystr" where
  "artifact_sandbox_path entry = (if entry \<noteq> lit ''.'' then lit ''/artifact/'' @ entry else lit ''/artifact'')"

definition manifest_mount :: pystr where
  "manifest_mount = lit ''/runtime/mirrorgate-manifest/port.json''"

definition node_shim_mount :: pystr where
  "node_shim_mount = lit ''/runtime/mirrorgate-node-shim/''"

definition runtime_mounts_parse :: "host \<Rightarrow> pyval \<Rightarrow> mount list res" where
  "runtime_mounts_parse h v =
     bindE (policy_array v ''runtimeMounts'' True) (\<lambda>mounts_raw.
     bindE (mapE (runtime_mount_item h) mounts_raw) (\<lambda>mounts.
     retE [guardE (no_dups (map m_destination mounts) \<and> lit ''/usr'' \<in> set (map m_destination mounts))
       (AdmissionError ''runtime mounts must be unique and include /usr'')] mounts))"

definition runtime_launch :: "host \<Rightarrow> bool \<Rightarrow> pyval \<Rightarrow> (pystr list \<times> pystr \<times> node_shim_plan option) res" where
  "runtime_launch h node raw =
     bindE (policy_command (fld raw ''command'') ''runtime command'') (\<lambda>command.
     bindE (checked_relative_path (fld raw ''artifactEntry'') ''runtime artifactEntry'') (\<lambda>entry.
     bindE (seqE
       [guardE (node \<or> hd command = artifact_sandbox_path entry)
          (AdmissionError ''rust launch must start at the fixed artifact entry''),
        guardE (node \<longrightarrow> artifact_sandbox_path entry \<in> set command)
          (AdmissionError ''node launch must name the fixed adapter entry''),
        guardE (manifest_mount \<in> set command)
          (AdmissionError ''runtime command must use the frozen public manifest mount'')]) (\<lambda>_.
     if node then
       bindE (node_shim_parse h (fld raw ''nodeShim'')) (\<lambda>s.
       retE [guardE (2 \<le> length command \<and> command ! 1 = node_shim_mount @ ns_worker_path s \<and>
                     \<not> startswith (hd command) (lit ''/artifact''))
              (AdmissionError ''node launch must start the trusted shim through an approved runtime'')]
         (command, entry, Some s))
     else Inr (command, entry, None))))"

definition runtime_plan_parse :: "host \<Rightarrow> pyval \<Rightarrow> runtime_plan res" where
  "runtime_plan_parse h v =
     (let raw = (if is_Dict v then v else PDict []); kind = fld raw ''kind''; node = (kind = pyl ''node'') in
      bindE (seqE
        [policy_object raw ([''id'', ''kind'', ''runtimeMounts'', ''command'', ''artifactEntry'', ''descriptorSchema'',
            ''adapterId'', ''targetProfile'', ''stateComputerContractVersion''] @ (if node then [''nodeShim''] else []))
           ''runtime plan'',
         guardE (kind \<in> set (map pyl [''node'', ''rust''])) (AdmissionError ''runtime kind must be node or rust'')]) (\<lambda>_.
      bindE (runtime_mounts_parse h (fld raw ''runtimeMounts'')) (\<lambda>mounts.
      bindE (runtime_launch h node raw) (\<lambda>(command, entry, shim).
      bindE (mapE (\<lambda>field. opaque_ascii (fld raw field) field)
        [''descriptorSchema'', ''adapterId'', ''targetProfile'', ''stateComputerContractVersion'']) (\<lambda>_.
      bindE (policy_id (fld raw ''id'') ''runtime id'') (\<lambda>runtime_id.
      bindE (guardE (runtime_id = the_Str kind @ lit ''-v1'')
        (AdmissionError ''runtime ID must match the frozen worker profile'')) (\<lambda>_.
      Inr \<lparr>rp_id = runtime_id, rp_kind = unlit (the_Str kind), rp_runtime_mounts = mounts, rp_command = command,
           rp_artifact_entry = entry, rp_node_shim = shim, rp_descriptor_schema = the_Str (fld raw ''descriptorSchema''),
           rp_adapter_id = the_Str (fld raw ''adapterId''), rp_target_profile = the_Str (fld raw ''targetProfile''),
           rp_state_computer_contract_version = the_Str (fld raw ''stateComputerContractVersion'')\<rparr>)))))))"

end
