(* ===== verification/AgentPolicy.thy ===== *)
theory AgentPolicy
  imports ControlPolicy
begin

text \<open>
  Managed-agent profiles and admission bounds (\<^verbatim>\<open>supervisor/mirrorgate/agent_policy.py\<close>): limit
  ceilings, the admission check of a public task and profile parsing.
\<close>

definition agent_limit_ceilings :: "(pystr \<times> pyval) list" where
  "agent_limit_ceilings = [(lit ''wallMs'', PInt 300000), (lit ''stdoutBytes'', PInt 1048576), (lit ''stderrBytes'', PInt 1048576),
     (lit ''progressRecords'', PInt 256), (lit ''progressBytes'', PInt 262144), (lit ''progressRecordBytes'', PInt 16384)]"

fun agent_limits_loop :: "(pystr \<times> pyval) list \<Rightarrow> (pystr \<times> pyval) list \<Rightarrow> (pystr \<times> pyval) list \<Rightarrow> (pystr \<times> pyval) list res" where
  "agent_limits_loop ceilings result [] = Inr result"
| "agent_limits_loop ceilings result ((key, number) # rest) =
     (if is_Int number \<and> 1 \<le> the_Int number \<and> (case map_of ceilings key of Some (PInt c) \<Rightarrow> the_Int number \<le> c | _ \<Rightarrow> False)
      then agent_limits_loop ceilings (dset result key number) rest
      else Inl (AdmissionError ''agent limits may only tighten operator ceilings''))"

definition agent_limits :: "pyval \<Rightarrow> (pystr \<times> pyval) list \<Rightarrow> bool \<Rightarrow> (pystr \<times> pyval) list res" where
  "agent_limits v ceilings partial =
     bindE (guardE (is_Dict v \<and> set (keys v) \<subseteq> set (map fst ceilings) \<and>
                    (partial \<or> set (keys v) = set (map fst ceilings)))
       (AdmissionError ''agent limits fields are invalid'')) (\<lambda>_.
     agent_limits_loop ceilings ceilings (the_Dict v))"

definition task_text :: "pyval \<Rightarrow> nat \<Rightarrow> unit res" where
  "task_text v limit =
     (if is_Str v \<and> 0 \<notin> set (the_Str v) then
        (case utf8_len (the_Str v) of
           None \<Rightarrow> Inl (AdmissionError ''public task contains invalid Unicode'')
         | Some n \<Rightarrow> guardE (n \<le> limit) (AdmissionError ''public task text exceeds its bound''))
      else Inl (AdmissionError ''public task text exceeds its bound''))"

fun task_files :: "pystr list \<Rightarrow> nat \<Rightarrow> pyval list \<Rightarrow> pyval list res" where
  "task_files paths sum0 [] = Inr []"
| "task_files paths sum0 (item # rest) =
     bindE (policy_object item [''path'', ''text''] ''public task file'') (\<lambda>_.
     bindE (checked_relative_path (fld item ''path'') ''path'') (\<lambda>path.
     let txt = fld item ''text''; sum' = sum0 + utf8_size (the_Str txt) in
     bindE (seqE
       [guardE (path \<noteq> lit ''.'' \<and> hd (psplit slash path) \<noteq> lit ''.mirrorgate'' \<and> path \<notin> set paths)
          (AdmissionError ''public task path is reserved or duplicated''),
        guardE (list_all (\<lambda>old. \<not> startswith path (old @ [slash]) \<and> \<not> startswith old (path @ [slash])) paths)
          (AdmissionError ''public task paths conflict''),
        task_text txt 262144,
        guardE (sum' \<le> 262144) (AdmissionError ''public task files exceed their byte bound'')]) (\<lambda>_.
     bindE (task_files (path # paths) sum' rest) (\<lambda>files.
     Inr (PDict [(lit ''path'', PStr path), (lit ''text'', txt)] # files)))))"

definition public_task :: "pyval \<Rightarrow> pyval res" where
  "public_task v =
     bindE (seqE
       [policy_object v [''instructions'', ''files''] ''public task'',
        task_text (fld v ''instructions'') 65536,
        guardE (is_List (fld v ''files'') \<and> length (the_List (fld v ''files'')) \<le> 128)
          (AdmissionError ''public task files exceed their bound'')]) (\<lambda>_.
     bindE (task_files [] 0 (the_List (fld v ''files''))) (\<lambda>files.
     Inr (PDict [(lit ''instructions'', fld v ''instructions''), (lit ''files'', PList files)])))"

record agent_profile =
  ap_id :: pystr
  ap_runtime :: pystr
  ap_executable :: path
  ap_version :: pystr
  ap_model :: pystr
  ap_model_catalog :: path
  ap_credential_file :: path
  ap_audit_receipt :: path
  ap_audit_max_age_seconds :: int
  ap_credential_revision :: pystr
  ap_limits :: "(pystr \<times> pyval) list"

definition profile_path :: "pyval \<Rightarrow> unit res" where
  "profile_path v = guardE (is_Str v \<and> pp_absolute (the_Str v) \<and> 0 \<notin> set (the_Str v))
     (AdmissionError ''agent profile paths must be absolute operator selections'')"

definition agent_profile_parse :: "pyval \<Rightarrow> agent_profile res" where
  "agent_profile_parse v =
     bindE (seqE
       ([policy_object v [''id'', ''runtime'', ''executable'', ''version'', ''model'', ''modelCatalog'', ''credentialFile'',
           ''auditReceipt'', ''auditMaxAgeSeconds'', ''credentialRevision'', ''limits''] ''agent profile'',
         guardE (fld v ''runtime'' = pyl ''codex'' \<and> fld v ''version'' = pyl ''codex-cli 0.153.4'')
           (AdmissionError ''unsupported managed agent runtime'')] @
        map (\<lambda>n. bindE (policy_id (fld v n) n) (\<lambda>_. Inr ())) [''model'', ''credentialRevision''] @
        map (\<lambda>n. profile_path (fld v n)) [''executable'', ''modelCatalog'', ''credentialFile'', ''auditReceipt''] @
        [guardE (is_Int (fld v ''auditMaxAgeSeconds'') \<and> 1 \<le> the_Int (fld v ''auditMaxAgeSeconds'') \<and>
                 the_Int (fld v ''auditMaxAgeSeconds'') \<le> 86400)
           (AdmissionError ''agent audit age must not exceed 24 hours'')])) (\<lambda>_.
     bindE (policy_id (fld v ''id'') ''profile id'') (\<lambda>pid.
     bindE (agent_limits (fld v ''limits'') agent_limit_ceilings False) (\<lambda>lims.
     let p = (\<lambda>n. pp_parts (the_Str (fld v n))) in
     Inr \<lparr>ap_id = pid, ap_runtime = the_Str (fld v ''runtime''), ap_executable = p ''executable'',
          ap_version = the_Str (fld v ''version''), ap_model = the_Str (fld v ''model''),
          ap_model_catalog = p ''modelCatalog'', ap_credential_file = p ''credentialFile'',
          ap_audit_receipt = p ''auditReceipt'', ap_audit_max_age_seconds = the_Int (fld v ''auditMaxAgeSeconds''),
          ap_credential_revision = the_Str (fld v ''credentialRevision''), ap_limits = lims\<rparr>)))"

end
