(* ===== verification/JsonPlain.thy ===== *)
theory JsonPlain
  imports JsonNumber
begin

text \<open>
  \<^verbatim>\<open>json.loads\<close> with Python's own number conversion and a duplicate-key hook, as the operator catalog,
  the recovery journal and the private brokers read their documents.  An integer token of more than
  4300 digits is the interpreter's \<^verbatim>\<open>ValueError\<close>; a float keeps the text it was read from.
\<close>

definition plain_number :: "bool \<Rightarrow> pystr \<Rightarrow> pyval res" where
  "plain_number fl tok =
     (if fl then Inr (PFloat tok)
      else (let neg = (tok \<noteq> [] \<and> hd tok = 45); ds = (if neg then tl tok else tok) in
            if 4300 < length ds then Inl (PyValueError ''integer string conversion limit'')
            else Inr (PInt (if neg then - int (digits_val ds) else int (digits_val ds)))))"

fun hook_pairs_from :: "pyexc \<Rightarrow> (pystr \<times> pyval) list \<Rightarrow> (pystr \<times> pyval) list \<Rightarrow> pyval res" where
  "hook_pairs_from e v [] = Inr (PDict v)"
| "hook_pairs_from e v ((k, child) # items) =
     (if k \<in> set (map fst v) then Inl e else hook_pairs_from e (dset v k child) items)"

definition hook_pairs :: "pyexc \<Rightarrow> (pystr \<times> pyval) list \<Rightarrow> pyval res" where
  "hook_pairs e items = hook_pairs_from e [] items"

definition strict_loads :: "pyexc \<Rightarrow> pyexc \<Rightarrow> nat \<Rightarrow> pystr \<Rightarrow> pyval res" where
  "strict_loads dup nonfinite lim text = json_loads plain_number (\<lambda>_. Inl nonfinite) (hook_pairs dup) lim text"

text \<open>Text files are read with universal newlines.\<close>

fun newlines :: "bool \<Rightarrow> pystr \<Rightarrow> pystr" where
  "newlines cr [] = []"
| "newlines cr (c # s) =
     (if c = 13 then 10 # newlines True s else if cr \<and> c = 10 then newlines False s else c # newlines False s)"

definition universal_newlines :: "pystr \<Rightarrow> pystr" where
  "universal_newlines s = newlines False s"

end
