(* ===== verification/PolicyCatalog.thy ===== *)
theory PolicyCatalog
  imports AgentPolicy JsonPlain
begin

text \<open>
  The operator's policy catalog (\<^verbatim>\<open>supervisor/mirrorgate/control_policy.py\<close>, \<^verbatim>\<open>ControlPolicy\<close>,
  \<^verbatim>\<open>PolicyCatalog\<close> and the example documents): the three catalog schemas, selection by ID, and the
  fixture documents that the native clients share.
\<close>

record aggregate_limits =
  al_pids_max :: int
  al_memory_max :: int
  al_cpu_quota_us :: int
  al_cpu_period_us :: int

record control_policy =
  cp_id :: pystr
  cp_roots :: "(pystr \<times> approved_root) list"
  cp_build_plans :: "(pystr \<times> build_plan) list"
  cp_tools :: "(pystr \<times> tool_plan) list"
  cp_runtimes :: "(pystr \<times> runtime_plan) list"
  cp_limits :: climits
  cp_agent_profile_ids :: "pystr list"
  cp_aggregate_limits :: "aggregate_limits option"

definition parsed_unique :: "(pyval \<Rightarrow> 'a res) \<Rightarrow> ('a \<Rightarrow> pystr) \<Rightarrow> string \<Rightarrow> pyval \<Rightarrow> string \<Rightarrow> bool \<Rightarrow> (pystr \<times> 'a) list res" where
  "parsed_unique parse key label v array_label nonempty =
     bindE (policy_array v array_label nonempty) (\<lambda>items.
     bindE (mapE parse items) (policy_unique key label []))"

definition policy_keys :: "string list" where
  "policy_keys = [''id'', ''roots'', ''buildPlans'', ''tools'', ''runtimes'', ''limits'']"

definition control_policy_parse :: "host \<Rightarrow> bool \<Rightarrow> pyval \<Rightarrow> control_policy res" where
  "control_policy_parse h allow_source_view v =
     bindE (policy_object v policy_keys ''policy'') (\<lambda>_.
     bindE (parsed_unique (approved_root_parse h allow_source_view) ar_id ''root'' (fld v ''roots'') ''roots'' True) (\<lambda>roots.
     bindE (parsed_unique (build_plan_parse allow_source_view) bp_id ''build plan'' (fld v ''buildPlans'') ''buildPlans'' False) (\<lambda>builds.
     bindE (parsed_unique tool_plan_parse tp_id ''tool'' (fld v ''tools'') ''tools'' False) (\<lambda>tools.
     bindE (parsed_unique (runtime_plan_parse h) rp_id ''runtime'' (fld v ''runtimes'') ''runtimes'' True) (\<lambda>runtimes.
     bindE (policy_id (fld v ''id'') ''policy id'') (\<lambda>pid.
     bindE (climits_parse (fld v ''limits'')) (\<lambda>lims.
     Inr \<lparr>cp_id = pid, cp_roots = roots, cp_build_plans = builds, cp_tools = tools, cp_runtimes = runtimes,
          cp_limits = lims, cp_agent_profile_ids = [], cp_aggregate_limits = None\<rparr>)))))))"

record policy_catalog =
  cat_policies :: "(pystr \<times> control_policy) list"
  cat_agent_profiles :: "(pystr \<times> agent_profile) list"

definition catalog_schema :: string where "catalog_schema = ''mirrorgate.control-policy/v1''"
definition hosting_catalog_schema :: string where "hosting_catalog_schema = ''mirrorgate.control-policy/v2''"
definition cgroup_catalog_schema :: string where "cgroup_catalog_schema = ''mirrorgate.control-policy/v3''"

definition profile_references :: "(pystr \<times> agent_profile) list \<Rightarrow> pyval \<Rightarrow> pystr list res" where
  "profile_references profiles v =
     bindE (policy_array v ''agentProfileIds'' False) (\<lambda>ids.
     bindE (guardE (list_all (\<lambda>k. is_Str k \<and> the_Str k \<in> set (map fst profiles)) ids \<and> no_dups ids)
       (AdmissionError ''policy agent profile references must be unique approved IDs'')) (\<lambda>_.
     Inr (map the_Str ids)))"

definition without_keys :: "string list \<Rightarrow> pyval \<Rightarrow> pyval" where
  "without_keys ks v = PDict (filter (\<lambda>(k, x). k \<notin> names ks) (the_Dict v))"

definition aggregate_parse :: "pyval \<Rightarrow> aggregate_limits res" where
  "aggregate_parse v = retE
     [policy_object v [''pidsMax'', ''memoryMax'', ''cpuQuotaMicros'', ''cpuPeriodMicros''] ''aggregate limits'',
      guardE (list_all (\<lambda>(k, x). is_Int x \<and> 0 < the_Int x \<and> the_Int x \<le> max_safe_integer) (the_Dict v))
        (AdmissionError ''aggregate limits must be positive bounded integers''),
      guardE (the_Int (fld v ''cpuQuotaMicros'') \<le> the_Int (fld v ''cpuPeriodMicros'') * 1024)
        (AdmissionError ''aggregate CPU quota exceeds supported bound'')]
     \<lparr>al_pids_max = the_Int (fld v ''pidsMax''), al_memory_max = the_Int (fld v ''memoryMax''),
      al_cpu_quota_us = the_Int (fld v ''cpuQuotaMicros''), al_cpu_period_us = the_Int (fld v ''cpuPeriodMicros'')\<rparr>"

definition policy_v2 :: "host \<Rightarrow> (pystr \<times> agent_profile) list \<Rightarrow> pyval \<Rightarrow> control_policy res" where
  "policy_v2 h profiles item =
     bindE (policy_object item (policy_keys @ [''agentProfileIds'']) ''policy v2'') (\<lambda>_.
     bindE (profile_references profiles (fld item ''agentProfileIds'')) (\<lambda>ids.
     bindE (control_policy_parse h True (without_keys [''agentProfileIds''] item)) (\<lambda>p.
     Inr (p\<lparr>cp_agent_profile_ids := ids\<rparr>))))"

definition policy_v3 :: "host \<Rightarrow> (pystr \<times> agent_profile) list \<Rightarrow> pyval \<Rightarrow> control_policy res" where
  "policy_v3 h profiles item =
     bindE (policy_object item (policy_keys @ [''agentProfileIds'', ''aggregateLimits'']) ''policy v3'') (\<lambda>_.
     bindE (profile_references profiles (fld item ''agentProfileIds'')) (\<lambda>ids.
     bindE (aggregate_parse (fld item ''aggregateLimits'')) (\<lambda>aggregate.
     bindE (control_policy_parse h True (without_keys [''agentProfileIds'', ''aggregateLimits''] item)) (\<lambda>p.
     Inr (p\<lparr>cp_agent_profile_ids := ids, cp_aggregate_limits := Some aggregate\<rparr>)))))"

definition hosted_catalog :: "((pystr \<times> agent_profile) list \<Rightarrow> pyval \<Rightarrow> control_policy res) \<Rightarrow> string \<Rightarrow> pyval \<Rightarrow> policy_catalog res" where
  "hosted_catalog parse label v =
     bindE (policy_object v [''schema'', ''policies'', ''agentProfiles''] label) (\<lambda>_.
     bindE (parsed_unique agent_profile_parse ap_id ''agent profile'' (fld v ''agentProfiles'') ''agentProfiles'' False) (\<lambda>profiles.
     bindE (parsed_unique (parse profiles) cp_id ''policy'' (fld v ''policies'') ''policies'' True) (\<lambda>policies.
     Inr \<lparr>cat_policies = policies, cat_agent_profiles = profiles\<rparr>)))"

definition catalog_from_document :: "host \<Rightarrow> pyval \<Rightarrow> policy_catalog res" where
  "catalog_from_document h v =
     (if fld v ''schema'' = pyl cgroup_catalog_schema then hosted_catalog (policy_v3 h) ''policy catalog v3'' v
      else if fld v ''schema'' = pyl hosting_catalog_schema then hosted_catalog (policy_v2 h) ''policy catalog v2'' v
      else
        bindE (seqE
          [policy_object v [''schema'', ''policies''] ''policy catalog'',
           guardE (fld v ''schema'' = pyl catalog_schema) (AdmissionError ''unsupported control policy schema'')]) (\<lambda>_.
        bindE (parsed_unique (control_policy_parse h False) cp_id ''policy'' (fld v ''policies'') ''policies'' True) (\<lambda>policies.
        Inr \<lparr>cat_policies = policies, cat_agent_profiles = []\<rparr>)))"

text \<open>\<open>contents\<close> is what opening and reading the file gives.\<close>

definition catalog_from_file :: "host \<Rightarrow> nat \<Rightarrow> bytes res \<Rightarrow> policy_catalog res" where
  "catalog_from_file h lim contents =
     (let e = AdmissionError ''control policy file is not strict UTF-8 JSON'' in
      bindE (case contents of
          Inl (PyOSError _) \<Rightarrow> Inl e
        | Inl x \<Rightarrow> Inl x
        | Inr data \<Rightarrow> (case utf8_decode data of
              None \<Rightarrow> Inl e
            | Some text \<Rightarrow> (case strict_loads (AdmissionError ''duplicate control policy field'')
                  (AdmissionError ''nonfinite policy number'') lim (universal_newlines text) of
                Inl JSONDecodeError \<Rightarrow> Inl e | x \<Rightarrow> x))) (catalog_from_document h))"

definition catalog_select :: "policy_catalog \<Rightarrow> pyval \<Rightarrow> control_policy res" where
  "catalog_select cat policy =
     bindE (policy_id policy ''policy id'') (\<lambda>pid.
     case map_of (cat_policies cat) pid of
       None \<Rightarrow> Inl (AdmissionError ''requested policy is not approved'')
     | Some p \<Rightarrow> Inr p)"

definition catalog_agent_profile :: "policy_catalog \<Rightarrow> pyval \<Rightarrow> pyval \<Rightarrow> agent_profile res" where
  "catalog_agent_profile cat policy profile =
     bindE (catalog_select cat policy) (\<lambda>p.
     bindE (guardE (is_Str profile \<and> the_Str profile \<in> set (cp_agent_profile_ids p))
       (AdmissionError ''agent profile is not approved by this policy'')) (\<lambda>_.
     case map_of (cat_agent_profiles cat) (the_Str profile) of None \<Rightarrow> Inl PyKeyError | Some a \<Rightarrow> Inr a))"

section \<open>Example documents\<close>

definition example_limits :: pyval where
  "example_limits = PDict
     [(lit ''sessionWallMs'', PInt 600000), (lit ''executionWallMs'', PInt 30000), (lit ''commandCpuSeconds'', PInt 20),
      (lit ''addressSpaceBytes'', PInt (4 * 1024 ^ 3)), (lit ''uidProcesses'', PInt 4096), (lit ''openFiles'', PInt 128),
      (lit ''fileBytes'', PInt (64 * 1024 ^ 2)), (lit ''stdoutBytes'', PInt (4 * 1024 ^ 2)),
      (lit ''stderrBytes'', PInt (1024 ^ 2)), (lit ''snapshotFiles'', PInt 10000),
      (lit ''snapshotBytes'', PInt (512 * 1024 ^ 2)), (lit ''tmpBytes'', PInt (64 * 1024 ^ 2)),
      (lit ''scratchBytes'', PInt (256 * 1024 ^ 2))]"

text \<open>
  The arguments are the resolved roots (\<^verbatim>\<open>str(Path(root).resolve())\<close>), the principal's uid, and the
  adapter entry and identities.
\<close>

definition example_root :: "pystr \<Rightarrow> string list \<Rightarrow> int \<Rightarrow> pyval" where
  "example_root root kinds uid = PDict [(lit ''id'', pyl ''submission''), (lit ''path'', PStr root),
     (lit ''kinds'', PList (map pyl kinds)), (lit ''allowedUids'', PList [PInt uid])]"

definition example_mount :: "pystr \<Rightarrow> string \<Rightarrow> pyval" where
  "example_mount src dst = PDict [(lit ''source'', PStr src), (lit ''destination'', pyl dst)]"

definition example_node_policy ::
  "pystr \<Rightarrow> pystr \<Rightarrow> pystr \<Rightarrow> int \<Rightarrow> pystr \<Rightarrow> pystr \<Rightarrow> pystr \<Rightarrow> pystr \<Rightarrow> pystr \<Rightarrow> pyval" where
  "example_node_policy submission shim runtime uid entry policy adapter profile contract = PDict
     [(lit ''id'', PStr policy), (lit ''roots'', PList [example_root submission [''prebuilt'', ''source''] uid]),
      (lit ''buildPlans'', PList [PDict [(lit ''id'', pyl ''copy''),
         (lit ''command'', PList (map pyl [''/usr/bin/cp'', ''-a'', ''/source/.'', ''/output/''])),
         (lit ''cwd'', pyl ''.''), (lit ''artifactPath'', pyl ''.'')]]),
      (lit ''tools'', PList [PDict [(lit ''id'', pyl ''python''), (lit ''command'', PList [pyl ''/usr/bin/python3'']),
         (lit ''argumentMode'', pyl ''append'')]]),
      (lit ''runtimes'', PList [PDict [(lit ''id'', pyl ''node-v1''), (lit ''kind'', pyl ''node''),
         (lit ''runtimeMounts'', PList [example_mount (lit ''/usr'') ''/usr'', example_mount runtime ''/runtime/node'']),
         (lit ''command'', PList [pyl ''/runtime/node/bin/node'', pyl ''/runtime/mirrorgate-node-shim/runtimes/node/worker.mjs'',
            pyl ''--manifest'', pyl ''/runtime/mirrorgate-manifest/port.json'', pyl ''--adapter'',
            PStr (lit ''/artifact/'' @ entry)]),
         (lit ''artifactEntry'', PStr entry), (lit ''descriptorSchema'', pyl ''mirrors.model-interface-descriptor/v1''),
         (lit ''adapterId'', PStr adapter), (lit ''targetProfile'', PStr profile),
         (lit ''stateComputerContractVersion'', PStr contract),
         (lit ''nodeShim'', PDict [(lit ''root'', PStr shim), (lit ''workerPath'', pyl ''runtimes/node/worker.mjs''),
            (lit ''protocolPath'', pyl ''sdk/node/protocol.mjs'')])]]),
      (lit ''limits'', example_limits)]"

definition example_policy_document ::
  "pystr \<Rightarrow> pystr \<Rightarrow> pystr \<Rightarrow> int \<Rightarrow> pystr \<Rightarrow> pystr \<Rightarrow> pystr \<Rightarrow> pystr \<Rightarrow> pystr \<Rightarrow> pyval res" where
  "example_policy_document submission shim runtime uid adapter_entry policy adapter profile contract =
     bindE (checked_relative_path (PStr adapter_entry) ''adapter entry'') (\<lambda>entry.
     Inr (PDict [(lit ''schema'', pyl catalog_schema),
       (lit ''policies'', PList [example_node_policy submission shim runtime uid entry policy adapter profile contract])]))"

definition example_rust_policy :: "pystr \<Rightarrow> int \<Rightarrow> pystr \<Rightarrow> bool \<Rightarrow> pystr \<Rightarrow> pystr \<Rightarrow> pystr \<Rightarrow> pystr \<Rightarrow> pyval" where
  "example_rust_policy submission uid entry faulty policy adapter profile contract = PDict
     [(lit ''id'', PStr (if policy \<noteq> [] then policy else lit (if faulty then ''test.rust-faulty'' else ''test.rust''))),
      (lit ''roots'', PList [example_root submission [''prebuilt''] uid]),
      (lit ''buildPlans'', PList []), (lit ''tools'', PList []),
      (lit ''runtimes'', PList [PDict [(lit ''id'', pyl ''rust-v1''), (lit ''kind'', pyl ''rust''),
         (lit ''runtimeMounts'', PList [example_mount (lit ''/usr'') ''/usr'']),
         (lit ''command'', PList ([PStr (lit ''/artifact/'' @ entry), pyl ''--manifest'',
            pyl ''/runtime/mirrorgate-manifest/port.json''] @ (if faulty then [pyl ''--faulty''] else []))),
         (lit ''artifactEntry'', PStr entry), (lit ''descriptorSchema'', pyl ''mirrors.model-interface-descriptor/v1''),
         (lit ''adapterId'', PStr adapter), (lit ''targetProfile'', PStr profile),
         (lit ''stateComputerContractVersion'', PStr contract)]]),
      (lit ''limits'', example_limits)]"

definition example_rust_policy_document ::
  "pystr \<Rightarrow> int \<Rightarrow> pystr \<Rightarrow> bool \<Rightarrow> pystr \<Rightarrow> pystr \<Rightarrow> pystr \<Rightarrow> pystr \<Rightarrow> pyval res" where
  "example_rust_policy_document submission uid artifact_entry faulty policy adapter profile contract =
     bindE (checked_relative_path (PStr artifact_entry) ''Rust artifact entry'') (\<lambda>entry.
     Inr (PDict [(lit ''schema'', pyl catalog_schema),
       (lit ''policies'', PList [example_rust_policy submission uid entry faulty policy adapter profile contract])]))"

definition document_policies :: "pyval \<Rightarrow> pyval list" where
  "document_policies d = the_List (fld d ''policies'')"

definition example_shared_policy_document ::
  "pystr \<Rightarrow> pystr \<Rightarrow> pystr \<Rightarrow> int \<Rightarrow> pystr \<Rightarrow> pystr \<Rightarrow> bool \<Rightarrow> pyval res" where
  "example_shared_policy_document submission shim runtime uid node_entry rust_entry include_faulty =
     (let contract = lit ''mirrors.state-computer/v1'';
          rust = (\<lambda>faulty. example_rust_policy_document submission uid rust_entry faulty []
                    (lit ''mirrorgate/rust-v1'') (lit ''rust-v1'') contract) in
      bindE (example_policy_document submission shim runtime uid node_entry (lit ''test.node'')
        (lit ''mirrorgate/node-v1'') (lit ''node-v1'') contract) (\<lambda>node.
      bindE (rust False) (\<lambda>r.
      bindE (if include_faulty then bindE (rust True) (\<lambda>f. Inr (document_policies f)) else Inr []) (\<lambda>extra.
      Inr (PDict [(lit ''schema'', pyl catalog_schema),
        (lit ''policies'', PList (document_policies node @ document_policies r @ extra))])))))"

end
