(* ===== verification/ControlTheorems.thy ===== *)
theory ControlTheorems
  imports ControlProtocolV2
begin

text \<open>
  What the control validators establish: frame and Base64 round trips, the records a controller may
  rely on after a request was accepted, the non-collision of public task files, the coherence of
  hosted runs, and the choice of the control version.
\<close>

section \<open>Base64\<close>

lemma b64val_less: "b64val c = Some n \<Longrightarrow> n < 64"
  by (auto simp: b64val_def is_upper_def is_lower_def is_digit_def split: if_splits)

lemma b64decode_bytes: "b64decode s = Some bs \<Longrightarrow> \<forall>b \<in> set bs. b < 256"
proof (induction s arbitrary: bs rule: b64decode.induct)
  case (2 p q r s rest)
  from 2(2) obtain a b where ab': "b64val p = Some a" "b64val q = Some b"
    by (cases "b64val p"; cases "b64val q") auto
  note ab = ab' ab' [THEN b64val_less]
  have "a * 4 + b div 16 < 256" "b mod 16 * 16 + c div 4 < 256" "c mod 4 * 64 + d < 256"
    if "c < 64" "d < 64" for c d :: nat
  proof -
    have "b div 16 < 4" "b mod 16 < 16" "c div 4 < 16" "c mod 4 < 4" using ab that by auto
    then show "a * 4 + b div 16 < 256" "b mod 16 * 16 + c div 4 < 256" "c mod 4 * 64 + d < 256"
      using ab that by linarith+
  qed
  note small = this
  show ?case
  proof (cases "r = 61 \<and> s = 61 \<and> rest = []")
    case True
    then show ?thesis using 2(2) ab small [of 0 0] by auto
  next
    case False
    with 2(2) ab' obtain c where c': "b64val r = Some c" by (cases "b64val r") auto
    note c = c' c' [THEN b64val_less]
    show ?thesis
    proof (cases "s = 61 \<and> rest = []")
      case True
      then show ?thesis using 2(2) ab c False small [of c 0] by auto
    next
      case F: False
      with 2(2) ab' c' False obtain d bs' where d: "b64val s = Some d" and rest: "b64decode rest = Some bs'"
        and bs: "bs = (a * 4 + b div 16) # (b mod 16 * 16 + c div 4) # (c mod 4 * 64 + d) # bs'"
        by (cases "b64val s") (auto split: if_splits)
      have "\<forall>b \<in> set bs'. b < 256" by (rule 2(1) [OF refl ab' False c' F d rest])
      then show ?thesis using small [of c d] c d [THEN b64val_less] bs by simp
    qed
  qed
qed auto

section \<open>Public tasks\<close>

definition public_file_ok :: "pyval \<Rightarrow> bool" where
  "public_file_ok f \<longleftrightarrow> obj f [''path'', ''text''] \<and> is_Str (fld f ''path'') \<and> is_Str (fld f ''text'') \<and>
     encodable (the_Str (fld f ''path'')) \<and> encodable (the_Str (fld f ''text'')) \<and>
     utf8_size (the_Str (fld f ''path'')) \<le> v2_max_public_path_bytes \<and> v2_public_path (the_Str (fld f ''path''))"

abbreviation file_paths :: "pyval list \<Rightarrow> pystr list" where
  "file_paths fs \<equiv> map (\<lambda>f. the_Str (fld f ''path'')) fs"

abbreviation text_sizes :: "pyval list \<Rightarrow> nat list" where
  "text_sizes fs \<equiv> map (\<lambda>f. utf8_size (the_Str (fld f ''text''))) fs"

lemma path_collides_sym: "path_collides p q \<longleftrightarrow> path_collides q p"
  by (auto simp: path_collides_def)

lemma v2_public_path_nonempty: "v2_public_path p \<Longrightarrow> p \<noteq> []"
  by (auto simp: v2_public_path_def bad_part_def)

lemma v2_public_files_accepts:
  "tot \<le> v2_max_public_file_bytes \<Longrightarrow> v2_public_files paths tot fs = Inr u \<longleftrightarrow>
     (\<forall>f \<in> set fs. public_file_ok f) \<and> tot + sum_list (text_sizes fs) \<le> v2_max_public_file_bytes \<and>
     (\<forall>p \<in> set (file_paths fs). \<forall>q \<in> set paths. \<not> path_collides p q) \<and>
     sorted_wrt (\<lambda>p q. \<not> path_collides p q) (file_paths fs)"
proof (induction fs arbitrary: paths tot u)
  case (Cons f fs)
  let ?p = "the_Str (fld f ''path'')" and ?n = "utf8_size (the_Str (fld f ''text''))"
  have step: "v2_public_files paths tot (f # fs) = Inr u \<longleftrightarrow> public_file_ok f \<and> tot + ?n \<le> v2_max_public_file_bytes \<and>
      (\<forall>q \<in> set paths. \<not> path_collides ?p q) \<and> v2_public_files (?p # paths) (tot + ?n) fs = Inr ()"
    by (auto simp: Let_def control_object_obj control_scalar_accepts public_file_ok_def list_ex_iff
        dest: v2_public_path_nonempty)
  show ?case
  proof (cases "tot + ?n \<le> v2_max_public_file_bytes")
    case True
    show ?thesis
      unfolding step Cons.IH [OF True]
      by (auto simp: add.assoc path_collides_sym [of _ ?p])
  next
    case False
    then show ?thesis unfolding step by auto
  qed
qed simp

section \<open>Hosted runs\<close>

text \<open>What a client may conclude from an accepted hosted run.\<close>

definition progress_ok :: "pyval \<Rightarrow> pyval \<Rightarrow> bool" where
  "progress_ok limits p \<longleftrightarrow> (\<exists>first rs.
     fld p ''firstSeq'' = PInt first \<and> 1 \<le> first \<and> fld p ''records'' = PList rs \<and>
     fld p ''nextSeq'' = PInt (first + int (length rs)) \<and> fld p ''truncated'' = PBool (1 < first) \<and>
     int (length rs) \<le> the_Int (fld limits ''progressRecords'') \<and>
     (\<forall>i < length rs. fld (rs ! i) ''seq'' = PInt (first + int i)) \<and>
     int (sum_list (map (\<lambda>r. utf8_size (json_dumps r)) rs)) \<le> the_Int (fld limits ''progressBytes''))"

definition run_coherent :: "pyval \<Rightarrow> bool" where
  "run_coherent v \<longleftrightarrow>
     (let phase = fld v ''phase''; status = fld (fld v ''cleanup'') ''status'';
          remaining = the_List (fld (fld v ''cleanup'') ''remainingResources'') in
      (phase \<in> {pyl ''starting'', pyl ''running'', pyl ''submitting''} \<and> status = pyl ''notStarted'' \<and>
         \<not> has v ''outcome'' \<and> \<not> has v ''submission'' \<and> \<not> has v ''error'' \<and> remaining = [] \<or>
       (phase = pyl ''cleaning'' \<and> status = pyl ''pending'' \<or>
        phase = pyl ''finished'' \<and> (status = pyl ''succeeded'' \<and> remaining = [] \<or> status = pyl ''failed'')) \<and>
         (fld v ''outcome'' = pyl ''submitted'' \<and> has v ''submission'' \<and> \<not> has v ''error'' \<or>
          fld v ''outcome'' \<in> {pyl ''failed'', pyl ''cancelled'', pyl ''timedOut''} \<and> \<not> has v ''submission'' \<and>
            has v ''error'')))"

lemma has_fld: "\<not> has v k \<Longrightarrow> fld v k = PNone"
  by (auto simp: has_def fld_def)

lemma control_encode_length:
  "control_encode_frame mx r = Inr bs \<Longrightarrow> length bs - 1 = utf8_size (json_dumps r)"
  by (auto simp: control_encode_frame_def bindE_eq_Inr utf8_def utf8_size_def length_concat comp_def
      split: option.splits if_splits)

lemma v2_progress_records_Inr:
  "v2_progress_records lim tot seq rs = Inr n \<Longrightarrow>
     n = tot + sum_list (map (\<lambda>r. utf8_size (json_dumps r)) rs) \<and>
     (\<forall>i < length rs. fld (rs ! i) ''seq'' = PInt (seq + int i))"
proof (induction rs arbitrary: tot seq)
  case (Cons r rs)
  then obtain bs where enc: "control_encode_frame control_max_frame_bytes r = Inr bs"
    and seq: "fld r ''seq'' = PInt seq"
    and rest: "v2_progress_records lim (tot + (length bs - 1)) (seq + 1) rs = Inr n"
    by (auto simp: bindE_eq_Inr Let_def split: if_splits)
  from Cons.IH [OF rest] seq control_encode_length [OF enc] show ?case
    by (auto simp: nth_Cons algebra_simps split: nat.splits)
qed simp

lemma v2_validate_progress_ok: "v2_validate_progress limits p = Inr u \<Longrightarrow> progress_ok limits p"
  by (auto simp: v2_validate_progress_def Let_def bindE_eq_Inr control_safe_accepts is_Int_def is_List_def
      progress_ok_def dest!: v2_progress_records_Inr)

lemma v2_validate_run_coherent:
  assumes "v2_validate_run v = Inr w"
  shows "w = v \<and> run_coherent v \<and> progress_ok (fld v ''limits'') (fld v ''progress'')"
proof -
  note acc = assms [unfolded v2_validate_run_def Let_def, simplified]
  have phase: "fld v ''phase'' \<in> pyl ` set v2_run_phases" using acc by (simp add: control_enum_accepts)
  have out: "has v ''outcome'' \<Longrightarrow> fld v ''outcome'' \<in> pyl ` set v2_run_outcomes"
    using acc by (simp add: control_enum_accepts)
  have status: "fld (fld v ''cleanup'') ''status'' \<in> v2_expected_cleanup (fld v ''phase'')"
    and started: "(fld v ''phase'' \<in> {pyl ''cleaning'', pyl ''finished''}) = has v ''outcome''"
    and remaining: "fld (fld v ''cleanup'') ''status'' \<in> {pyl ''notStarted'', pyl ''succeeded''} \<Longrightarrow>
      the_List (fld (fld v ''cleanup'') ''remainingResources'') = []"
    and sub: "(fld v ''outcome'' = pyl ''submitted'') = has v ''submission''"
    and err: "(fld v ''outcome'' \<in> {pyl ''failed'', pyl ''cancelled'', pyl ''timedOut''}) = has v ''error''"
    using acc by auto
  have none: "\<not> has v ''outcome'' \<Longrightarrow> \<not> has v ''submission'' \<and> \<not> has v ''error''"
    using sub err has_fld [of v "''outcome''"] by auto
  from phase consider "fld v ''phase'' \<in> {pyl ''starting'', pyl ''running'', pyl ''submitting''}"
    | "fld v ''phase'' = pyl ''cleaning''" | "fld v ''phase'' = pyl ''finished''"
    by (auto simp: v2_run_phases_def)
  then have "run_coherent v"
  proof cases
    case 1
    then have "fld v ''phase'' \<noteq> pyl ''cleaning''" "fld v ''phase'' \<noteq> pyl ''finished''" by auto
    with 1 status started remaining none show ?thesis
      by (simp add: run_coherent_def v2_expected_cleanup_def)
  next
    case 2
    with status started sub err out show ?thesis
      by (auto simp: run_coherent_def v2_expected_cleanup_def v2_run_outcomes_def)
  next
    case 3
    with status started sub err out remaining show ?thesis
      by (auto simp: run_coherent_def v2_expected_cleanup_def v2_run_outcomes_def)
  qed
  moreover have "progress_ok (fld v ''limits'') (fld v ''progress'')"
    using acc by (intro v2_validate_progress_ok) simp
  ultimately show ?thesis using acc by simp
qed

section \<open>Output events\<close>

definition output_event :: "int \<Rightarrow> int \<Rightarrow> pystr \<Rightarrow> string \<Rightarrow> int \<Rightarrow> string \<Rightarrow> int \<Rightarrow> pystr \<Rightarrow> pyval" where
  "output_event v seq sid name opid stream chunk b64 = PDict
     [(lit ''v'', PInt v), (lit ''kind'', pyl ''event''), (lit ''seq'', PInt seq), (lit ''sessionId'', PStr sid),
      (lit ''event'', pyl name),
      (lit ''data'', PDict [(lit ''operationId'', PInt opid), (lit ''stream'', pyl stream), (lit ''chunk'', PInt chunk),
         (lit ''bytesBase64'', PStr b64)])]"

definition positive_safe :: "int \<Rightarrow> bool" where
  "positive_safe i \<longleftrightarrow> 1 \<le> i \<and> i \<le> max_safe_integer"

lemma control_text_ascii: "is_ascii s \<Longrightarrow> length s \<le> control_max_frame_bytes \<Longrightarrow> control_text s"
  by (simp add: control_text_def ascii_encodable ascii_utf8_size)

lemma is_ascii_lit: "list_all (\<lambda>c. (of_char c :: nat) < 128) w \<Longrightarrow> is_ascii (lit w)"
  by (simp add: is_ascii_def lit_def list_all_iff)

lemma unlit_lit [simp]: "unlit (lit w) = w"
  by (simp add: unlit_def lit_def comp_def)

text \<open>C36 Everything the controller encodes with \<open>canonical_base64\<close> is accepted by the event validator when
  it is sent as an output event with positive safe counters and a session handle, so no output a
  controller emits is ever rejected by the codec.\<close>

theorem output_event_accepted:
  assumes enc: "canonical_base64 data = Inr b64" and bytes: "\<forall>b \<in> set data. b < 256"
    and sid: "re_hex 32 sid" and nums: "positive_safe seq" "positive_safe opid" "positive_safe chunk"
    and name: "name \<in> {''authoring.output'', ''build.output''}" and stream: "stream \<in> {''stdout'', ''stderr''}"
  shows "control_validate_event (output_event 1 seq sid name opid stream chunk b64) operation =
    Inr (output_event 1 seq sid name opid stream chunk b64)"
proof -
  let ?m = "output_event 1 seq sid name opid stream chunk b64"
  have len: "length data \<le> control_max_output_chunk_bytes" and b64: "b64 = b64encode data"
    using enc by (auto simp: canonical_base64_def split: if_splits)
  have dec: "b64decode b64 = Some data" using b64 bytes by (simp add: b64_roundtrip)
  have "length b64 \<le> 21848"
  proof -
    have "(length data + 2) div 3 \<le> (16384 + 2) div 3"
      using len by (intro div_le_mono) (simp add: control_max_output_chunk_bytes_def)
    then show ?thesis by (simp add: b64 length_b64encode)
  qed
  then have strs: "control_text b64" "control_text sid"
    using b64 sid b64encode_ascii [of data] re_hex_ascii [OF sid]
    by (auto intro!: control_text_ascii simp: control_max_frame_bytes_def re_hex_def)
  have lits: "control_text (lit w)" if "list_all (\<lambda>c. (of_char c :: nat) < 128) w" "length w < 1000" for w
    using that by (intro control_text_ascii is_ascii_lit) (simp_all add: control_max_frame_bytes_def)
  have safe: "safe_int seq" "safe_int opid" "safe_int chunk" "safe_int 1"
    using nums by (simp_all add: positive_safe_def safe_int_def max_safe_integer_def)
  have bounds: "control_bounds ?m = Inr ()"
    using strs safe name stream
    by (auto simp: control_bounds_accepts output_event_def control_max_json_depth_def control_max_json_nodes_def lits)
  have nums': "control_safe (PInt seq) l True = Inr ()" "control_safe (PInt opid) l True = Inr ()"
    "control_safe (PInt chunk) l True = Inr ()" for l
    using nums by (simp_all add: control_safe_accepts positive_safe_def)
  have "control_output_event (fld ?m ''data'') = Inr ()"
    using nums' dec b64 len stream
    by (auto simp: control_output_event_def output_event_def control_object_obj obj_def)
  then have "control_event_data name (fld ?m ''data'') operation = Inr ()"
    using name by (auto simp: control_event_data_def)
  then show ?thesis
    using bounds nums' sid name
    by (auto simp: control_validate_event_def output_event_def control_object_obj obj_def
        control_handle_accepts control_events_def)
qed

theorem output_event_accepted_witness:
  "control_validate_event (output_event 1 1 (replicate 32 97) ''build.output'' 1 ''stdout'' 1 (lit ''aGk='')) None =
    Inr (output_event 1 1 (replicate 32 97) ''build.output'' 1 ''stdout'' 1 (lit ''aGk=''))"
proof (rule output_event_accepted [of "[104, 105]"])
  show "canonical_base64 [104, 105] = Inr (lit ''aGk='')" by code_simp
  show "re_hex 32 (replicate 32 97)" by code_simp
qed (simp_all add: positive_safe_def max_safe_integer_def)

text \<open>C37 An output event that passes the validator carries the canonical Base64 text of exactly one byte
  string, of at most 16384 bytes: no two spellings of the same bytes are accepted.\<close>

theorem output_event_decodes:
  assumes "control_output_event d = Inr ()"
  shows "\<exists>!bs. (\<forall>b \<in> set bs. b < 256) \<and> length bs \<le> control_max_output_chunk_bytes \<and>
    fld d ''bytesBase64'' = PStr (b64encode bs)"
proof -
  from assms obtain bs where bs: "b64decode (the_Str (fld d ''bytesBase64'')) = Some bs" "is_Str (fld d ''bytesBase64'')"
    "b64encode bs = the_Str (fld d ''bytesBase64'')" "length bs \<le> control_max_output_chunk_bytes"
    by (auto simp: control_output_event_def split: option.splits if_splits)
  show ?thesis
  proof (rule ex1I [of _ bs])
    show "(\<forall>b \<in> set bs. b < 256) \<and> length bs \<le> control_max_output_chunk_bytes \<and>
        fld d ''bytesBase64'' = PStr (b64encode bs)"
      using bs b64decode_bytes [OF bs(1)] by (cases "fld d ''bytesBase64''") auto
    fix cs
    assume "(\<forall>b \<in> set cs. b < 256) \<and> length cs \<le> control_max_output_chunk_bytes \<and>
        fld d ''bytesBase64'' = PStr (b64encode cs)"
    then show "cs = bs" using bs(1) b64_roundtrip [of cs] by simp
  qed
qed

theorem output_event_decodes_witness:
  "\<exists>!bs. (\<forall>b \<in> set bs. b < 256) \<and> length bs \<le> control_max_output_chunk_bytes \<and>
    fld (fld (output_event 1 1 [] ''build.output'' 1 ''stdout'' 1 (lit ''aGk='')) ''data'') ''bytesBase64'' =
      PStr (b64encode bs)"
  by (rule output_event_decodes) code_simp

section \<open>Frames, tasks, runs and versions\<close>

text \<open>C26 Control frames round-trip: a dict within the control bounds that was encoded under some byte
  budget is parsed back to itself under that budget.\<close>

theorem control_frame_roundtrip:
  assumes "wf_pyval m" "is_Dict m" "129 \<le> lim" "control_encode_frame mx m = Inr bs"
  shows "control_parse_frame lim mx bs = Inr m"
  using assms by (rule control_parse_encoded)

theorem control_frame_roundtrip_witness:
  "control_parse_frame 129 4096 [123, 34, 118, 34, 58, 49, 125, 10] = Inr (PDict [(lit ''v'', PInt 1)])"
  by (rule control_frame_roundtrip) code_simp+

text \<open>C24 A public task is accepted exactly when it is bounded, has non-empty bounded instructions and at
  most 128 files, every file has a canonical relative path outside \<^verbatim>\<open>.mirrorgate\<close>, no path equals or lies
  under another (so staging does not depend on order), and the texts stay within 262144 bytes together.\<close>

theorem public_task_decided:
  "v2_validate_public_task v = Inr w \<longleftrightarrow> w = v \<and> control_bounds v = Inr () \<and> obj v [''instructions'', ''files''] \<and>
     control_scalar_string (fld v ''instructions'') ''instructions'' v2_max_instruction_bytes True = Inr () \<and>
     is_List (fld v ''files'') \<and> length (the_List (fld v ''files'')) \<le> 128 \<and>
     list_all public_file_ok (the_List (fld v ''files'')) \<and>
     sorted_wrt (\<lambda>p q. \<not> path_collides p q) (file_paths (the_List (fld v ''files''))) \<and>
     sum_list (text_sizes (the_List (fld v ''files''))) \<le> 262144"
proof -
  have "v2_public_files [] 0 fs = Inr () \<longleftrightarrow> list_all public_file_ok fs \<and> sum_list (text_sizes fs) \<le> 262144 \<and>
      sorted_wrt (\<lambda>p q. \<not> path_collides p q) (file_paths fs)" for fs
    using v2_public_files_accepts [of 0 "[]" fs] by (simp add: list_all_iff v2_max_public_file_bytes_def)
  then show ?thesis
    by (auto simp: v2_validate_public_task_def control_object_obj v2_max_public_files_def)
qed

text \<open>C16 An accepted hosted run is coherent: before cleanup it has no outcome, submission, error or
  remaining resource; while cleaning and when finished it has exactly one outcome, a submission exactly
  for the outcome \<^verbatim>\<open>submitted\<close> and an error exactly for the others; and its progress window is
  contiguous, within the record and byte limits, and marked truncated exactly when it lost its start.\<close>

theorem run_accepted_coherent:
  assumes "v2_validate_run v = Inr w"
  shows "w = v \<and> run_coherent v \<and> progress_ok (fld v ''limits'') (fld v ''progress'')"
  using assms by (rule v2_validate_run_coherent)

definition sample_run :: pyval where
  "sample_run = PDict [(lit ''runId'', PStr (replicate 32 97)), (lit ''phase'', pyl ''running''),
     (lit ''cleanup'', PDict [(lit ''status'', pyl ''notStarted''), (lit ''remainingResources'', PList [])]),
     (lit ''limits'', PDict (map (\<lambda>(k, n). (lit k, PInt n)) v2_host_limits)),
     (lit ''progress'', PDict [(lit ''firstSeq'', PInt 1), (lit ''nextSeq'', PInt 2), (lit ''truncated'', PBool False),
        (lit ''records'', PList [PDict [(lit ''seq'', PInt 1), (lit ''message'', pyl ''hi'')]])])]"

theorem run_accepted_coherent_witness:
  "run_coherent sample_run \<and> progress_ok (fld sample_run ''limits'') (fld sample_run ''progress'')"
proof -
  have "v2_validate_run sample_run = Inr sample_run" by code_simp
  from run_accepted_coherent [OF this] show ?thesis by simp
qed

text \<open>C38 The selected control version was offered by the client, is supported, and is the highest such
  version; and a valid hello with no common version is refused as \<^verbatim>\<open>VERSION_UNSUPPORTED\<close>, never downgraded.\<close>

theorem select_version_highest:
  assumes hello: "control_validate_request lim hello = Inr m" and op: "fld hello ''op'' = pyl ''hello''"
  shows "case select_control_version lim supported hello of
      Inr n \<Rightarrow> PInt n \<in> set (the_List (fld (fld hello ''args'') ''controlVersions'')) \<and> n \<in> set supported \<and>
        (\<forall>k \<in> set supported. PInt k \<in> set (the_List (fld (fld hello ''args'') ''controlVersions'')) \<longrightarrow> k \<le> n)
    | Inl e \<Rightarrow> e = ControlProtocolError ''VERSION_UNSUPPORTED'' ''bootstrap'' ''no supported control version'' False \<and>
        (\<forall>k \<in> set supported. PInt k \<notin> set (the_List (fld (fld hello ''args'') ''controlVersions'')))"
proof -
  let ?vs = "the_List (fld (fld hello ''args'') ''controlVersions'')"
  let ?c = "set (map the_Int ?vs) \<inter> set supported"
  from hello op have "list_all is_Int ?vs"
    by (auto simp: control_validate_request_def Let_def control_hello_args_def list_all_iff)
  then have mem: "k \<in> set (map the_Int ?vs) \<longleftrightarrow> PInt k \<in> set ?vs" for k
    by (auto simp: list_all_iff image_iff is_Int_def) (metis pyval.sel(2))
  have sel: "select_control_version lim supported hello =
      (if ?c = {} then Inl (ControlProtocolError ''VERSION_UNSUPPORTED'' ''bootstrap'' ''no supported control version'' False)
       else Inr (Max ?c))"
    using hello op by (simp add: select_control_version_def Let_def)
  show ?thesis
  proof (cases "?c = {}")
    case True
    then show ?thesis using mem unfolding sel by auto
  next
    case False
    have fin: "finite ?c" by simp
    have "Max ?c \<in> ?c" "\<forall>k \<in> ?c. k \<le> Max ?c" using Max_in [OF fin False] Max_ge [OF fin] by blast+
    then show ?thesis using mem False unfolding sel by auto
  qed
qed

definition sample_hello :: "int list \<Rightarrow> pyval" where
  "sample_hello vs = PDict [(lit ''v'', PInt 1), (lit ''kind'', pyl ''request''), (lit ''id'', PInt 1), (lit ''op'', pyl ''hello''),
     (lit ''args'', PDict [(lit ''controlVersions'', PList (map PInt vs)), (lit ''requiredCapabilities'', PList [])])]"

theorem select_version_highest_witness:
  "select_control_version 200 [1, 2] (sample_hello [1, 2, 3]) = Inr 2 \<and>
   PInt 2 \<in> set (the_List (fld (fld (sample_hello [1, 2, 3]) ''args'') ''controlVersions''))"
proof -
  have h: "control_validate_request 200 (sample_hello [1, 2, 3]) = Inr (sample_hello [1, 2, 3])" by code_simp
  have o: "fld (sample_hello [1, 2, 3]) ''op'' = pyl ''hello''" by code_simp
  have s: "select_control_version 200 [1, 2] (sample_hello [1, 2, 3]) = Inr 2" by code_simp
  show ?thesis using select_version_highest [OF h o, of "[1, 2]"] s by simp
qed

end
