(* ===== verification/PolicyTheorems.thy ===== *)
theory PolicyTheorems
  imports PolicyCatalog ControlTheorems
begin

text \<open>
  What operator policies guarantee: requests only tighten limits, inputs resolve inside approved roots,
  the wire and policy layers agree on relative paths and public tasks, catalog references resolve, and
  runtime launches are fixed by the operator.
\<close>

section \<open>Limits\<close>

definition climits_ok :: "climits \<Rightarrow> bool" where
  "climits_ok l \<longleftrightarrow> (\<forall>(k, x) \<in> set (climits_as_wire l). 1 \<le> the_Int x \<and> the_Int x \<le> max_safe_integer) \<and> 32 \<le> c_open_files l"

lemma climits_wire_keys: "map fst (climits_as_wire l) = map lit climit_fields"
  by (simp add: climits_as_wire_def climit_fields_def)

lemma climits_parse_Inr:
  "climits_parse (PDict d) = Inr l \<Longrightarrow> set (map fst d) = names climit_fields \<and>
     (\<forall>(k, x) \<in> set d. is_Int x \<and> 1 \<le> the_Int x \<and> the_Int x \<le> max_safe_integer) \<and> 32 \<le> the_Int (fld (PDict d) ''openFiles'')"
  by (auto simp: climits_parse_def Let_def policy_object_def seqE_map_Inr climit_item_def)

lemma map_of_lit: "map_of (map (\<lambda>n. (lit n, f n)) ns) (lit n) = (if n \<in> set ns then Some (f n) else None)"
  by (induction ns) auto

lemma climits_parse_wire:
  assumes "climits_parse (PDict d) = Inr l"
  shows "map_of (climits_as_wire l) = map_of d"
proof
  note p = climits_parse_Inr [OF assms]
  have l: "climits_as_wire l = map (\<lambda>n. (lit n, PInt (the_Int (fld (PDict d) n)))) climit_fields"
    using assms by (auto simp: climits_parse_def Let_def climits_as_wire_def climit_fields_def)
  fix k
  show "map_of (climits_as_wire l) k = map_of d k"
  proof (cases "k \<in> names climit_fields")
    case True
    then obtain n where n: "k = lit n" "n \<in> set climit_fields" by auto
    obtain x where x: "map_of d k = Some x" using True p by (metis map_of_eq_None_iff not_None_eq set_map)
    then have "is_Int x" using p map_of_SomeD by fastforce
    then have "PInt (the_Int (fld (PDict d) n)) = x" using x by (simp add: fld_def n(1))
    moreover have "map_of (climits_as_wire l) k = Some (PInt (the_Int (fld (PDict d) n)))"
      unfolding l n(1) using n(2) by (simp add: map_of_lit)
    ultimately show ?thesis using x by simp
  next
    case False
    then have "map_of d k = None" using p by (metis map_of_eq_None_iff set_map)
    moreover have "map_of (climits_as_wire l) k = None"
      using False climits_wire_keys [of l] by (metis map_of_eq_None_iff set_map)
    ultimately show ?thesis by simp
  qed
qed

lemma climits_parse_ok:
  assumes "climits_parse v = Inr l"
  shows "climits_ok l"
proof -
  obtain d where v: "v = PDict d" using assms by (cases v) (auto simp: climits_parse_def Let_def policy_object_def)
  note p = climits_parse_Inr [OF assms [unfolded v]]
  have "1 \<le> the_Int x \<and> the_Int x \<le> max_safe_integer" if "(k, x) \<in> set (climits_as_wire l)" for k x
  proof -
    have "distinct (map fst (climits_as_wire l))" unfolding climits_wire_keys
      by (simp add: climit_fields_def)
    then have "map_of d k = Some x" using that climits_parse_wire [OF assms [unfolded v]] by (metis map_of_is_SomeI)
    then show ?thesis using p map_of_SomeD by fastforce
  qed
  moreover have "c_open_files l = the_Int (fld v ''openFiles'')" using assms by (auto simp: climits_parse_def Let_def)
  ultimately show ?thesis using p by (auto simp: climits_ok_def v)
qed

lemma climits_sandbox_valid: "climits_ok l \<Longrightarrow> limits_validate (climits_sandbox l e) = Inr ()"
  by (simp add: climits_ok_def climits_as_wire_def limits_validate_def climits_sandbox_def default_limits_def
      limit_fields_def valid_seconds_def float_finite_def float_positive_def max_safe_integer_def startswith_def lit_def Let_def)

lemma tighten_loop_step:
  "tighten_loop cur ((name, item) # rest) = Inr cur' \<longleftrightarrow> tighten_loop (dset cur name item) rest = Inr cur' \<and>
     (\<exists>i c. item = PInt i \<and> map_of cur name = Some (PInt c) \<and> 0 < i \<and> i \<le> c)"
  by (cases item) (auto split: option.splits pyval.splits)

lemma tighten_loop_map:
  "tighten_loop cur req = Inr cur' \<Longrightarrow> distinct (map fst req) \<Longrightarrow>
     map_of cur' k = (case map_of req k of Some x \<Rightarrow> Some x | None \<Rightarrow> map_of cur k)"
proof (induction req arbitrary: cur)
  case (Cons kv req)
  obtain name item where kv: "kv = (name, item)" by (cases kv)
  have "map_of cur' k = (case map_of req k of Some x \<Rightarrow> Some x | None \<Rightarrow> map_of (dset cur name item) k)"
    using Cons by (simp add: kv tighten_loop_step del: tighten_loop.simps)
  moreover have "map_of req name = None" using Cons.prems(2) by (simp add: kv map_of_eq_None_iff)
  ultimately show ?case by (auto simp: kv split: option.splits)
qed auto

lemma tighten_loop_bounds:
  "tighten_loop cur req = Inr cur' \<Longrightarrow> distinct (map fst req) \<Longrightarrow> (n, x) \<in> set req \<Longrightarrow>
     \<exists>i c. x = PInt i \<and> map_of cur n = Some (PInt c) \<and> 0 < i \<and> i \<le> c"
proof (induction req arbitrary: cur)
  case (Cons kv req)
  obtain name item where kv: "kv = (name, item)" by (cases kv)
  show ?case
  proof (cases "(n, x) = (name, item)")
    case True
    then show ?thesis using Cons.prems(1) by (simp add: kv tighten_loop_step del: tighten_loop.simps)
  next
    case False
    then have mem: "(n, x) \<in> set req" using Cons.prems(3) kv by auto
    then have "n \<noteq> name" using Cons.prems(2) kv by force
    moreover have "\<exists>i c. x = PInt i \<and> map_of (dset cur name item) n = Some (PInt c) \<and> 0 < i \<and> i \<le> c"
      using Cons.IH [OF _ _ mem, of "dset cur name item"] Cons.prems
      by (simp add: kv tighten_loop_step del: tighten_loop.simps)
    ultimately show ?thesis by simp
  qed
qed auto

lemma climits_wire_field:
  assumes "climits_ok l" "n \<in> set climit_fields"
  shows "\<exists>a. map_of (climits_as_wire l) (lit n) = Some (PInt a) \<and> 1 \<le> a"
proof -
  obtain a where a: "map_of (climits_as_wire l) (lit n) = Some (PInt a)"
    using assms(2) by (auto simp: climits_as_wire_def climit_fields_def)
  then show ?thesis using assms(1) by (auto simp: climits_ok_def dest!: map_of_SomeD)
qed

text \<open>C19 A request can only tighten limits: for limits the catalog parser accepted, every field of the
  tightened limits is positive, at most the policy's value, and is the requested value where the request
  names the field and the policy's value where it does not; and the sandbox limits made from the result
  are always valid, for sessions and for executions.\<close>

theorem tighten_never_loosens:
  assumes policy: "climits_parse v = Inr l" and req: "wf_pyval req" and ok: "climits_tighten l req = Inr l'"
  shows "(\<forall>n \<in> set climit_fields. \<exists>a b. map_of (climits_as_wire l) (lit n) = Some (PInt a) \<and>
      map_of (climits_as_wire l') (lit n) = Some (PInt b) \<and> 1 \<le> b \<and> b \<le> a \<and>
      b = (if has req n then the_Int (fld req n) else a)) \<and>
    limits_validate (climits_sandbox l' execution) = Inr ()"
proof (cases "req = PNone")
  case True
  then have "l' = l" using ok by (simp add: climits_tighten_def)
  then show ?thesis
    using True climits_sandbox_valid [OF climits_parse_ok [OF policy]] climits_wire_field [OF climits_parse_ok [OF policy]]
    by (auto simp: has_def)
next
  case False
  then obtain d cur where d: "req = PDict d" "tighten_loop (climits_as_wire l) d = Inr cur"
    "climits_parse (PDict cur) = Inr l'" "distinct (map fst d)"
    using ok req by (cases req) (auto simp: climits_tighten_def bindE_eq_Inr)
  have wire: "map_of (climits_as_wire l') k = (case map_of d k of Some x \<Rightarrow> Some x | None \<Rightarrow> map_of (climits_as_wire l) k)" for k
    using tighten_loop_map [OF d(2,4)] climits_parse_wire [OF d(3)] by simp
  have "\<exists>a b. map_of (climits_as_wire l) (lit n) = Some (PInt a) \<and> map_of (climits_as_wire l') (lit n) = Some (PInt b) \<and>
      1 \<le> b \<and> b \<le> a \<and> b = (if has req n then the_Int (fld req n) else a)" if n: "n \<in> set climit_fields" for n
  proof (cases "map_of d (lit n)")
    case None
    obtain a where "map_of (climits_as_wire l) (lit n) = Some (PInt a)" "1 \<le> a"
      using climits_wire_field [OF climits_parse_ok [OF policy] n] by blast
    then show ?thesis using None wire [of "lit n"] by (simp add: has_def d(1))
  next
    case (Some x)
    then obtain i c where "x = PInt i" "map_of (climits_as_wire l) (lit n) = Some (PInt c)" "0 < i" "i \<le> c"
      using tighten_loop_bounds [OF d(2,4) map_of_SomeD] by blast
    then show ?thesis using Some wire [of "lit n"] by (simp add: has_def fld_def d(1))
  qed
  then show ?thesis using climits_sandbox_valid [OF climits_parse_ok [OF d(3)]] by blast
qed

theorem tighten_never_loosens_witness:
  "\<exists>l l'. climits_parse example_limits = Inr l \<and> climits_tighten l (PDict [(lit ''fileBytes'', PInt 5)]) = Inr l' \<and>
     map_of (climits_as_wire l') (lit ''fileBytes'') = Some (PInt 5) \<and> limits_validate (climits_sandbox l' True) = Inr ()"
proof -
  let ?r = "PDict [(lit ''fileBytes'', PInt 5)]"
  have "case climits_parse example_limits of Inl _ \<Rightarrow> False | Inr l \<Rightarrow>
      (case climits_tighten l ?r of Inl _ \<Rightarrow> False | Inr l' \<Rightarrow> True)" by code_simp
  then obtain l l' where ok: "climits_parse example_limits = Inr l" "climits_tighten l ?r = Inr l'"
    by (auto split: sum.splits)
  have wf: "wf_pyval ?r" by code_simp
  have "''fileBytes'' \<in> set climit_fields" by (simp add: climit_fields_def)
  with tighten_never_loosens [OF ok(1) wf ok(2), of True] ok show ?thesis by fastforce
qed

section \<open>Relative paths and public tasks\<close>

lemma not_bad_parts: "\<not> list_ex bad_part (psplit slash s) \<longleftrightarrow> list_all plain_component (psplit slash s)"
  by (auto simp: list_ex_iff list_all_iff bad_part_def plain_component_def dest: psplit_sep_free)

lemma relative_canonical_iff:
  "\<not> pp_absolute s \<and> lit ''..'' \<notin> set (pp_parts s) \<and> pp_str s = s \<and> s \<noteq> [] \<longleftrightarrow>
     s \<noteq> [] \<and> \<not> startswith s [slash] \<and> (s = lit ''.'' \<or> list_all plain_component (psplit slash s))"
proof (cases "startswith s [slash]")
  case True
  then show ?thesis by (simp add: pp_absolute_iff)
next
  case False
  then have root: "pp_root s = []" using pp_absolute_iff [of s] by (simp add: pp_absolute_def)
  show ?thesis
  proof (cases "s = lit ''.''")
    case True
    have "psplit slash (lit ''.'') = [lit ''.'']" "\<not> startswith (lit ''.'') [slash]" by code_simp+
    then show ?thesis using root True pp_absolute_iff [of s]
      by (simp add: pp_parts_def pp_tail_def pp_str_def)
  next
    case ndot: False
    have tail: "\<forall>p \<in> set (psplit slash s). p \<noteq> [] \<and> p \<noteq> lit ''.'' \<Longrightarrow> pp_parts s = psplit slash s"
      by (simp add: pp_parts_def root pp_tail_def filter_id_conv)
    have "list_all plain_component (psplit slash s) \<longleftrightarrow>
        (\<forall>p \<in> set (psplit slash s). p \<noteq> [] \<and> p \<noteq> lit ''.'') \<and> lit ''..'' \<notin> set (psplit slash s)"
      by (auto simp: list_all_iff plain_component_def dest: psplit_sep_free)
    then show ?thesis
      using False ndot tail pp_relative_canonical [OF False] pp_absolute_iff [of s] by auto
  qed
qed

lemma checked_relative_path_Inr:
  "checked_relative_path v l = Inr s \<longleftrightarrow> v = PStr s \<and> encodable s \<and> 0 \<notin> set s \<and> utf8_size s \<le> 1024 \<and>
     s \<noteq> [] \<and> \<not> startswith s [slash] \<and> (s = lit ''.'' \<or> list_all plain_component (psplit slash s))"
  using relative_canonical_iff [of s]
  by (auto simp: checked_relative_path_def Let_def utf8_len_eq split: pyval.splits)

text \<open>C39 The wire validator and the policy layer agree on input paths: an input reference passes
  \<^verbatim>\<open>_input_ref\<close> exactly when it is the two-field object with a public root identifier and
  \<^verbatim>\<open>checked_relative_path\<close> accepts its relative path, whatever the label; a request that passed the
  control codec is never refused later because of the spelling of its path.\<close>

theorem input_ref_agrees:
  "control_input_ref v = Inr () \<longleftrightarrow> obj v [''rootId'', ''relativePath''] \<and>
     (\<exists>r. fld v ''rootId'' = PStr r \<and> re_identifier r) \<and>
     (\<exists>s. checked_relative_path (fld v ''relativePath'') label = Inr s)"
proof -
  have str: "(\<exists>r. x = PStr r \<and> P r) \<longleftrightarrow> is_Str x \<and> P (the_Str x)" for x P by (cases x) auto
  have "(\<exists>s. checked_relative_path x label = Inr s) \<longleftrightarrow> is_Str x \<and> encodable (the_Str x) \<and> 0 \<notin> set (the_Str x) \<and>
      utf8_size (the_Str x) \<le> 1024 \<and> the_Str x \<noteq> [] \<and> \<not> startswith (the_Str x) [slash] \<and>
      (the_Str x = lit ''.'' \<or> list_all plain_component (psplit slash (the_Str x)))" for x
    unfolding checked_relative_path_Inr str by blast
  then show ?thesis
    unfolding str
    by (auto simp: control_input_ref_def Let_def control_object_obj control_public_id_accepts control_scalar_accepts
        not_bad_parts)
qed

definition public_file_copy :: "pyval \<Rightarrow> pyval" where
  "public_file_copy f = PDict [(lit ''path'', fld f ''path''), (lit ''text'', fld f ''text'')]"

definition nul_free :: "pyval \<Rightarrow> bool" where
  "nul_free v \<longleftrightarrow> 0 \<notin> set (the_Str v)"

lemma policy_object_obj: "policy_object v ks l = Inr u \<longleftrightarrow> obj v ks"
  by (auto simp: policy_object_def obj_def)

lemma task_text_Inr: "task_text v n = Inr u \<longleftrightarrow> is_Str v \<and> nul_free v \<and> encodable (the_Str v) \<and> utf8_size (the_Str v) \<le> n"
  by (auto simp: task_text_def utf8_len_eq nul_free_def)

lemma public_path_relative:
  assumes "v2_public_path p" "encodable p" "utf8_size p \<le> 1024"
  shows "checked_relative_path (PStr p) l = Inr p" "p \<noteq> lit ''.''" "hd (psplit slash p) \<noteq> lit ''.mirrorgate''"
proof -
  have parts: "list_all plain_component (psplit slash p)" using assms(1) not_bad_parts by (simp add: v2_public_path_def)
  show "p \<noteq> lit ''.''"
  proof
    assume "p = lit ''.''"
    moreover have "\<not> list_all plain_component (psplit slash (lit ''.''))" by code_simp
    ultimately show False using parts by simp
  qed
  show "checked_relative_path (PStr p) l = Inr p" "hd (psplit slash p) \<noteq> lit ''.mirrorgate''"
    using assms parts v2_public_path_nonempty [OF assms(1)] by (auto simp: checked_relative_path_Inr v2_public_path_def)
qed

lemma task_files_admits:
  assumes "v2_public_files paths n fs = Inr ()" "\<forall>f \<in> set fs. nul_free (fld f ''text'')"
  shows "task_files paths n fs = Inr (map public_file_copy fs)"
  using assms
proof (induction fs arbitrary: paths n)
  case (Cons f fs)
  let ?p = "the_Str (fld f ''path'')" and ?n = "n + utf8_size (the_Str (fld f ''text''))"
  have f: "obj f [''path'', ''text'']" "is_Str (fld f ''path'')" "encodable ?p" "utf8_size ?p \<le> 1024" "v2_public_path ?p"
    "\<forall>q \<in> set paths. \<not> path_collides ?p q" "is_Str (fld f ''text'')" "encodable (the_Str (fld f ''text''))"
    "utf8_size (the_Str (fld f ''text'')) \<le> 262144" "?n \<le> 262144" "v2_public_files (?p # paths) ?n fs = Inr ()"
    using Cons.prems(1)
    by (auto simp: Let_def control_object_obj control_scalar_accepts list_ex_iff v2_max_public_path_bytes_def v2_max_public_file_bytes_def)
  have path: "fld f ''path'' = PStr ?p" using f(2) by (cases "fld f ''path''") auto
  have ih: "task_files (?p # paths) ?n fs = Inr (map public_file_copy fs)" using Cons.IH f(11) Cons.prems(2) by simp
  have checks: "task_text (fld f ''text'') 262144 = Inr ()" "policy_object f [''path'', ''text''] l = Inr ()"
    "checked_relative_path (fld f ''path'') l = Inr ?p" for l
    using f Cons.prems(2) public_path_relative(1) [OF f(5,3,4)] path by (simp_all add: task_text_Inr policy_object_obj)
  have free: "?p \<notin> set paths" "list_all (\<lambda>old. \<not> startswith ?p (old @ [slash]) \<and> \<not> startswith old (?p @ [slash])) paths"
    using f(6) by (auto simp: path_collides_def list_all_iff)
  show ?case
    using checks free f(10) ih public_path_relative(2,3) [OF f(5,3,4)] path
    by (simp add: Let_def public_file_copy_def)
qed simp

text \<open>C30 Whatever public task the control codec admits, the hosting layer admits too, unless a text holds
  a NUL character, and it stages exactly the instructions and, in order, the paths and texts that were
  sent.\<close>

theorem public_task_admitted:
  assumes wire: "v2_validate_public_task v = Inr w"
    and nul: "nul_free (fld v ''instructions'')" "\<forall>f \<in> set (the_List (fld v ''files'')). nul_free (fld f ''text'')"
  shows "public_task v = Inr (PDict [(lit ''instructions'', fld v ''instructions''),
    (lit ''files'', PList (map public_file_copy (the_List (fld v ''files''))))])"
proof -
  have v: "obj v [''instructions'', ''files'']" "is_Str (fld v ''instructions'')"
    "encodable (the_Str (fld v ''instructions''))" "utf8_size (the_Str (fld v ''instructions'')) \<le> 65536"
    "is_List (fld v ''files'')" "length (the_List (fld v ''files'')) \<le> 128"
    "v2_public_files [] 0 (the_List (fld v ''files'')) = Inr ()"
    using wire by (auto simp: v2_validate_public_task_def control_object_obj control_scalar_accepts
        v2_max_instruction_bytes_def v2_max_public_files_def)
  then have "policy_object v [''instructions'', ''files''] ''public task'' = Inr ()"
      "task_text (fld v ''instructions'') 65536 = Inr ()"
    using nul(1) by (simp_all add: policy_object_obj task_text_Inr)
  then show ?thesis
    using v(5,6) task_files_admits [OF v(7) nul(2)] by (simp add: public_task_def)
qed

definition sample_task :: pyval where
  "sample_task = PDict [(lit ''files'', PList [PDict [(lit ''text'', pyl ''x''), (lit ''path'', pyl ''src/a'')]]),
     (lit ''instructions'', pyl ''do'')]"

theorem public_task_admitted_witness:
  "public_task sample_task = Inr (PDict [(lit ''instructions'', pyl ''do''),
    (lit ''files'', PList [PDict [(lit ''path'', pyl ''src/a''), (lit ''text'', pyl ''x'')]])])"
proof -
  have "v2_validate_public_task sample_task = Inr sample_task" "nul_free (fld sample_task ''instructions'')"
    "\<forall>f \<in> set (the_List (fld sample_task ''files'')). nul_free (fld f ''text'')" by code_simp+
  from public_task_admitted [OF this] show ?thesis by (simp add: sample_task_def public_file_copy_def)
qed

text \<open>A NUL inside a text is admitted by the codec and refused by the hosting layer.\<close>

lemma nul_text_divergence:
  "v2_validate_public_task (PDict [(lit ''instructions'', PStr [97, 0]), (lit ''files'', PList [])]) =
     Inr (PDict [(lit ''instructions'', PStr [97, 0]), (lit ''files'', PList [])]) \<and>
   public_task (PDict [(lit ''instructions'', PStr [97, 0]), (lit ''files'', PList [])]) =
     Inl (AdmissionError ''public task text exceeds its bound'')"
  by code_simp

section \<open>Approved inputs\<close>

lemma resolve_parts_Inr:
  "resolve_parts h cur parts = Inr p \<Longrightarrow> p = cur @ parts \<and>
     (\<forall>n. 0 < n \<and> n < length parts \<longrightarrow> real_directory h (cur @ take n parts)) \<and>
     (parts \<noteq> [] \<longrightarrow> (\<exists>i. os_lstat h p = Inr i \<and> (s_isdir i \<or> s_isreg i)))"
proof (induction parts arbitrary: cur)
  case (Cons part rest)
  obtain info where info: "os_lstat h (cur @ [part]) = Inr info" "\<not> s_islnk info" "rest = [] \<or> s_isdir info"
    "rest \<noteq> [] \<or> s_isdir info \<or> s_isreg info" "resolve_parts h (cur @ [part]) rest = Inr p"
    using Cons.prems by (auto simp: bindE_eq_Inr)
  note ih = Cons.IH [OF info(5)]
  show ?case
  proof (cases "rest = []")
    case True
    then show ?thesis using info ih by auto
  next
    case False
    have "real_directory h (cur @ take n (part # rest))" if bnd: "0 < n" "n < length (part # rest)" for n
    proof (cases "n = 1")
      case True
      then show ?thesis using info False by (simp add: real_directory_def)
    next
      case n: False
      then obtain m where "n = Suc m" "0 < m" "m < length rest" using bnd by (cases n) auto
      then show ?thesis using ih by simp
    qed
    then show ?thesis using ih False by auto
  qed
qed simp

text \<open>C9 An input resolves only inside the approved root: the principal is allowed to use the root for
  that kind of input, the root directory is still the one the catalog pinned (device and inode), and the
  result is the root followed by plain components (no \<^verbatim>\<open>..\<close>, no separator), where every intermediate
  component is a real directory and the last is a directory or regular file; no symlink is followed.\<close>

theorem resolve_confined:
  assumes "approved_root_resolve h r uid relative kind = Inr p"
  shows "uid \<in> ar_allowed_uids r \<and> kind \<in> ar_kinds r \<and>
    (\<exists>i. os_stat h (ar_path r) = Inr i \<and> (st_dev i, st_ino i) = ar_identity r) \<and>
    (\<exists>cs. p = ar_path r @ cs \<and> list_all plain_component cs \<and>
       (\<forall>n. 0 < n \<and> n < length cs \<longrightarrow> real_directory h (ar_path r @ take n cs)) \<and>
       (cs \<noteq> [] \<longrightarrow> (\<exists>i. os_lstat h p = Inr i \<and> (s_isdir i \<or> s_isreg i))))"
proof -
  obtain rel i where f: "uid \<in> ar_allowed_uids r" "kind \<in> ar_kinds r"
    "checked_relative_path relative ''input relativePath'' = Inr rel" "os_stat h (ar_path r) = Inr i"
    "(st_dev i, st_ino i) = ar_identity r"
    and res: "(if rel = lit ''.'' then Inr (ar_path r) else resolve_parts h (ar_path r) (pp_parts rel)) = Inr p"
    using assms by (auto simp: approved_root_resolve_def bindE_eq_Inr)
  have "\<exists>cs. p = ar_path r @ cs \<and> list_all plain_component cs \<and>
       (\<forall>n. 0 < n \<and> n < length cs \<longrightarrow> real_directory h (ar_path r @ take n cs)) \<and>
       (cs \<noteq> [] \<longrightarrow> (\<exists>i. os_lstat h p = Inr i \<and> (s_isdir i \<or> s_isreg i)))"
  proof (cases "rel = lit ''.''")
    case True
    then show ?thesis using res by (intro exI [of _ "[]"]) simp
  next
    case False
    have rel: "list_all plain_component (psplit slash rel)" "\<not> startswith rel [slash]"
      using f(3) False by (auto simp: checked_relative_path_Inr)
    then have "pp_parts rel = psplit slash rel"
      using pp_absolute_iff [of rel]
      by (auto simp: pp_parts_def pp_absolute_def pp_tail_def filter_id_conv list_all_iff plain_component_def)
    then show ?thesis using res False rel(1) resolve_parts_Inr [of h "ar_path r" "psplit slash rel" p]
      by (intro exI [of _ "psplit slash rel"]) auto
  qed
  then show ?thesis using f by blast
qed

definition sample_root :: approved_root where
  "sample_root = \<lparr>ar_id = lit ''submission'', ar_path = [[slash], lit ''srv''], ar_kinds = {lit ''source''},
     ar_allowed_uids = {1000}, ar_identity = (1, 2), ar_source_view = None\<rparr>"

theorem resolve_confined_witness:
  "approved_root_resolve all_dirs sample_root 1000 (pyl ''a/b'') (lit ''source'') =
     Inr [[slash], lit ''srv'', lit ''a'', lit ''b''] \<and>
   (\<exists>cs. [[slash], lit ''srv'', lit ''a'', lit ''b''] = ar_path sample_root @ cs \<and> list_all plain_component cs)"
proof -
  have "approved_root_resolve all_dirs sample_root 1000 (pyl ''a/b'') (lit ''source'') =
     Inr [[slash], lit ''srv'', lit ''a'', lit ''b'']" by code_simp
  with resolve_confined [OF this] show ?thesis by blast
qed

section \<open>Catalogs\<close>

lemma policy_unique_Inr:
  "policy_unique key l acc xs = Inr out \<Longrightarrow> distinct (map fst acc) \<Longrightarrow>
     out = acc @ map (\<lambda>x. (key x, x)) xs \<and> distinct (map fst out)"
proof (induction xs arbitrary: acc)
  case (Cons x xs)
  have "policy_unique key l (acc @ [(key x, x)]) xs = Inr out" "key x \<notin> set (map fst acc)"
    using Cons.prems(1) by (auto split: if_splits)
  then have "out = (acc @ [(key x, x)]) @ map (\<lambda>x. (key x, x)) xs \<and> distinct (map fst out)"
    using Cons.prems(2) by (intro Cons.IH) simp_all
  then show ?case unfolding append_assoc append_Cons append_Nil list.map .
qed simp

lemma parsed_unique_Inr:
  assumes "parsed_unique parse key l v al ne = Inr out"
  shows "distinct (map fst out) \<and> (\<forall>(k, x) \<in> set out. k = key x \<and> (\<exists>y \<in> set (the_List v). parse y = Inr x)) \<and>
    length out = length (the_List v) \<and> (ne \<longrightarrow> out \<noteq> [])"
proof -
  obtain xs where xs: "policy_array v al ne = Inr (the_List v)" "mapE parse (the_List v) = Inr xs" "policy_unique key l [] xs = Inr out"
    using assms by (auto simp: parsed_unique_def bindE_eq_Inr policy_array_def split: if_splits)
  have out: "out = map (\<lambda>x. (key x, x)) xs" "distinct (map fst out)" using policy_unique_Inr [OF xs(3)] by auto
  have "length xs = length (the_List v)" using xs(2) by (auto simp: mapE_Inr_iff dest: list_all2_lengthD)
  moreover have "ne \<longrightarrow> the_List v \<noteq> []" using xs(1) by (auto simp: policy_array_def split: if_splits)
  ultimately show ?thesis using out mapE_mem [OF xs(2)] by auto
qed

lemma profile_references_Inr:
  "profile_references profiles v = Inr ids \<Longrightarrow> set ids \<subseteq> set (map fst profiles)"
  by (auto simp: profile_references_def bindE_eq_Inr list_all_iff)

lemma policy_hosted_ids:
  "policy_v2 h profiles v = Inr p \<Longrightarrow> set (cp_agent_profile_ids p) \<subseteq> set (map fst profiles)"
  "policy_v3 h profiles v = Inr p \<Longrightarrow> set (cp_agent_profile_ids p) \<subseteq> set (map fst profiles)"
  using profile_references_Inr [of profiles] by (fastforce simp: policy_v2_def policy_v3_def bindE_eq_Inr)+

definition catalog_ok :: "policy_catalog \<Rightarrow> bool" where
  "catalog_ok cat \<longleftrightarrow> cat_policies cat \<noteq> [] \<and> distinct (map fst (cat_policies cat)) \<and> distinct (map fst (cat_agent_profiles cat)) \<and>
     (\<forall>(k, p) \<in> set (cat_policies cat). k = cp_id p \<and> set (cp_agent_profile_ids p) \<subseteq> set (map fst (cat_agent_profiles cat))) \<and>
     (\<forall>(k, a) \<in> set (cat_agent_profiles cat). k = ap_id a)"

lemma hosted_catalog_ok:
  assumes "hosted_catalog parse l v = Inr cat"
    and ids: "\<And>profiles y p. parse profiles y = Inr p \<Longrightarrow> set (cp_agent_profile_ids p) \<subseteq> set (map fst profiles)"
  shows "catalog_ok cat"
proof -
  obtain profiles policies where f:
    "parsed_unique agent_profile_parse ap_id ''agent profile'' (fld v ''agentProfiles'') ''agentProfiles'' False = Inr profiles"
    "parsed_unique (parse profiles) cp_id ''policy'' (fld v ''policies'') ''policies'' True = Inr policies"
    "cat = \<lparr>cat_policies = policies, cat_agent_profiles = profiles\<rparr>"
    using assms(1) by (auto simp: hosted_catalog_def bindE_eq_Inr)
  show ?thesis
    using parsed_unique_Inr [OF f(1)] parsed_unique_Inr [OF f(2)] ids [of profiles] unfolding catalog_ok_def f(3)
    by fastforce
qed

lemma catalog_document_ok:
  assumes "catalog_from_document h v = Inr cat"
  shows "catalog_ok cat"
proof -
  have v1: "parsed_unique (control_policy_parse h False) cp_id l x al True = Inr policies \<Longrightarrow>
      catalog_ok \<lparr>cat_policies = policies, cat_agent_profiles = []\<rparr>" for l x al policies
    using parsed_unique_Inr [of "control_policy_parse h False" cp_id l x al True policies]
    by (fastforce simp: catalog_ok_def control_policy_parse_def bindE_eq_Inr)
  consider "hosted_catalog (policy_v3 h) ''policy catalog v3'' v = Inr cat"
    | "hosted_catalog (policy_v2 h) ''policy catalog v2'' v = Inr cat"
    | policies l x al where "parsed_unique (control_policy_parse h False) cp_id l x al True = Inr policies"
        "cat = \<lparr>cat_policies = policies, cat_agent_profiles = []\<rparr>"
    using assms by (auto simp: catalog_from_document_def bindE_eq_Inr split: if_splits)
  then show ?thesis
  proof cases
    case 1
    then show ?thesis by (rule hosted_catalog_ok) (rule policy_hosted_ids)
  next
    case 2
    then show ?thesis by (rule hosted_catalog_ok) (rule policy_hosted_ids)
  next
    case 3
    then show ?thesis using v1 by simp
  qed
qed

text \<open>C31 In a catalog of any of the three schemas, every policy is selected under its own ID, and asking
  for an agent profile either returns the profile with exactly that ID, which the selected policy approves,
  or is refused with an \<^verbatim>\<open>AdmissionError\<close>: the lookup behind it never fails with a \<^verbatim>\<open>KeyError\<close>.\<close>

theorem agent_profile_total:
  assumes "catalog_from_document h v = Inr cat"
  shows "case catalog_agent_profile cat policy profile of
      Inr a \<Rightarrow> (\<exists>p. catalog_select cat policy = Inr p \<and> policy = PStr (cp_id p) \<and>
        profile = PStr (ap_id a) \<and> ap_id a \<in> set (cp_agent_profile_ids p))
    | Inl e \<Rightarrow> (\<exists>msg. e = AdmissionError msg)"
proof (cases "catalog_select cat policy")
  case (Inl e)
  then have "\<exists>msg. e = AdmissionError msg"
    by (auto simp: catalog_select_def policy_id_def bindE_eq_Inl split: if_splits option.splits)
  then show ?thesis using Inl by (simp add: catalog_agent_profile_def)
next
  case (Inr p)
  have ok: "catalog_ok cat" using assms by (rule catalog_document_ok)
  from Inr have pol: "is_Str policy" "map_of (cat_policies cat) (the_Str policy) = Some p"
    by (auto simp: catalog_select_def policy_id_def bindE_eq_Inr split: if_splits option.splits)
  then have mem: "(the_Str policy, p) \<in> set (cat_policies cat)" by (auto dest: map_of_SomeD)
  then have "the_Str policy = cp_id p" "set (cp_agent_profile_ids p) \<subseteq> set (map fst (cat_agent_profiles cat))"
    using ok by (auto simp: catalog_ok_def)
  then have id: "policy = PStr (cp_id p)" "set (cp_agent_profile_ids p) \<subseteq> set (map fst (cat_agent_profiles cat))"
    using pol(1) by (cases policy; simp)+
  show ?thesis
  proof (cases "is_Str profile \<and> the_Str profile \<in> set (cp_agent_profile_ids p)")
    case True
    then obtain a where a: "map_of (cat_agent_profiles cat) (the_Str profile) = Some a"
      using id(2) by (metis map_of_eq_None_iff not_None_eq set_map subsetD)
    then have "(the_Str profile, a) \<in> set (cat_agent_profiles cat)" by (rule map_of_SomeD)
    then have "the_Str profile = ap_id a" using ok by (auto simp: catalog_ok_def)
    moreover from this have "profile = PStr (ap_id a)" using True by (cases profile) auto
    ultimately show ?thesis using True a Inr id(1) by (simp add: catalog_agent_profile_def)
  next
    case False
    then have "catalog_agent_profile cat policy profile = Inl (AdmissionError ''agent profile is not approved by this policy'')"
      using Inr by (auto simp: catalog_agent_profile_def)
    then show ?thesis by simp
  qed
qed

definition sample_profile :: pyval where
  "sample_profile = PDict [(lit ''id'', pyl ''codex''), (lit ''runtime'', pyl ''codex''), (lit ''executable'', pyl ''/opt/codex''),
     (lit ''version'', pyl ''codex-cli 0.153.4''), (lit ''model'', pyl ''m1''), (lit ''modelCatalog'', pyl ''/etc/m.json''),
     (lit ''credentialFile'', pyl ''/etc/c''), (lit ''auditReceipt'', pyl ''/etc/r''), (lit ''auditMaxAgeSeconds'', PInt 60),
     (lit ''credentialRevision'', pyl ''r1''), (lit ''limits'', PDict agent_limit_ceilings)]"

definition sample_catalog :: pyval where
  "sample_catalog = PDict [(lit ''schema'', pyl hosting_catalog_schema),
     (lit ''policies'', PList [PDict (the_Dict (example_node_policy (lit ''/srv/in'') (lit ''/srv/shim'') (lit ''/opt/node'') 1000
        (lit ''a.mjs'') (lit ''test.node'') (lit ''mirrorgate/node-v1'') (lit ''node-v1'') (lit ''c/v1'')) @
        [(lit ''agentProfileIds'', PList [pyl ''codex''])])]),
     (lit ''agentProfiles'', PList [sample_profile])]"

theorem agent_profile_total_witness:
  "\<exists>cat. catalog_from_document all_dirs sample_catalog = Inr cat \<and>
     (case catalog_agent_profile cat (pyl ''test.node'') (pyl ''codex'') of
        Inr a \<Rightarrow> ap_id a = lit ''codex'' | Inl e \<Rightarrow> \<exists>msg. e = AdmissionError msg)"
proof -
  have "case catalog_from_document all_dirs sample_catalog of Inl _ \<Rightarrow> False | Inr _ \<Rightarrow> True" by code_simp
  then obtain cat where cat: "catalog_from_document all_dirs sample_catalog = Inr cat" by (auto split: sum.splits)
  from agent_profile_total [OF cat, of "pyl ''test.node''" "pyl ''codex''"] cat show ?thesis
    by (auto split: sum.splits)
qed

text \<open>The shared fixture is a valid catalog: its three policies can be selected.\<close>

lemma example_shared_admitted:
  "case example_shared_policy_document (lit ''/srv/in'') (lit ''/srv/shim'') (lit ''/opt/node'') 1000 (lit ''adapter.mjs'')
     (lit ''worker'') True of Inl _ \<Rightarrow> False | Inr d \<Rightarrow>
     (case catalog_from_document all_dirs d of Inl _ \<Rightarrow> False
      | Inr cat \<Rightarrow> list_all (\<lambda>n. case catalog_select cat (pyl n) of Inr p \<Rightarrow> cp_id p = lit n | Inl _ \<Rightarrow> False)
          [''test.node'', ''test.rust'', ''test.rust-faulty''])"
  by code_simp

lemma runtime_mounts_Inr:
  assumes "runtime_mounts_parse h v = Inr mounts"
  shows "distinct (map m_destination mounts) \<and> lit ''/usr'' \<in> set (map m_destination mounts) \<and>
    (\<forall>m \<in> set mounts. m_source m \<notin> set broad_mount_roots)"
proof -
  obtain raw where m: "mapE (runtime_mount_item h) raw = Inr mounts" "distinct (map m_destination mounts)"
    "lit ''/usr'' \<in> set (map m_destination mounts)"
    using assms by (auto simp: runtime_mounts_parse_def bindE_eq_Inr)
  have "m_source x \<notin> set broad_mount_roots" if x: "x \<in> set mounts" for x
  proof -
    obtain y where "runtime_mount_item h y = Inr x" using mapE_mem [OF m(1) x] by blast
    then have "runtime_mount_checked h (fld y ''source'') (fld y ''destination'') = Inr x"
      by (auto simp: runtime_mount_item_def bindE_eq_Inr)
    then show ?thesis by (rule runtime_mount_Inr(3))
  qed
  with m(2,3) show ?thesis by blast
qed

lemma policy_command_Inr: "policy_command v l = Inr command \<Longrightarrow> command \<noteq> [] \<and> pp_absolute (hd command)"
  by (auto simp: policy_command_def bindE_eq_Inr policy_array_def hd_map split: if_splits)

lemma runtime_launch_Inr:
  assumes "runtime_launch h node raw = Inr (command, entry, shim)"
  shows "command \<noteq> [] \<and> pp_absolute (hd command) \<and> manifest_mount \<in> set command \<and>
    (if node then artifact_sandbox_path entry \<in> set command \<and> \<not> startswith (hd command) (lit ''/artifact'') \<and>
       (\<exists>s. shim = Some s \<and> 2 \<le> length command \<and> command ! 1 = node_shim_mount @ ns_worker_path s)
     else hd command = artifact_sandbox_path entry \<and> shim = None)"
proof -
  obtain command' where c: "policy_command (fld raw ''command'') ''runtime command'' = Inr command'" "command' = command"
    using assms by (auto simp: runtime_launch_def bindE_eq_Inr split: if_splits)
  show ?thesis
    using assms policy_command_Inr [OF c(1)] c by (cases node) (auto simp: runtime_launch_def bindE_eq_Inr)
qed



end
