(* ===== verification/JsonAscii.thy ===== *)
theory JsonAscii
  imports JsonPlain PortCodec "HOL-Library.List_Lexorder" "HOL-Library.Multiset"
begin

text \<open>
  \<^verbatim>\<open>json.dumps(value, ensure_ascii=True, sort_keys=True, separators=(",", ":"))\<close>, the canonical form
  that journal records, receipts and audit identities are hashed over, and \<^verbatim>\<open>json.loads\<close> on bytes, which
  guesses the encoding.  \<open>plain_codec\<close> shows that the plain hooks satisfy \<open>json_codec\<close> with the escaped
  spelling, so canonical text reads back as the value with its keys sorted.
\<close>

definition u_escape :: "nat \<Rightarrow> pystr" where
  "u_escape u = [92, 117, hexdig (u div 4096), hexdig (u div 256 mod 16), hexdig (u div 16 mod 16), hexdig (u mod 16)]"

definition ascii_char :: "nat \<Rightarrow> pystr" where
  "ascii_char c =
     (if c < 127 then jprint_char c
      else if c < 65536 then u_escape c
      else u_escape (55296 + (c - 65536) div 1024) @ u_escape (56320 + (c - 65536) mod 1024))"

text \<open>A dict with its items in key order, at every level.\<close>

fun sort_keys :: "pyval \<Rightarrow> pyval" where
  "sort_keys (PList xs) = PList (map sort_keys xs)"
| "sort_keys (PDict d) = PDict (sort_key fst (map (\<lambda>(k, v). (k, sort_keys v)) d))"
| "sort_keys v = v"

definition canonical_text :: "pyval \<Rightarrow> pystr" where
  "canonical_text v = json_print ascii_char (sort_keys v)"

text \<open>
  \<^verbatim>\<open>json.dumps\<close> itself: an integer of more than 4300 digits is the interpreter's \<^verbatim>\<open>ValueError\<close>.  Nesting
  beyond the interpreter's recursion limit is left out: the values written here are a few levels deep.
\<close>

definition plain_int :: "int \<Rightarrow> bool" where
  "plain_int i \<longleftrightarrow> length (print_nat (nat \<bar>i\<bar>)) \<le> 4300"

fun jints :: "(int \<Rightarrow> bool) \<Rightarrow> pyval \<Rightarrow> bool" where
  "jints ok (PInt i) = ok i"
| "jints ok (PList xs) = list_all (jints ok) xs"
| "jints ok (PDict d) = list_all (\<lambda>(k, v). jints ok v) d"
| "jints ok _ = True"

definition dumps_canonical :: "pyval \<Rightarrow> bytes res" where
  "dumps_canonical v =
     (if jints plain_int v then Inr (canonical_text v) else Inl (PyValueError ''integer string conversion limit''))"

section \<open>Reading bytes\<close>

text \<open>UTF-8 decoding with \<^verbatim>\<open>surrogatepass\<close>, and the UTF-16 and UTF-32 decoders \<^verbatim>\<open>json.detect_encoding\<close> may pick.\<close>

fun utf8_decode_pass :: "bytes \<Rightarrow> pystr option" where
  "utf8_decode_pass [] = Some []"
| "utf8_decode_pass (b # bs) =
     (if b < 128 then map_option (Cons b) (utf8_decode_pass bs)
      else if 194 \<le> b \<and> b < 224 then
        (case bs of
           c1 # r \<Rightarrow>
             if utf8_cont c1 then map_option (Cons ((b - 192) * 64 + (c1 - 128))) (utf8_decode_pass r)
             else None
         | _ \<Rightarrow> None)
      else if 224 \<le> b \<and> b < 240 then
        (case bs of
           c1 # c2 # r \<Rightarrow>
             let c = (b - 224) * 4096 + (c1 - 128) * 64 + (c2 - 128) in
             if utf8_cont c1 \<and> utf8_cont c2 \<and> 2048 \<le> c then map_option (Cons c) (utf8_decode_pass r) else None
         | _ \<Rightarrow> None)
      else if 240 \<le> b \<and> b < 245 then
        (case bs of
           c1 # c2 # c3 # r \<Rightarrow>
             let c = (b - 240) * 262144 + (c1 - 128) * 4096 + (c2 - 128) * 64 + (c3 - 128) in
             if utf8_cont c1 \<and> utf8_cont c2 \<and> utf8_cont c3 \<and> 65536 \<le> c \<and> c < 1114112
             then map_option (Cons c) (utf8_decode_pass r) else None
         | _ \<Rightarrow> None)
      else None)"

fun utf16_units :: "bool \<Rightarrow> bytes \<Rightarrow> nat list option" where
  "utf16_units le [] = Some []"
| "utf16_units le (a # b # r) = map_option (Cons (if le then b * 256 + a else a * 256 + b)) (utf16_units le r)"
| "utf16_units le [a] = None"

fun utf16_pairs :: "nat list \<Rightarrow> pystr" where
  "utf16_pairs (u # l # r) =
     (if 55296 \<le> u \<and> u < 56320 \<and> 56320 \<le> l \<and> l < 57344
      then (65536 + (u - 55296) * 1024 + (l - 56320)) # utf16_pairs r else u # utf16_pairs (l # r))"
| "utf16_pairs us = us"

definition utf16_decode :: "bool \<Rightarrow> bytes \<Rightarrow> pystr option" where
  "utf16_decode le bs = map_option utf16_pairs (utf16_units le bs)"

fun utf32_decode :: "bool \<Rightarrow> bytes \<Rightarrow> pystr option" where
  "utf32_decode le [] = Some []"
| "utf32_decode le (a # b # c # d # r) =
     (let u = (if le then ((d * 256 + c) * 256 + b) * 256 + a else ((a * 256 + b) * 256 + c) * 256 + d) in
      if u < 1114112 then map_option (Cons u) (utf32_decode le r) else None)"
| "utf32_decode le _ = None"

text \<open>\<^verbatim>\<open>data.decode(json.detect_encoding(data), "surrogatepass")\<close>\<close>

definition decode_detected :: "bytes \<Rightarrow> pystr option" where
  "decode_detected b =
     (if startswith b [0, 0, 254, 255] then utf32_decode False (drop 4 b)
      else if startswith b [255, 254, 0, 0] then utf32_decode True (drop 4 b)
      else if startswith b [254, 255] then utf16_decode False (drop 2 b)
      else if startswith b [255, 254] then utf16_decode True (drop 2 b)
      else if startswith b [239, 187, 191] then utf8_decode_pass (drop 3 b)
      else if 4 \<le> length b \<and> b ! 0 = 0 then (if b ! 1 \<noteq> 0 then utf16_decode False b else utf32_decode False b)
      else if 4 \<le> length b \<and> b ! 1 = 0 then
        (if b ! 2 \<noteq> 0 \<or> b ! 3 \<noteq> 0 then utf16_decode True b else utf32_decode True b)
      else if length b = 2 \<and> b ! 0 = 0 then utf16_decode False b
      else if length b = 2 \<and> b ! 1 = 0 then utf16_decode True b
      else utf8_decode_pass b)"

definition json_loads_bytes :: "pyexc \<Rightarrow> nat \<Rightarrow> bytes \<Rightarrow> pyval res" where
  "json_loads_bytes dup lim data =
     (case decode_detected data of
        None \<Rightarrow> Inl PyUnicodeError
      | Some text \<Rightarrow> json_loads plain_number (\<lambda>w. Inr (PFloat (lit w))) (hook_pairs dup) lim text)"

section \<open>Canonical text reads back\<close>

definition scalar_char :: "nat \<Rightarrow> bool" where
  "scalar_char c \<longleftrightarrow> c < 1114112 \<and> \<not> is_surrogate c"

lemma hex4_u_escape:
  assumes "u < 65536"
  shows "hex4 (drop 2 (u_escape u) @ s) = Some (u, s)"
proof -
  have "u div 4096 < 16" using assms by auto
  moreover have "u div 4096 * 4096 + u div 256 mod 16 * 256 + u div 16 mod 16 * 16 + u mod 16 = u"
  proof -
    have "u div 4096 * 16 + u div 256 mod 16 = u div 256"
      using div_mult_mod_eq [of "u div 256" 16] by (simp add: div_mult2_eq [symmetric])
    moreover have "u div 256 * 16 + u div 16 mod 16 = u div 16"
      using div_mult_mod_eq [of "u div 16" 16] by (simp add: div_mult2_eq [symmetric])
    moreover have "u div 16 * 16 + u mod 16 = u" by simp
    ultimately show ?thesis by linarith
  qed
  ultimately show ?thesis by (simp add: u_escape_def hexval_hexdig)
qed


lemma jchars_u_escape:
  assumes "u < 65536" "\<not> is_surrogate u"
  shows "jchars (u_escape u @ s) = consR u (jchars s)"
proof -
  obtain t where t: "u_escape u = 92 # 117 # t" "drop 2 (u_escape u) = t" by (simp add: u_escape_def)
  have "hex4 (t @ s) = Some (u, s)" using hex4_u_escape [OF assms(1), of s] t by simp
  then show ?thesis using assms(2) by (auto simp: t(1) is_surrogate_def)
qed

lemma jchars_u_pair:
  assumes "65536 \<le> c" "c < 1114112"
  shows "jchars (u_escape (55296 + (c - 65536) div 1024) @ u_escape (56320 + (c - 65536) mod 1024) @ s) = consR c (jchars s)"
proof -
  let ?h = "55296 + (c - 65536) div 1024" and ?l = "56320 + (c - 65536) mod 1024"
  have h: "?h < 56320" using assms by (simp add: less_mult_imp_div_less)
  have l: "?l < 57344" by simp
  obtain t where t: "u_escape ?h = 92 # 117 # t" "drop 2 (u_escape ?h) = t" by (simp add: u_escape_def)
  obtain t' where t': "u_escape ?l = 92 # 117 # t'" "drop 2 (u_escape ?l) = t'" by (simp add: u_escape_def)
  have "hex4 (t @ u_escape ?l @ s) = Some (?h, u_escape ?l @ s)"
    using hex4_u_escape [of ?h "u_escape ?l @ s"] h t by simp
  moreover have "low_half (u_escape ?l @ s) = Some (?l, s)"
    using hex4_u_escape [of ?l s] l t' by simp
  moreover have "65536 + (?h - 55296) * 1024 + (?l - 56320) = c" using assms by simp
  ultimately show ?thesis using h by (simp add: t(1))
qed

lemma jchars_ascii_char: "scalar_char c \<Longrightarrow> jchars (ascii_char c @ s) = consR c (jchars s)"
  unfolding ascii_char_def scalar_char_def
  using jchars_print_char [of c s] jchars_u_escape [of c s] jchars_u_pair [of c s] by simp

lemma plain_number_int: "plain_int i \<Longrightarrow> plain_number False (print_int i) = Inr (PInt i)"
proof -
  assume i: "plain_int i"
  have "print_nat n \<noteq> [] \<and> hd (print_nat n) \<noteq> 45" for n
    using print_nat_digits [of n] by (cases "print_nat n") (auto simp: is_digit_def)
  then show ?thesis using i
    by (auto simp: plain_number_def plain_int_def print_int_def Let_def)
qed

lemma hook_pairs_from_distinct:
  "distinct (map fst (v @ kvs)) \<Longrightarrow> hook_pairs_from e v kvs = Inr (PDict (v @ kvs))"
proof (induction kvs arbitrary: v)
  case (Cons kv kvs)
  obtain k x where kv: "kv = (k, x)" by (cases kv)
  have "dset v k x = v @ [(k, x)]" using Cons.prems by (intro dset_fresh) (auto simp: kv)
  then show ?case using Cons by (auto simp: kv)
qed simp

lemma hook_pairs_from_fuel: "e \<noteq> OutOfFuel \<Longrightarrow> hook_pairs_from e v kvs \<noteq> Inl OutOfFuel"
  by (induction e v kvs rule: hook_pairs_from.induct) auto

lemma plain_codec:
  assumes "dup \<noteq> OutOfFuel" "\<And>w. const w \<noteq> Inl OutOfFuel"
  shows "json_codec plain_number const (hook_pairs dup) plain_int ascii_char scalar_char"
  using assms
  by unfold_locales
    (simp_all add: jchars_ascii_char plain_number_int hook_pairs_def hook_pairs_from_distinct hook_pairs_from_fuel,
     simp add: plain_number_def Let_def)


section \<open>Key order\<close>

lemma sort_keys_cases [simp]:
  "is_Dict (sort_keys v) \<longleftrightarrow> is_Dict v" "is_List (sort_keys v) \<longleftrightarrow> is_List v" "is_Float (sort_keys v) \<longleftrightarrow> is_Float v"
  by (cases v; simp)+

abbreviation sort_items :: "(pystr \<times> pyval) list \<Rightarrow> (pystr \<times> pyval) list" where
  "sort_items d \<equiv> sort_key fst (map (\<lambda>(k, v). (k, sort_keys v)) d)"

lemma fst_sort_items: "mset (map fst (sort_items d)) = mset (map fst d)"
  by (simp add: image_mset.compositionality comp_def case_prod_unfold)

lemma distinct_sort_items [simp]: "distinct (map fst (sort_items d)) \<longleftrightarrow> distinct (map fst d)"
  using fst_sort_items [of d] by (rule mset_eq_imp_distinct_iff)

lemma set_sort_items: "set (sort_items d) = (\<lambda>(k, v). (k, sort_keys v)) ` set d"
  by simp

lemma map_of_sort_items:
  assumes "distinct (map fst d)"
  shows "map_of (sort_items d) k = map_option sort_keys (map_of d k)"
proof -
  let ?m = "map (\<lambda>(k, v). (k, sort_keys v)) d"
  have "distinct (map fst ?m)" using assms by (simp add: comp_def case_prod_unfold)
  moreover have "distinct (map fst (sort_items d))" using assms by (simp only: distinct_sort_items)
  ultimately have "map_of (sort_items d) = map_of ?m" by (subst map_of_inject_set) simp_all
  then show ?thesis by (simp add: map_of_map)
qed

lemma keys_sort_keys [simp]: "set (keys (sort_keys v)) = set (keys v)"
  by (cases v) (auto simp: image_image case_prod_unfold)

lemma fld_sort_keys: "is_Dict v \<Longrightarrow> distinct (keys v) \<Longrightarrow> fld (sort_keys v) k = sort_keys (fld v k)"
  using map_of_sort_items [of "the_Dict v" "lit k"] by (cases v) (auto simp: fld_def split: option.splits)

lemma maxl_set: "set xs = set ys \<Longrightarrow> maxl xs = maxl ys"
  by (rule antisym) (simp_all add: maxl_le_iff maxl_ge_mem)

lemma jdepth_sort_keys [simp]: "jdepth (sort_keys v) = jdepth v"
proof (induction v rule: pyval_induct)
  case (PList xs)
  then show ?case by (simp add: comp_def cong: map_cong)
next
  case (PDict d)
  have "maxl (map (\<lambda>kv. jdepth (snd kv)) (sort_items d)) = maxl (map (\<lambda>kv. jdepth (snd kv)) d)"
    by (rule maxl_set) (use PDict in \<open>force simp: image_iff case_prod_unfold\<close>)
  then show ?case by simp
qed auto

lemma jprintable_sort_keys [simp]: "jprintable ok (sort_keys v) \<longleftrightarrow> jprintable ok v"
proof (induction v rule: pyval_induct)
  case (PDict d)
  have "distinct (map fst (sort_items d)) \<longleftrightarrow> distinct (map fst d)" by (rule distinct_sort_items)
  with PDict show ?case by (auto simp del: distinct_sort_items simp: case_prod_unfold)
qed auto

lemma jstrings_sort_keys [simp]: "jstrings chr (sort_keys v) \<longleftrightarrow> jstrings chr v"
  by (induction v rule: pyval_induct) (auto simp: case_prod_unfold)

section \<open>Canonical text\<close>

lemma hexdig_ascii: "d < 16 \<Longrightarrow> hexdig d < 128"
  by (simp add: hexdig_def)

lemma ascii_char_ascii: "scalar_char c \<Longrightarrow> b \<in> set (ascii_char c) \<Longrightarrow> b < 128"
  by (auto simp: ascii_char_def u_escape_def jprint_char_def scalar_char_def hexdig_ascii less_mult_imp_div_less split: if_splits)

lemma jprint_with_ascii: "list_all scalar_char s \<Longrightarrow> b \<in> set (jprint_with ascii_char s) \<Longrightarrow> b < 128"
  by (auto simp: jprint_with_def list_all_iff dest: ascii_char_ascii)

lemma json_print_ascii:
  "jprintable ok v \<Longrightarrow> jstrings scalar_char v \<Longrightarrow> b \<in> set (json_print ascii_char v) \<Longrightarrow> b < 128"
proof (induction v arbitrary: b rule: pyval_induct)
  case (PInt i)
  then show ?case using print_nat_digits by (fastforce simp: print_int_def list_all_iff is_digit_def split: if_splits)
next
  case (PList xs)
  then show ?case using set_pjoin [of 44 "map (json_print ascii_char) xs"] by auto
next
  case (PDict d)
  let ?ps = "map (\<lambda>(k, v). jprint_with ascii_char k @ [58] @ json_print ascii_char v) d"
  have part: "\<forall>p \<in> set ?ps. \<forall>c \<in> set p. c < 128"
  proof (intro ballI)
    fix p c assume "p \<in> set ?ps" and c: "c \<in> set p"
    then obtain kv where kv: "kv \<in> set d" "p = jprint_with ascii_char (fst kv) @ [58] @ json_print ascii_char (snd kv)" by auto
    have "list_all scalar_char (fst kv)" "jprintable ok (snd kv)" "jstrings scalar_char (snd kv)" using PDict.prems kv by auto
    then show "c < 128" using jprint_with_ascii [of "fst kv" c] PDict.IH [OF kv(1), of c] c kv(2) by auto
  qed
  have "b \<in> {123, 125, 44} \<or> (\<exists>p \<in> set ?ps. b \<in> set p)"
    using PDict.prems(3) set_pjoin [of 44 ?ps] by auto
  then show ?case using part by auto
qed (auto simp: lit_def jprint_with_def list_all_iff dest: ascii_char_ascii split: if_splits)

lemma jprintable_jints: "jprintable ok v \<Longrightarrow> jints ok v"
  by (induction v rule: pyval_induct) (auto simp: list_all_iff)

lemma utf8_decode_pass_ascii: "(\<And>b. b \<in> set bs \<Longrightarrow> b < 128) \<Longrightarrow> utf8_decode_pass bs = Some bs"
  by (induction bs) auto

lemma json_print_dict:
  "is_Dict v \<Longrightarrow> \<exists>c t. json_print pc v = 123 # c # t \<and> (c = 34 \<or> c = 125)"
proof (cases v)
  case (PDict d)
  then show ?thesis by (cases d; cases "tl d") (auto simp: jprint_with_def)
qed auto

lemma decode_detected_ascii:
  assumes "\<And>b. b \<in> set (123 # c # t) \<Longrightarrow> b < 128" "c = 34 \<or> c = 125"
  shows "decode_detected (123 # c # t) = Some (123 # c # t)"
  using assms utf8_decode_pass_ascii [of "123 # c # t"] by (auto simp: decode_detected_def startswith_def)

lemma canonical_loads:
  assumes "is_Dict v" "jprintable plain_int v" "jstrings scalar_char v" "jdepth v \<le> lim" "dup \<noteq> OutOfFuel" "r = [] \<or> r = [10]"
  shows "json_loads_bytes dup lim (canonical_text v @ r) = Inr (sort_keys v)"
proof -
  have "is_Dict (sort_keys v)" using assms(1) by simp
  then obtain c t where t: "canonical_text v = 123 # c # t" "c = 34 \<or> c = 125"
    using json_print_dict [of "sort_keys v" ascii_char] by (auto simp: canonical_text_def)
  have "b < 128" if "b \<in> set (canonical_text v @ r)" for b
    using that assms(6) json_print_ascii [of plain_int "sort_keys v" b] assms(2,3) by (auto simp: canonical_text_def)
  then have "decode_detected (canonical_text v @ r) = Some (canonical_text v @ r)"
    using decode_detected_ascii [of c "t @ r"] t by simp
  then show ?thesis
    using json_codec.loads_dumps_line [OF plain_codec, of dup "\<lambda>w. Inr (PFloat (lit w))" "sort_keys v" lim r] assms
    by (simp add: json_loads_bytes_def canonical_text_def)
qed

end
