(* ===== verification/RecoveryReceipt.thy ===== *)
theory RecoveryReceipt
  imports Policy JsonAscii
begin

text \<open>
  Recovery receipts (\<^verbatim>\<open>supervisor/mirrorgate/recovery_receipt.py\<close>): the closed private record of a
  recovery attempt, its digest, and the allowlisted public projection.  Every check returns the copy that
  the source builds, so that what a receipt holds is exactly what was validated.
\<close>

definition receipt_schema :: string where "receipt_schema = ''mirrorgate.recovery-receipt/v1''"
definition receipt_public_schema :: string where "receipt_public_schema = ''mirrorgate.recovery-public/v1''"
definition receipt_results_set :: "string list" where
  "receipt_results_set = [''reclaimed'', ''failed'', ''ambiguous'', ''retained'', ''unconfirmed'']"
definition receipt_behaviors :: "string list" where
  "receipt_behaviors = [''passed'', ''failed'', ''inconclusive'', ''not_run'']"
definition receipt_cleanups :: "string list" where
  "receipt_cleanups = [''confirmed'', ''failed'', ''unconfirmed'', ''not_applicable'']"
definition cgroup_kinds :: "string list" where "cgroup_kinds = [''cgroup'', ''cgroup-v2'']"
definition cgroup_settings :: "string list" where
  "cgroup_settings = [''pids.max'', ''memory.max'', ''memory.swap.max'', ''cpu.max'']"
definition cgroup_counters :: "string list" where
  "cgroup_counters = [''pids.current'', ''pids.events'', ''memory.current'', ''memory.peak'', ''memory.events'', ''cpu.stat'',
     ''cgroup.events'']"
definition receipt_payload_fields :: "string list" where
  "receipt_payload_fields = [''schema'', ''attemptId'', ''trigger'', ''original'', ''journalSchema'', ''controllerInstance'',
     ''bootId'', ''principalUid'', ''ownershipObservations'', ''cgroupObservations'', ''remainingResources'', ''results'',
     ''cleanup'']"

text \<open>\<^verbatim>\<open>value in {...}\<close> for a set of strings: an unhashable value is a \<^verbatim>\<open>TypeError\<close>.\<close>

definition in_setE :: "pyval \<Rightarrow> string list \<Rightarrow> pyexc \<Rightarrow> unit res" where
  "in_setE v ks e = (if hashable v then guardE (v \<in> set (map pyl ks)) e else Inl PyTypeError)"

text \<open>\<^verbatim>\<open>[A-Za-z0-9][A-Za-z0-9._-]{0,127}\Z\<close>\<close>

definition re_receipt_id :: "pystr \<Rightarrow> bool" where
  "re_receipt_id s = (case s of [] \<Rightarrow> False | c # cs \<Rightarrow> is_alnum c \<and> length cs \<le> 127 \<and> list_all is_idchar cs)"

definition receipt_id :: "pyval \<Rightarrow> string \<Rightarrow> pyval res" where
  "receipt_id v label = (if is_Str v \<and> re_receipt_id (the_Str v) then Inr v else Inl (AdmissionError (''invalid '' @ label)))"

definition exact_fields :: "pyval \<Rightarrow> string list \<Rightarrow> bool" where
  "exact_fields v ks \<longleftrightarrow> is_Dict v \<and> set (keys v) = names ks"

definition receipt_original :: "pyval \<Rightarrow> pyval res" where
  "receipt_original v =
     (if v = PNone then Inr PNone
      else
        bindE (guardE (exact_fields v [''runRef'', ''behavior'', ''cleanup''])
          (AdmissionError ''original result reference is not closed'')) (\<lambda>_.
        let run_ref = fld v ''runRef''; envelope = fld run_ref ''envelopeSha256'' in
        bindE (seqE
          [guardE (exact_fields run_ref [''schemaVersion'', ''runId'', ''envelopeSha256'', ''projectionKind''])
             (AdmissionError ''runRef is not closed''),
           guardE (fld run_ref ''schemaVersion'' = pyl ''mirrors.evidence-envelope/v1.0'' \<and>
                   fld run_ref ''projectionKind'' = pyl ''private'')
             (AdmissionError ''runRef schema/projection mismatch'')]) (\<lambda>_.
        bindE (receipt_id (fld run_ref ''runId'') ''runId'') (\<lambda>run_id.
        bindE (seqE
          [guardE (is_Str envelope \<and> re_hex 64 (the_Str envelope)) (AdmissionError ''invalid envelope hash''),
           in_setE (fld v ''behavior'') receipt_behaviors (AdmissionError ''invalid original outcome''),
           in_setE (fld v ''cleanup'') receipt_cleanups (AdmissionError ''invalid original outcome'')]) (\<lambda>_.
        Inr (PDict
          [(lit ''runRef'', PDict [(lit ''schemaVersion'', fld run_ref ''schemaVersion''), (lit ''runId'', run_id),
              (lit ''envelopeSha256'', envelope), (lit ''projectionKind'', fld run_ref ''projectionKind'')]),
           (lit ''behavior'', fld v ''behavior''), (lit ''cleanup'', fld v ''cleanup'')]))))))"

text \<open>The loop of \<^verbatim>\<open>_results\<close> and \<^verbatim>\<open>_cgroup_observations\<close>: check an item against the identifiers seen so far, keep its
  copy, and add the identifier.\<close>

fun checked_loop :: "(pyval set \<Rightarrow> pyval \<Rightarrow> pyval res) \<Rightarrow> pyval set \<Rightarrow> pyval list \<Rightarrow> (pyval set \<times> pyval list) res" where
  "checked_loop f seen [] = Inr (seen, [])"
| "checked_loop f seen (item # items) =
     bindE (f seen item) (\<lambda>checked.
     bindE (checked_loop f (insert (fld checked ''resourceId'') seen) items) (\<lambda>(seen', rest).
     Inr (seen', checked # rest)))"

definition receipt_result :: "pyval set \<Rightarrow> pyval \<Rightarrow> pyval res" where
  "receipt_result seen item =
     bindE (guardE (exact_fields item [''resourceId'', ''sessionId'', ''kind'', ''result'', ''reasonCode''])
       (AdmissionError ''recovery result fields are not closed'')) (\<lambda>_.
     bindE (receipt_id (fld item ''resourceId'') ''resourceId'') (\<lambda>resource.
     bindE (seqE
       [guardE (resource \<notin> seen) (AdmissionError ''duplicate recovery result''),
        in_setE (fld item ''result'') receipt_results_set (AdmissionError ''invalid recovery result'')]) (\<lambda>_.
     bindE (if fld item ''reasonCode'' = PNone then Inr PNone else receipt_id (fld item ''reasonCode'') ''reasonCode'') (\<lambda>reason.
     bindE (receipt_id (fld item ''sessionId'') ''sessionId'') (\<lambda>session.
     bindE (receipt_id (fld item ''kind'') ''kind'') (\<lambda>kind.
     Inr (PDict [(lit ''resourceId'', resource), (lit ''sessionId'', session), (lit ''kind'', kind),
            (lit ''result'', fld item ''result''), (lit ''reasonCode'', reason)])))))))"

definition receipt_results :: "pyval \<Rightarrow> pyval list res" where
  "receipt_results v = bindE (guardE (is_List v \<and> length (the_List v) \<le> 4096) (AdmissionError ''invalid recovery results'')) (\<lambda>_.
     bindE (checked_loop receipt_result {} (the_List v)) (\<lambda>(seen, checked). Inr checked))"

definition receipt_string_map :: "pyval \<Rightarrow> string list option \<Rightarrow> string list option \<Rightarrow> string \<Rightarrow> pyval res" where
  "receipt_string_map v exact allowed label =
     (let e = AdmissionError (''invalid '' @ label) in retE
       [guardE (is_Dict v) e,
        guardE ((case exact of None \<Rightarrow> True | Some ks \<Rightarrow> set (keys v) = names ks) \<and>
                (case allowed of None \<Rightarrow> True | Some ks \<Rightarrow> set (keys v) \<subseteq> names ks)) e,
        guardE (list_all (\<lambda>(k, x). x = PNone \<or> is_Str x) (the_Dict v)) e] v)"

text \<open>\<^verbatim>\<open>str.splitlines\<close>\<close>

definition is_linebreak :: "nat \<Rightarrow> bool" where
  "is_linebreak c \<longleftrightarrow> c \<in> {10, 11, 12, 13, 28, 29, 30, 133, 8232, 8233}"

fun splitlines_acc :: "pystr \<Rightarrow> pystr \<Rightarrow> pystr list" where
  "splitlines_acc acc [] = (if acc = [] then [] else [rev acc])"
| "splitlines_acc acc (c # s) =
     (if is_linebreak c then rev acc # (if c = 13 \<and> s \<noteq> [] \<and> hd s = 10 then splitlines_acc [] (tl s) else splitlines_acc [] s)
      else splitlines_acc (c # acc) s)"

definition splitlines :: "pystr \<Rightarrow> pystr list" where
  "splitlines s = splitlines_acc [] s"

definition quiescent :: "pyval \<Rightarrow> bool" where
  "quiescent counters \<longleftrightarrow> lit ''populated 0'' \<in> set (case fld counters ''cgroup.events'' of PStr s \<Rightarrow> splitlines s | _ \<Rightarrow> [])"

definition find_result :: "pyval list \<Rightarrow> pyval \<Rightarrow> pyval option" where
  "find_result results resource = find (\<lambda>r. fld r ''resourceId'' = resource) results"

definition cgroup_observation :: "pyval list \<Rightarrow> pyval set \<Rightarrow> pyval \<Rightarrow> pyval res" where
  "cgroup_observation results seen item =
     bindE (guardE (exact_fields item [''resourceId'', ''settings'', ''counters''])
       (AdmissionError ''cgroup observation is not closed'')) (\<lambda>_.
     bindE (receipt_id (fld item ''resourceId'') ''cgroup observation resourceId'') (\<lambda>resource.
     case find_result results resource of
       None \<Rightarrow> Inl (AdmissionError ''cgroup observation does not resolve uniquely'')
     | Some result \<Rightarrow>
     bindE (guardE (resource \<notin> seen \<and> fld result ''kind'' \<in> set (map pyl cgroup_kinds))
       (AdmissionError ''cgroup observation does not resolve uniquely'')) (\<lambda>_.
     bindE (receipt_string_map (fld item ''settings'') (Some cgroup_settings) None ''cgroup settings'') (\<lambda>settings.
     bindE (receipt_string_map (fld item ''counters'') None (Some cgroup_counters) ''cgroup counters'') (\<lambda>counters.
     retE
       [guardE (\<not> (the_Dict counters = [] \<and> fld result ''result'' = pyl ''reclaimed''))
          (AdmissionError ''reclaimed cgroup lacks terminal counters''),
        guardE (fld result ''result'' = pyl ''reclaimed'' \<longrightarrow> quiescent counters)
          (AdmissionError ''reclaimed cgroup lacks observed quiescence''),
        guardE (\<not> (the_Dict counters = [] \<and> fld result ''reasonCode'' = PNone))
          (AdmissionError ''unobserved cgroup lacks reason code'')]
       (PDict [(lit ''resourceId'', resource), (lit ''settings'', settings), (lit ''counters'', counters)]))))))"

definition cgroup_resources :: "pyval list \<Rightarrow> pyval set" where
  "cgroup_resources results = set (map (\<lambda>r. fld r ''resourceId'') (filter (\<lambda>r. fld r ''kind'' \<in> set (map pyl cgroup_kinds)) results))"

definition cgroup_observations :: "pyval \<Rightarrow> pyval list \<Rightarrow> pyval list res" where
  "cgroup_observations v results =
     bindE (guardE (is_List v \<and> length (the_List v) \<le> 4096) (AdmissionError ''invalid cgroup observations'')) (\<lambda>_.
     bindE (checked_loop (cgroup_observation results) {} (the_List v)) (\<lambda>(seen, checked).
     retE [guardE (seen = cgroup_resources results) (AdmissionError ''cgroup observations do not cover results'')] checked))"

definition receipt_ids :: "pyval \<Rightarrow> string \<Rightarrow> bool \<Rightarrow> pyval list res" where
  "receipt_ids v label uniq =
     bindE (guardE (is_List v \<and> length (the_List v) \<le> 4096) (AdmissionError (''invalid '' @ label))) (\<lambda>_.
     bindE (mapE (\<lambda>x. receipt_id x label) (the_List v)) (\<lambda>checked.
     retE [guardE (uniq \<longrightarrow> no_dups checked) (AdmissionError (''duplicate '' @ label))] checked))"

definition receipt_artifact :: "pyval \<Rightarrow> bool" where
  "receipt_artifact v \<longleftrightarrow> is_Str v \<and> startswith (the_Str v) (lit ''sha256:'') \<and> re_hex 64 (drop 7 (the_Str v))"

definition receipt_artifacts :: "pyval \<Rightarrow> pyval list res" where
  "receipt_artifacts v = retE
     [guardE (is_List v \<and> length (the_List v) \<le> 4096) (AdmissionError ''invalid public artifact IDs''),
      guardE (list_all receipt_artifact (the_List v)) (AdmissionError ''public artifact ID must be a SHA256 reference''),
      guardE (no_dups (the_List v)) (AdmissionError ''duplicate public artifact ID'')] (the_List v)"

definition receipt_cleanup_status :: "pyval list \<Rightarrow> pyval list \<Rightarrow> string" where
  "receipt_cleanup_status results remaining =
     (let statuses = set (map (\<lambda>r. fld r ''result'') results) in
      if pyl ''failed'' \<in> statuses then ''failed''
      else if results = [] \<or> remaining \<noteq> [] \<or> statuses \<inter> set (map pyl [''ambiguous'', ''unconfirmed'', ''retained'']) \<noteq> {}
      then ''unconfirmed''
      else ''confirmed'')"

definition unresolved_results :: "pyval list \<Rightarrow> pyval list" where
  "unresolved_results results = map (\<lambda>r. fld r ''resourceId'')
     (filter (\<lambda>r. fld r ''result'' \<in> set (map pyl [''ambiguous'', ''failed'', ''unconfirmed''])) results)"

definition receipt_cleanup :: "string \<Rightarrow> pyval list \<Rightarrow> pyval" where
  "receipt_cleanup status artifacts = PDict [(lit ''scope'', pyl ''gate-recovery''), (lit ''requirement'', pyl ''required''),
     (lit ''status'', pyl status), (lit ''artifactIds'', PList artifacts)]"

definition receipt_payload ::
  "pyval \<Rightarrow> pyval \<Rightarrow> pyval \<Rightarrow> pyval \<Rightarrow> pyval \<Rightarrow> pyval \<Rightarrow> pyval \<Rightarrow> pyval list \<Rightarrow> pyval list \<Rightarrow> pyval list \<Rightarrow> pyval list \<Rightarrow> pyval \<Rightarrow> pyval" where
  "receipt_payload attempt trigger original journal controller boot uid ownership cgroups remaining results cleanup = PDict
     [(lit ''schema'', pyl receipt_schema), (lit ''attemptId'', attempt), (lit ''trigger'', trigger), (lit ''original'', original),
      (lit ''journalSchema'', journal), (lit ''controllerInstance'', controller), (lit ''bootId'', boot),
      (lit ''principalUid'', uid), (lit ''ownershipObservations'', PList ownership), (lit ''cgroupObservations'', PList cgroups),
      (lit ''remainingResources'', PList remaining), (lit ''results'', PList results), (lit ''cleanup'', cleanup)]"

definition receipt_validate_payload :: "pyval \<Rightarrow> pyval res" where
  "receipt_validate_payload v =
     bindE (seqE
       [guardE (exact_fields v receipt_payload_fields) (AdmissionError ''invalid recovery receipt''),
        guardE (fld v ''schema'' = pyl receipt_schema) (AdmissionError ''invalid recovery receipt schema'')]) (\<lambda>_.
     bindE (receipt_id (fld v ''attemptId'') ''attemptId'') (\<lambda>attempt.
     bindE (receipt_id (fld v ''trigger'') ''trigger'') (\<lambda>trigger.
     bindE (guardE (fld v ''journalSchema'' \<in> set (map pyl [''mirrorgate.recovery-journal/v1'', ''mirrorgate.recovery-journal/v2'']))
       (AdmissionError ''invalid receipt provenance'')) (\<lambda>_.
     bindE (receipt_id (fld v ''controllerInstance'') ''controllerInstance'') (\<lambda>controller.
     bindE (receipt_id (fld v ''bootId'') ''bootId'') (\<lambda>boot.
     bindE (guardE (is_Int (fld v ''principalUid'') \<and> 0 \<le> the_Int (fld v ''principalUid''))
       (AdmissionError ''invalid receipt provenance'')) (\<lambda>_.
     bindE (receipt_original (fld v ''original'')) (\<lambda>original.
     bindE (receipt_results (fld v ''results'')) (\<lambda>results.
     bindE (receipt_ids (fld v ''ownershipObservations'') ''ownershipObservation'' False) (\<lambda>ownership.
     bindE (guardE (ownership = map (\<lambda>r. fld r ''result'') results)
       (AdmissionError ''ownership observations do not cover results'')) (\<lambda>_.
     bindE (receipt_ids (fld v ''remainingResources'') ''remainingResource'' True) (\<lambda>remaining.
     bindE (guardE (remaining = unresolved_results results) (AdmissionError ''remaining resources do not match results'')) (\<lambda>_.
     bindE (cgroup_observations (fld v ''cgroupObservations'') results) (\<lambda>cgroups.
     let cleanup = fld v ''cleanup''; status = receipt_cleanup_status results remaining in
     bindE (guardE (exact_fields cleanup [''scope'', ''requirement'', ''status'', ''artifactIds''])
       (AdmissionError ''invalid cleanup projection'')) (\<lambda>_.
     bindE (receipt_artifacts (fld cleanup ''artifactIds'')) (\<lambda>artifacts.
     retE [guardE (fld cleanup ''scope'' = pyl ''gate-recovery'' \<and> fld cleanup ''requirement'' = pyl ''required'' \<and>
                   fld cleanup ''status'' = pyl status)
            (AdmissionError ''cleanup projection does not match recovery results'')]
       (receipt_payload attempt trigger original (fld v ''journalSchema'') controller boot (fld v ''principalUid'')
          ownership cgroups remaining results (receipt_cleanup status artifacts))))))))))))))))))"

definition receipt_digest :: "pyval \<Rightarrow> pystr res" where
  "receipt_digest payload = bindE (dumps_canonical payload) (\<lambda>encoded.
     if 512 * 1024 < length encoded then Inl (AdmissionError ''recovery receipt exceeds bound'')
     else Inr (sha256_hex encoded))"

definition create_receipt ::
  "pyval \<Rightarrow> pyval \<Rightarrow> pyval \<Rightarrow> pyval \<Rightarrow> pyval list option \<Rightarrow> pyval list option \<Rightarrow> pyval list option \<Rightarrow> pyval \<Rightarrow> pyval \<Rightarrow>
   pyval \<Rightarrow> pyval \<Rightarrow> pyval list option \<Rightarrow> pyval res" where
  "create_receipt attempt trigger original results remaining ownership cgroups journal controller boot uid artifacts =
     bindE (receipt_results results) (\<lambda>checked.
     let remaining' = (case remaining of None \<Rightarrow> unresolved_results checked | Some xs \<Rightarrow> xs);
         ownership' = (case ownership of None \<Rightarrow> map (\<lambda>r. fld r ''result'') checked | Some xs \<Rightarrow> xs);
         cgroups' = (case cgroups of None \<Rightarrow> [] | Some xs \<Rightarrow> xs);
         artifacts' = (case artifacts of None \<Rightarrow> [] | Some xs \<Rightarrow> xs) in
     bindE (receipt_original original) (\<lambda>original'.
     bindE (receipt_validate_payload (receipt_payload attempt trigger original' journal controller boot uid ownership' cgroups'
       remaining' checked (receipt_cleanup (receipt_cleanup_status checked remaining') artifacts'))) (\<lambda>receipt.
     bindE (receipt_digest receipt) (\<lambda>digest.
     Inr (PDict (the_Dict receipt @ [(lit ''sha256'', PStr digest)]))))))"

definition public_summary :: "pyval \<Rightarrow> pyval res" where
  "public_summary receipt =
     bindE (guardE (exact_fields receipt (receipt_payload_fields @ [''sha256'']))
       (AdmissionError ''invalid recovery receipt'')) (\<lambda>_.
     let payload = PDict (ddel (the_Dict receipt) (lit ''sha256'')) in
     bindE (receipt_digest payload) (\<lambda>digest.
     bindE (guardE (fld receipt ''sha256'' = PStr digest) (AdmissionError ''recovery receipt hash mismatch'')) (\<lambda>_.
     bindE (receipt_validate_payload payload) (\<lambda>checked.
     let cleanup = PDict (dset (the_Dict (fld checked ''cleanup'')) (lit ''artifactIds'') (PList [])) in
     Inr (PDict [(lit ''schema'', pyl receipt_public_schema), (lit ''attemptId'', fld checked ''attemptId''),
       (lit ''cleanup'', cleanup), (lit ''receiptSha256'', PStr digest)])))))"

section \<open>Validation is idempotent\<close>

text \<open>What a check returns passes the same check unchanged, so a receipt can be validated again wherever it is read.\<close>

lemma in_setE_Inr [accept_simps, simp]: "in_setE v ks e = Inr u \<longleftrightarrow> v \<in> set (map pyl ks)"
  by (auto simp: in_setE_def hashable_def)

lemma receipt_id_Inr [accept_simps]: "receipt_id v label = Inr w \<longleftrightarrow> w = v \<and> is_Str v \<and> re_receipt_id (the_Str v)"
  by (auto simp: receipt_id_def)

lemma receipt_original_idem: "receipt_original v = Inr w \<Longrightarrow> receipt_original w = Inr w"
  by (auto simp: receipt_original_def accept_simps exact_fields_def Let_def split: if_splits)

lemma checked_loop_idem:
  assumes "\<And>seen v w. f seen v = Inr w \<Longrightarrow> f seen w = Inr w" "checked_loop f seen vs = Inr (s, ws)"
  shows "checked_loop f seen ws = Inr (s, ws) \<and> length ws = length vs"
  using assms(2)
proof (induction vs arbitrary: seen ws)
  case (Cons v vs)
  from Cons.prems obtain w ws' where w: "f seen v = Inr w" "ws = w # ws'"
    "checked_loop f (insert (fld w ''resourceId'') seen) vs = Inr (s, ws')"
    by (auto simp: bindE_eq_Inr)
  show ?case using Cons.IH [OF w(3)] assms(1) [OF w(1)] by (simp add: w(2))
qed simp

text \<open>The items of the loop one by one: each copy comes from a check against a set that holds the earlier identifiers.\<close>

lemma checked_loop_items:
  assumes "checked_loop f seen vs = Inr (s, ws)"
  shows "list_all2 (\<lambda>v w. \<exists>seen'. seen \<subseteq> seen' \<and> f seen' v = Inr w) vs ws" "s = seen \<union> set (map (\<lambda>w. fld w ''resourceId'') ws)"
proof -
  have "list_all2 (\<lambda>v w. \<exists>seen'. seen \<subseteq> seen' \<and> f seen' v = Inr w) vs ws \<and> s = seen \<union> set (map (\<lambda>w. fld w ''resourceId'') ws)"
    using assms
  proof (induction vs arbitrary: seen ws)
    case (Cons v vs)
    from Cons.prems obtain w ws' where w: "f seen v = Inr w" "ws = w # ws'"
      "checked_loop f (insert (fld w ''resourceId'') seen) vs = Inr (s, ws')"
      by (auto simp: bindE_eq_Inr)
    have "list_all2 (\<lambda>v w. \<exists>seen'. seen \<subseteq> seen' \<and> f seen' v = Inr w) vs ws'"
      by (rule list_all2_mono [OF conjunct1 [OF Cons.IH [OF w(3)]]]) auto
    then show ?case using Cons.IH [OF w(3)] w(1) by (auto simp: w(2))
  qed simp
  then show "list_all2 (\<lambda>v w. \<exists>seen'. seen \<subseteq> seen' \<and> f seen' v = Inr w) vs ws" "s = seen \<union> set (map (\<lambda>w. fld w ''resourceId'') ws)"
    by auto
qed

lemma checked_loop_distinct:
  assumes "\<And>seen v w. f seen v = Inr w \<Longrightarrow> fld w ''resourceId'' \<notin> seen" "checked_loop f seen vs = Inr (s, ws)"
  shows "distinct (map (\<lambda>w. fld w ''resourceId'') ws) \<and> seen \<inter> set (map (\<lambda>w. fld w ''resourceId'') ws) = {}"
  using assms(2)
proof (induction vs arbitrary: seen ws)
  case (Cons v vs)
  from Cons.prems obtain w ws' where w: "f seen v = Inr w" "ws = w # ws'"
    "checked_loop f (insert (fld w ''resourceId'') seen) vs = Inr (s, ws')"
    by (auto simp: bindE_eq_Inr)
  show ?case using Cons.IH [OF w(3)] assms(1) [OF w(1)] by (auto simp: w(2))
qed simp

lemma receipt_result_Inr:
  assumes "receipt_result seen v = Inr w"
  shows "receipt_result seen w = Inr w" "fld w ''result'' = fld v ''result''" "fld w ''resourceId'' = fld v ''resourceId''"
    "fld w ''kind'' = fld v ''kind''" "fld v ''result'' \<in> set (map pyl receipt_results_set)" "fld w ''resourceId'' \<notin> seen"
proof -
  have w: "w = PDict [(lit ''resourceId'', fld v ''resourceId''), (lit ''sessionId'', fld v ''sessionId''), (lit ''kind'', fld v ''kind''),
            (lit ''result'', fld v ''result''), (lit ''reasonCode'', fld v ''reasonCode'')]"
    using assms by (simp add: receipt_result_def accept_simps split: if_splits)
  show "fld w ''result'' = fld v ''result''" "fld w ''resourceId'' = fld v ''resourceId''" "fld w ''kind'' = fld v ''kind''"
    by (simp_all add: w)
  show "fld v ''result'' \<in> set (map pyl receipt_results_set)" "fld w ''resourceId'' \<notin> seen"
    using assms by (simp_all add: receipt_result_def accept_simps w)
  show "receipt_result seen w = Inr w"
    using assms unfolding w by (simp add: receipt_result_def accept_simps exact_fields_def split: if_splits)
qed

lemma receipt_results_Inr:
  assumes "receipt_results v = Inr ws"
  shows "receipt_results (PList ws) = Inr ws" "list_all2 (\<lambda>v w. \<exists>seen. receipt_result seen v = Inr w) (the_List v) ws"
    "distinct (map (\<lambda>w. fld w ''resourceId'') ws)"
proof -
  from assms obtain s where s: "checked_loop receipt_result {} (the_List v) = Inr (s, ws)" "length (the_List v) \<le> 4096"
    by (auto simp: receipt_results_def bindE_eq_Inr)
  show "receipt_results (PList ws) = Inr ws"
    using checked_loop_idem [OF receipt_result_Inr(1) s(1)] s(2) by (simp add: receipt_results_def)
  show "list_all2 (\<lambda>v w. \<exists>seen. receipt_result seen v = Inr w) (the_List v) ws"
    using checked_loop_items(1) [OF s(1)] by simp
  show "distinct (map (\<lambda>w. fld w ''resourceId'') ws)"
    using checked_loop_distinct [OF receipt_result_Inr(6) s(1)] by simp
qed

definition string_map_ok :: "pyval \<Rightarrow> string list option \<Rightarrow> string list option \<Rightarrow> bool" where
  "string_map_ok v ex al \<longleftrightarrow> receipt_string_map v ex al [] = Inr v"

lemma receipt_string_map_Inr [accept_simps]:
  "receipt_string_map v ex al label = Inr w \<longleftrightarrow> w = v \<and> string_map_ok v ex al"
  by (auto simp: string_map_ok_def receipt_string_map_def Let_def)

lemma cgroup_observation_idem:
  assumes "cgroup_observation rs seen item = Inr w"
  shows "cgroup_observation rs seen w = Inr w"
proof (cases "find_result rs (fld item ''resourceId'')")
  case None
  then show ?thesis using assms by (simp add: cgroup_observation_def accept_simps)
next
  case (Some result)
  have w: "w = PDict [(lit ''resourceId'', fld item ''resourceId''), (lit ''settings'', fld item ''settings''),
      (lit ''counters'', fld item ''counters'')]"
    using assms Some by (simp add: cgroup_observation_def accept_simps)
  show ?thesis using assms Some unfolding w by (simp add: cgroup_observation_def accept_simps exact_fields_def)
qed

lemma cgroup_observations_Inr:
  assumes "cgroup_observations v rs = Inr ws"
  shows "cgroup_observations (PList ws) rs = Inr ws"
    "list_all2 (\<lambda>v w. \<exists>seen. cgroup_observation rs seen v = Inr w) (the_List v) ws"
    "set (map (\<lambda>w. fld w ''resourceId'') ws) = cgroup_resources rs"
proof -
  from assms obtain s where s: "checked_loop (cgroup_observation rs) {} (the_List v) = Inr (s, ws)" "s = cgroup_resources rs"
    "length (the_List v) \<le> 4096"
    by (auto simp: cgroup_observations_def bindE_eq_Inr)
  show "cgroup_observations (PList ws) rs = Inr ws"
    using checked_loop_idem [OF cgroup_observation_idem s(1)] s(2,3) by (simp add: cgroup_observations_def)
  show "list_all2 (\<lambda>v w. \<exists>seen. cgroup_observation rs seen v = Inr w) (the_List v) ws"
    "set (map (\<lambda>w. fld w ''resourceId'') ws) = cgroup_resources rs"
    using checked_loop_items [OF s(1)] s(2) by simp_all
qed

lemma receipt_ids_Inr:
  "receipt_ids v label u = Inr ws \<longleftrightarrow>
     is_List v \<and> ws = the_List v \<and> length ws \<le> 4096 \<and> (\<forall>w \<in> set ws. receipt_id w label = Inr w) \<and> (u \<longrightarrow> distinct ws)"
proof -
  have "mapE (\<lambda>x. receipt_id x label) xs = Inr ws \<longleftrightarrow> ws = xs \<and> (\<forall>w \<in> set ws. receipt_id w label = Inr w)" for xs
    by (induction xs arbitrary: ws) (auto simp: accept_simps)
  then show ?thesis by (auto simp: receipt_ids_def accept_simps)
qed

lemma receipt_artifacts_idem: "receipt_artifacts v = Inr ws \<Longrightarrow> receipt_artifacts (PList ws) = Inr ws"
  by (auto simp: receipt_artifacts_def)

definition receipt_parts where
  "receipt_parts v attempt trigger original journal controller boot uid ownership cgroups remaining results status artifacts \<longleftrightarrow>
     v = receipt_payload attempt trigger original journal controller boot uid ownership cgroups remaining results
           (receipt_cleanup status artifacts) \<and>
     receipt_id attempt ''attemptId'' = Inr attempt \<and> receipt_original original = Inr original \<and>
     receipt_results (PList results) = Inr results \<and> remaining = unresolved_results results \<and>
     ownership = map (\<lambda>r. fld r ''result'') results \<and>
     cgroup_observations (PList cgroups) results = Inr cgroups \<and> status = receipt_cleanup_status results remaining"

lemma receipt_validate_parts:
  assumes "receipt_validate_payload v = Inr w"
  obtains attempt trigger original journal controller boot uid ownership cgroups remaining results status artifacts where
    "receipt_parts w attempt trigger original journal controller boot uid ownership cgroups remaining results status artifacts"
    "fld v ''attemptId'' = attempt" "receipt_validate_payload w = Inr w"
proof -
  obtain attempt trigger controller boot original results ownership remaining cgroups artifacts where
    a: "receipt_id (fld v ''attemptId'') ''attemptId'' = Inr attempt" and
    t: "receipt_id (fld v ''trigger'') ''trigger'' = Inr trigger" and
    j: "fld v ''journalSchema'' \<in> set (map pyl [''mirrorgate.recovery-journal/v1'', ''mirrorgate.recovery-journal/v2''])" and
    c: "receipt_id (fld v ''controllerInstance'') ''controllerInstance'' = Inr controller" and
    b: "receipt_id (fld v ''bootId'') ''bootId'' = Inr boot" and
    u: "is_Int (fld v ''principalUid'') \<and> 0 \<le> the_Int (fld v ''principalUid'')" and
    orig: "receipt_original (fld v ''original'') = Inr original" and
    r: "receipt_results (fld v ''results'') = Inr results" and
    os: "receipt_ids (fld v ''ownershipObservations'') ''ownershipObservation'' False = Inr ownership"
      "ownership = map (\<lambda>r. fld r ''result'') results" and
    rem: "receipt_ids (fld v ''remainingResources'') ''remainingResource'' True = Inr remaining"
      "remaining = unresolved_results results" and
    cg: "cgroup_observations (fld v ''cgroupObservations'') results = Inr cgroups" and
    ar: "receipt_artifacts (fld (fld v ''cleanup'') ''artifactIds'') = Inr artifacts" and
    w: "w = receipt_payload attempt trigger original (fld v ''journalSchema'') controller boot (fld v ''principalUid'')
          ownership cgroups remaining results (receipt_cleanup (receipt_cleanup_status results remaining) artifacts)"
    using assms by (auto simp: receipt_validate_payload_def bindE_eq_Inr Let_def)
  note idem = receipt_original_idem [OF orig] receipt_results_Inr(1) [OF r] cgroup_observations_Inr(1) [OF cg]
    receipt_artifacts_idem [OF ar]
  have ids: "receipt_ids (PList ownership) ''ownershipObservation'' False = Inr ownership"
    "receipt_ids (PList remaining) ''remainingResource'' True = Inr remaining"
    using os(1) rem(1) by (auto simp: receipt_ids_Inr)
  have again: "receipt_validate_payload w = Inr w"
    unfolding w using a t j c b u idem ids os(2) rem(2)
    by (simp add: receipt_validate_payload_def receipt_payload_def receipt_cleanup_def exact_fields_def receipt_payload_fields_def
      accept_simps insert_commute)
  have "receipt_parts w attempt trigger original (fld v ''journalSchema'') controller boot (fld v ''principalUid'')
      ownership cgroups remaining results (receipt_cleanup_status results remaining) artifacts"
    using idem os(2) rem(2) a unfolding w receipt_parts_def by (simp add: accept_simps)
  moreover have "fld v ''attemptId'' = attempt" using a by (simp add: accept_simps)
  ultimately show ?thesis using again by (rule that)
qed

text \<open>C27 A receipt that was created reads back: its digest matches, its payload validates again, and the public
  summary holds the attempt, the digest and the cleanup status, with no artifact or resource identifiers.\<close>

theorem receipt_reads_back:
  assumes "create_receipt attempt trigger original results remaining ownership cgroups journal controller boot uid artifacts = Inr r"
  shows "\<exists>status. public_summary r = Inr (PDict
      [(lit ''schema'', pyl receipt_public_schema), (lit ''attemptId'', attempt), (lit ''cleanup'', receipt_cleanup status []),
       (lit ''receiptSha256'', fld r ''sha256'')]) \<and> fld (fld r ''cleanup'') ''status'' = pyl status"
proof -
  obtain v w digest where vw: "receipt_validate_payload v = Inr w" "fld v ''attemptId'' = attempt"
    and d: "receipt_digest w = Inr digest" and r: "r = PDict (the_Dict w @ [(lit ''sha256'', PStr digest)])"
    using assms by (auto simp: create_receipt_def bindE_eq_Inr Let_def receipt_payload_def)
  obtain trigger original journal controller boot uid ownership cgroups remaining results status artifacts where
    p: "receipt_parts w attempt trigger original journal controller boot uid ownership cgroups remaining results status artifacts"
    and again: "receipt_validate_payload w = Inr w"
    using receipt_validate_parts [OF vw(1)] vw(2) by metis
  have w: "w = receipt_payload attempt trigger original journal controller boot uid ownership cgroups remaining results
           (receipt_cleanup status artifacts)" using p by (simp add: receipt_parts_def)
  have del: "PDict (ddel (the_Dict r) (lit ''sha256'')) = w"
    unfolding r w by (simp add: receipt_payload_def ddel_def)
  have fields: "exact_fields r (receipt_payload_fields @ [''sha256''])"
    unfolding r w by (simp add: receipt_payload_def exact_fields_def receipt_payload_fields_def insert_commute)
  have sha: "fld r ''sha256'' = PStr digest" unfolding r w by (simp add: receipt_payload_def)
  have "public_summary r = Inr (PDict
      [(lit ''schema'', pyl receipt_public_schema), (lit ''attemptId'', attempt), (lit ''cleanup'', receipt_cleanup status []),
       (lit ''receiptSha256'', fld r ''sha256'')])"
    unfolding public_summary_def del Let_def using fields d sha again
    by (simp add: w receipt_payload_def receipt_cleanup_def)
  moreover have "fld (fld r ''cleanup'') ''status'' = pyl status"
    unfolding r w by (simp add: receipt_payload_def receipt_cleanup_def)
  ultimately show ?thesis by blast
qed

section \<open>What a confirmed cleanup means\<close>

lemma public_summary_parts:
  assumes "public_summary r = Inr s"
  obtains w where "receipt_validate_payload (PDict (ddel (the_Dict r) (lit ''sha256''))) = Inr w"
    "fld s ''cleanup'' = PDict (dset (the_Dict (fld w ''cleanup'')) (lit ''artifactIds'') (PList []))"
    "\<And>k. k \<noteq> ''sha256'' \<Longrightarrow> fld (PDict (ddel (the_Dict r) (lit ''sha256''))) k = fld r k"
proof -
  from assms obtain w where w: "receipt_validate_payload (PDict (ddel (the_Dict r) (lit ''sha256''))) = Inr w"
    "fld s ''cleanup'' = PDict (dset (the_Dict (fld w ''cleanup'')) (lit ''artifactIds'') (PList []))" and "is_Dict r"
    by (auto simp: public_summary_def bindE_eq_Inr Let_def exact_fields_def)
  have "fld (PDict (ddel (the_Dict r) (lit ''sha256''))) k = fld r k" if "k \<noteq> ''sha256''" for k
    using that \<open>is_Dict r\<close> by (cases r) (simp_all add: fld_def map_of_ddel)
  with w show ?thesis by (rule that)
qed

lemma remaining_member: "S \<subseteq> insert a (insert b T) \<Longrightarrow> b \<notin> S \<Longrightarrow> S \<inter> T = {} \<Longrightarrow> S \<subseteq> {a}"
  by blast

lemma receipt_cleanup_status_confirmed:
  assumes "\<And>r. r \<in> set results \<Longrightarrow> fld r ''result'' \<in> set (map pyl receipt_results_set)"
  shows "receipt_cleanup_status results (unresolved_results results) = ''confirmed'' \<longleftrightarrow>
    results \<noteq> [] \<and> (\<forall>r \<in> set results. fld r ''result'' = pyl ''reclaimed'')" (is "?c \<longleftrightarrow> ?a")
proof
  let ?S = "set (map (\<lambda>r. fld r ''result'') results)"
  assume ?c
  then have c: "pyl ''failed'' \<notin> ?S" "results \<noteq> []" "?S \<inter> set (map pyl [''ambiguous'', ''unconfirmed'', ''retained'']) = {}"
    unfolding receipt_cleanup_status_def Let_def by (auto simp only: split: if_splits)
  have "set (map pyl receipt_results_set) =
      insert (pyl ''reclaimed'') (insert (pyl ''failed'') (set (map pyl [''ambiguous'', ''unconfirmed'', ''retained''])))"
    by (simp add: receipt_results_set_def insert_commute)
  then have "?S \<subseteq> insert (pyl ''reclaimed'') (insert (pyl ''failed'') (set (map pyl [''ambiguous'', ''unconfirmed'', ''retained''])))"
    using assms by (metis (no_types, lifting) image_subsetI set_map)
  from remaining_member [OF this c(1,3)] have "?S \<subseteq> {pyl ''reclaimed''}" .
  with c(2) show ?a by auto
next
  assume a: ?a
  then have "set (map (\<lambda>r. fld r ''result'') results) = {pyl ''reclaimed''}" by (cases results) auto
  moreover have "unresolved_results results = []" using a by (simp add: unresolved_results_def filter_empty_conv)
  ultimately show ?c using a unfolding receipt_cleanup_status_def Let_def by simp
qed

lemma list_all2_setE1:
  assumes "list_all2 P xs ys" "x \<in> set xs"
  obtains y where "y \<in> set ys" "P x y"
  using assms by (metis in_set_conv_nth list_all2_conv_all_nth)

lemma list_all2_setE2:
  assumes "list_all2 P xs ys" "y \<in> set ys"
  obtains x where "x \<in> set xs" "P x y"
  using assms by (metis in_set_conv_nth list_all2_conv_all_nth)

lemma find_distinct: "distinct (map f xs) \<Longrightarrow> y \<in> set xs \<Longrightarrow> find (\<lambda>x. f x = f y) xs = Some y"
  by (induction xs) auto

lemma cgroup_observation_quiescent:
  assumes "cgroup_observation rs seen v = Inr w" "find_result rs (fld v ''resourceId'') = Some y" "fld y ''result'' = pyl ''reclaimed''"
  shows "quiescent (fld v ''counters'')"
  using assms by (simp add: cgroup_observation_def accept_simps)

lemma cgroup_observation_id: "cgroup_observation rs seen v = Inr w \<Longrightarrow> fld w ''resourceId'' = fld v ''resourceId''"
  by (cases "find_result rs (fld v ''resourceId'')") (auto simp: cgroup_observation_def bindE_eq_Inr receipt_id_Inr)

text \<open>C14 The public status says \<^verbatim>\<open>confirmed\<close> exactly when the receipt lists at least one resource and every one of
  them was reclaimed; and a cgroup is listed as reclaimed only with an observation of its terminal counters that
  shows it unpopulated.\<close>

theorem receipt_confirmed:
  assumes "public_summary r = Inr s" and results: "results = the_List (fld r ''results'')"
  shows "(fld (fld s ''cleanup'') ''status'' = pyl ''confirmed'' \<longleftrightarrow>
      results \<noteq> [] \<and> (\<forall>x \<in> set results. fld x ''result'' = pyl ''reclaimed'')) \<and>
    (\<forall>x \<in> set results. fld x ''kind'' \<in> set (map pyl cgroup_kinds) \<and> fld x ''result'' = pyl ''reclaimed'' \<longrightarrow>
      (\<exists>obs \<in> set (the_List (fld r ''cgroupObservations'')). fld obs ''resourceId'' = fld x ''resourceId'' \<and>
        quiescent (fld obs ''counters'')))"
proof -
  let ?p = "PDict (ddel (the_Dict r) (lit ''sha256''))"
  obtain w where w: "receipt_validate_payload ?p = Inr w"
    "fld s ''cleanup'' = PDict (dset (the_Dict (fld w ''cleanup'')) (lit ''artifactIds'') (PList []))"
    and p: "\<And>k. k \<noteq> ''sha256'' \<Longrightarrow> fld ?p k = fld r k"
    using public_summary_parts [OF assms(1)] by metis
  obtain a t x j c b u os rem rs cgs art where rs: "receipt_results (fld ?p ''results'') = Inr rs"
    "cgroup_observations (fld ?p ''cgroupObservations'') rs = Inr cgs"
    "w = receipt_payload a t x j c b u os cgs rem rs (receipt_cleanup (receipt_cleanup_status rs (unresolved_results rs)) art)"
    using w(1) by (auto simp: receipt_validate_payload_def bindE_eq_Inr Let_def)
  note rs = rs(1,2) [unfolded p [of "''results''", simplified] p [of "''cgroupObservations''", simplified]] rs(3)
  have all: "list_all2 (\<lambda>v w. \<exists>seen. receipt_result seen v = Inr w) results rs"
    using receipt_results_Inr(2) [OF rs(1)] by (simp add: results)
  have same: "map (\<lambda>x. fld x ''result'') rs = map (\<lambda>x. fld x ''result'') results"
    using all by (induction rule: list_all2_induct) (auto dest: receipt_result_Inr)
  have st: "fld x ''result'' \<in> set (map pyl receipt_results_set)" if "x \<in> set rs" for x
    using list_all2_setE2 [OF all that] receipt_result_Inr(2,5) by metis
  have "fld (fld s ''cleanup'') ''status'' = pyl (receipt_cleanup_status rs (unresolved_results rs))"
    using w(2) by (simp add: rs(3) receipt_payload_def receipt_cleanup_def)
  moreover have "(\<forall>x \<in> set rs. fld x ''result'' = pyl ''reclaimed'') \<longleftrightarrow> (\<forall>x \<in> set results. fld x ''result'' = pyl ''reclaimed'')"
    using arg_cong [OF same, of set] by (simp add: set_eq_iff image_iff) metis
  moreover have "rs = [] \<longleftrightarrow> results = []" using all by auto
  ultimately have first: "fld (fld s ''cleanup'') ''status'' = pyl ''confirmed'' \<longleftrightarrow>
      results \<noteq> [] \<and> (\<forall>x \<in> set results. fld x ''result'' = pyl ''reclaimed'')"
    using receipt_cleanup_status_confirmed [OF st] by simp
  have second: "\<exists>obs \<in> set (the_List (fld r ''cgroupObservations'')). fld obs ''resourceId'' = fld x ''resourceId'' \<and>
        quiescent (fld obs ''counters'')"
    if x: "x \<in> set results" "fld x ''kind'' \<in> set (map pyl cgroup_kinds)" "fld x ''result'' = pyl ''reclaimed''" for x
  proof -
    obtain y where y: "y \<in> set rs" "\<exists>seen. receipt_result seen x = Inr y" using list_all2_setE1 [OF all x(1)] .
    then have y': "fld y ''kind'' \<in> set (map pyl cgroup_kinds)" "fld y ''result'' = pyl ''reclaimed''"
      "fld y ''resourceId'' = fld x ''resourceId''"
      using receipt_result_Inr(2,3,4) x(2,3) by metis+
    have find: "find_result rs (fld x ''resourceId'') = Some y"
      using find_distinct [OF receipt_results_Inr(3) [OF rs(1)] y(1)] y'(3) by (simp add: find_result_def)
    have "fld y ''resourceId'' \<in> cgroup_resources rs" using y(1) y'(1) by (simp add: cgroup_resources_def)
    then obtain c where c: "c \<in> set cgs" "fld c ''resourceId'' = fld x ''resourceId''"
      using cgroup_observations_Inr(3) [OF rs(2)] y'(3) by (metis (no_types, lifting) image_iff set_map)
    obtain v where v: "v \<in> set (the_List (fld r ''cgroupObservations''))" "\<exists>seen. cgroup_observation rs seen v = Inr c"
      using list_all2_setE2 [OF cgroup_observations_Inr(2) [OF rs(2)] c(1)] .
    then show ?thesis
      using cgroup_observation_id cgroup_observation_quiescent find y'(2) c(2) by metis
  qed
  show ?thesis using first second by blast
qed

section \<open>An example\<close>

definition example_receipt_results :: pyval where
  "example_receipt_results = PList [PDict [(lit ''resourceId'', pyl ''g1''), (lit ''sessionId'', pyl ''s1''), (lit ''kind'', pyl ''cgroup''),
     (lit ''result'', pyl ''reclaimed''), (lit ''reasonCode'', PNone)]]"

definition example_receipt_cgroup :: pyval where
  "example_receipt_cgroup = PDict [(lit ''resourceId'', pyl ''g1''),
     (lit ''settings'', PDict (map (\<lambda>k. (lit k, pyl ''max'')) cgroup_settings)),
     (lit ''counters'', PDict [(lit ''cgroup.events'', PStr (lit ''populated 0'' @ [10] @ lit ''frozen 0'' @ [10]))])]"

definition example_create :: "pyval res" where
  "example_create = create_receipt (pyl ''a1'') (pyl ''restart'') PNone example_receipt_results None None (Some [example_receipt_cgroup])
     (pyl ''mirrorgate.recovery-journal/v2'') (pyl ''c1'') (pyl ''b1'') (PInt 1000) None"

definition example_receipt_payload :: pyval where
  "example_receipt_payload = receipt_payload (pyl ''a1'') (pyl ''restart'') PNone (pyl ''mirrorgate.recovery-journal/v2'') (pyl ''c1'')
     (pyl ''b1'') (PInt 1000) [pyl ''reclaimed''] [example_receipt_cgroup] [] (the_List example_receipt_results)
     (receipt_cleanup ''confirmed'' [])"

lemma example_receipt_validates: "receipt_validate_payload example_receipt_payload = Inr example_receipt_payload"
  by code_simp

lemma example_receipt_digest:
  "receipt_digest example_receipt_payload = Inr (sha256_hex (canonical_text example_receipt_payload))"
proof -
  have "jints plain_int example_receipt_payload" by code_simp
  moreover have "length (canonical_text example_receipt_payload) \<le> 512 * 1024" by code_simp
  ultimately show ?thesis by (simp add: receipt_digest_def dumps_canonical_def)
qed

lemma example_create_receipt:
  "example_create = Inr (PDict (the_Dict example_receipt_payload @ [(lit ''sha256'', PStr (sha256_hex (canonical_text example_receipt_payload)))]))"
proof -
  have "receipt_results example_receipt_results = Inr (the_List example_receipt_results)" "receipt_original PNone = Inr PNone"
    "receipt_cleanup_status (the_List example_receipt_results) [] = ''confirmed''"
    "unresolved_results (the_List example_receipt_results) = []"
    "map (\<lambda>r. fld r ''result'') (the_List example_receipt_results) = [pyl ''reclaimed'']"
    by code_simp+
  then show ?thesis
    using example_receipt_validates example_receipt_digest
    by (simp add: example_create_def create_receipt_def example_receipt_payload_def)
qed

theorem receipt_reads_back_witness:
  "(case example_create of Inl _ \<Rightarrow> False | Inr r \<Rightarrow> (\<exists>status. public_summary r = Inr (PDict
      [(lit ''schema'', pyl receipt_public_schema), (lit ''attemptId'', pyl ''a1''), (lit ''cleanup'', receipt_cleanup status []),
       (lit ''receiptSha256'', fld r ''sha256'')]) \<and> fld (fld r ''cleanup'') ''status'' = pyl status))"
  unfolding example_create_receipt sum.case
  by (rule receipt_reads_back [OF example_create_receipt [unfolded example_create_def]])

lemma example_public_summary:
  "public_summary (PDict (the_Dict example_receipt_payload @ [(lit ''sha256'', PStr (sha256_hex (canonical_text example_receipt_payload)))])) =
    Inr (PDict [(lit ''schema'', pyl receipt_public_schema), (lit ''attemptId'', pyl ''a1''), (lit ''cleanup'', receipt_cleanup ''confirmed'' []),
       (lit ''receiptSha256'', PStr (sha256_hex (canonical_text example_receipt_payload)))])"
proof -
  have d: "ddel (the_Dict example_receipt_payload @ [(lit ''sha256'', x)]) (lit ''sha256'') = the_Dict example_receipt_payload" for x
    by (simp add: ddel_def example_receipt_payload_def receipt_payload_def)
  have p: "PDict (the_Dict example_receipt_payload) = example_receipt_payload"
    by (simp add: example_receipt_payload_def receipt_payload_def)
  have f: "exact_fields (PDict (the_Dict example_receipt_payload @ [(lit ''sha256'', x)])) (receipt_payload_fields @ [''sha256''])"
    "fld (PDict (the_Dict example_receipt_payload @ [(lit ''sha256'', x)])) ''sha256'' = x" for x
    by (simp_all add: example_receipt_payload_def receipt_payload_def exact_fields_def receipt_payload_fields_def insert_commute)
  have c: "fld example_receipt_payload ''cleanup'' = receipt_cleanup ''confirmed'' []" "fld example_receipt_payload ''attemptId'' = pyl ''a1''"
    by (simp_all add: example_receipt_payload_def receipt_payload_def)
  show ?thesis
    unfolding public_summary_def Let_def pyval.sel d p
    using example_receipt_digest example_receipt_validates f c by (simp add: receipt_cleanup_def)
qed

theorem receipt_confirmed_witness:
  "(let r = PDict (the_Dict example_receipt_payload @ [(lit ''sha256'', PStr (sha256_hex (canonical_text example_receipt_payload)))]);
        results = the_List (fld r ''results'') in
    results \<noteq> [] \<and> (\<forall>x \<in> set results. fld x ''result'' = pyl ''reclaimed'') \<and>
    (\<forall>x \<in> set results. fld x ''kind'' \<in> set (map pyl cgroup_kinds) \<and> fld x ''result'' = pyl ''reclaimed'' \<longrightarrow>
      (\<exists>obs \<in> set (the_List (fld r ''cgroupObservations'')). fld obs ''resourceId'' = fld x ''resourceId'' \<and>
        quiescent (fld obs ''counters''))))"
  using receipt_confirmed [OF example_public_summary refl] unfolding Let_def by (simp add: receipt_cleanup_def)

end
