(* ===== verification/RecoveryRecord.thy ===== *)
theory RecoveryRecord
  imports RecoveryReceipt
begin

text \<open>
  Journal records (\<^verbatim>\<open>supervisor/mirrorgate/recovery_journal.py\<close>): the closed record format, its two schema
  versions, canonical encoding with a checksum, and the bounded decoder.  A lone surrogate in a checked string
  is Python's \<^verbatim>\<open>UnicodeEncodeError\<close> and an integer of more than 4300 digits its \<^verbatim>\<open>ValueError\<close>; neither is a
  \<^verbatim>\<open>JournalError\<close>, and both are kept apart here.
\<close>

definition journal_schema :: string where "journal_schema = ''mirrorgate.recovery-journal/v1''"
definition group_schema :: string where "group_schema = ''mirrorgate.recovery-journal/v2''"
definition max_record_bytes :: nat where "max_record_bytes = 64 * 1024"
definition max_records :: nat where "max_records = 4096"
definition max_string :: nat where "max_string = 512"
definition journal_kinds :: "string list" where
  "journal_kinds = [''filesystem'', ''process'', ''cgroup'', ''retained_source'']"
definition journal_phases :: "string list" where
  "journal_phases = [''allocation_intent'', ''durable_owned'', ''active'', ''cleanup_intent'', ''reclaimed'', ''retained_by_policy'',
     ''ambiguous'', ''cleanup_failed'']"
definition journal_transitions :: "(string \<times> string list) list" where
  "journal_transitions =
    [(''allocation_intent'', [''durable_owned'', ''retained_by_policy'', ''cleanup_intent'', ''ambiguous'']),
     (''durable_owned'', [''active'', ''cleanup_intent'', ''retained_by_policy'', ''ambiguous'']),
     (''active'', [''cleanup_intent'', ''retained_by_policy'', ''ambiguous'']),
     (''cleanup_intent'', [''reclaimed'', ''cleanup_failed'', ''ambiguous'']),
     (''cleanup_failed'', [''cleanup_intent'', ''ambiguous'']),
     (''retained_by_policy'', [''cleanup_intent'', ''ambiguous'']),
     (''ambiguous'', []),
     (''reclaimed'', [])]"
definition top_fields :: "string list" where
  "top_fields = [''schema'', ''sequence'', ''controllerInstance'', ''bootId'', ''principalUid'', ''sessionId'', ''resourceId'', ''kind'',
     ''phase'', ''stage'', ''identity'', ''retainedRecoverable'', ''observations'', ''stateRoot'', ''cleanupTarget'', ''checksum'']"
definition root_identity_fields :: "string list" where "root_identity_fields = [''device'', ''inode'', ''uid'']"
definition identity_fields :: "(string \<times> string list) list" where
  "identity_fields =
    [(''filesystem'', [''relativePath'', ''device'', ''inode'', ''mode'', ''ctimeNs'', ''ownershipToken'']),
     (''retained_source'', [''relativePath'', ''device'', ''inode'', ''mode'', ''ctimeNs'', ''ownershipToken'']),
     (''process'', [''pid'', ''startTime'', ''bootId'', ''cgroup'']),
     (''cgroup'', [''relativePath'', ''device'', ''inode'', ''mode''])]"
definition observation_fields :: "string list" where "observation_fields = [''attemptId'', ''status'', ''reasonCode'']"
definition observation_statuses :: "string list" where
  "observation_statuses = [''unconfirmed'', ''recovered'', ''failed'', ''ambiguous'']"

text \<open>A subscript of one of the tables by a phase or kind value.\<close>

definition table_get :: "(string \<times> 'a list) list \<Rightarrow> pyval \<Rightarrow> 'a list" where
  "table_get t v = (case find (\<lambda>(k, xs). pyl k = v) t of None \<Rightarrow> [] | Some (k, xs) \<Rightarrow> xs)"

abbreviation is_name :: "pyval \<Rightarrow> string list \<Rightarrow> bool" where
  "is_name v ks \<equiv> v \<in> set (map pyl ks)"

definition journal_text :: "pyval \<Rightarrow> string \<Rightarrow> nat \<Rightarrow> unit res" where
  "journal_text v label maximum =
     (if is_Str v \<and> the_Str v \<noteq> [] then
        (case utf8_len (the_Str v) of
           None \<Rightarrow> Inl PyUnicodeError
         | Some n \<Rightarrow> guardE (n \<le> maximum) (JournalError (''invalid '' @ label)))
      else Inl (JournalError (''invalid '' @ label)))"

definition journal_opaque :: "pyval \<Rightarrow> string \<Rightarrow> unit res" where
  "journal_opaque v label = seqE
     [journal_text v label 128,
      guardE (hd (the_Str v) \<noteq> 46 \<and> list_all is_idchar (the_Str v)) (JournalError (''invalid '' @ label))]"

definition journal_relative_path :: "pyval \<Rightarrow> pyval res" where
  "journal_relative_path v =
     bindE (journal_text v ''relative path'' max_string) (\<lambda>_.
     let parts = psplit slash (the_Str v) in
     retE [guardE (\<not> startswith (the_Str v) [slash] \<and> \<not> list_ex bad_part parts) (JournalError ''invalid relative path'')]
       (PStr (pp_str (pjoin slash parts))))"

definition cgroup_identity_digest :: "pyval \<Rightarrow> pystr res" where
  "cgroup_identity_digest identity =
     bindE (dumps_canonical identity) (\<lambda>encoded. Inr (sha256_hex (lit ''mirrorgate.cgroup-identity/v2'' @ [0] @ encoded)))"

definition hex_digest :: "pyval \<Rightarrow> bool" where
  "hex_digest v \<longleftrightarrow> is_Str v \<and> length (the_Str v) = 64 \<and> list_all is_hex (the_Str v)"

definition natural :: "pyval \<Rightarrow> bool" where
  "natural v \<longleftrightarrow> is_Int v \<and> 0 \<le> the_Int v"

definition identity_allowed :: "pyval \<Rightarrow> pyval \<Rightarrow> (string list) res" where
  "identity_allowed kind schema =
     (let allowed = table_get identity_fields kind in
      if schema = pyl group_schema then
        (if kind = pyl ''cgroup'' then Inr (allowed @ [''delegation''])
         else if kind = pyl ''process'' then Inr (allowed @ [''cgroupResourceId'', ''cgroupIdentityDigest''])
         else Inl (JournalError ''v2 is restricted to cgroup-covered resources''))
      else Inr allowed)"

definition filesystem_identity_check :: "pyval \<Rightarrow> pyval res" where
  "filesystem_identity_check v =
     bindE (journal_relative_path (fld v ''relativePath'')) (\<lambda>relative. retE
       [guardE (list_all (\<lambda>k. natural (fld v k)) [''device'', ''inode'', ''mode'', ''ctimeNs''])
          (JournalError ''filesystem identity is invalid''),
        journal_opaque (fld v ''ownershipToken'') ''filesystem ownership token'',
        guardE (hex_digest (fld v ''ownershipToken'')) (JournalError ''filesystem ownership token is invalid'')]
       (PDict (dset (the_Dict v) (lit ''relativePath'') relative)))"

definition cgroup_identity_check :: "pyval \<Rightarrow> pyval \<Rightarrow> pyval res" where
  "cgroup_identity_check schema v =
     bindE (journal_relative_path (fld v ''relativePath'')) (\<lambda>relative. retE
       [guardE (list_all (\<lambda>k. natural (fld v k)) [''device'', ''inode'', ''mode'']) (JournalError ''cgroup identity is invalid''),
        guardE (schema = pyl group_schema \<longrightarrow>
            exact_fields (fld v ''delegation'') root_identity_fields \<and>
            list_all (\<lambda>k. natural (fld (fld v ''delegation'') k)) root_identity_fields)
          (JournalError ''invalid cgroup delegation identity'')]
       (PDict (dset (the_Dict v) (lit ''relativePath'') relative)))"

definition process_identity_check :: "pyval \<Rightarrow> pyval res" where
  "process_identity_check v = retE
     [guardE (is_Int (fld v ''pid'') \<and> 0 < the_Int (fld v ''pid'')) (JournalError ''process PID observation is invalid''),
      journal_text (fld v ''startTime'') ''process start time'' max_string,
      journal_text (fld v ''bootId'') ''process boot identity'' max_string,
      journal_text (fld v ''cgroup'') ''process cgroup'' 1024] v"

definition complete_identity :: "pyval \<Rightarrow> pyval \<Rightarrow> string list \<Rightarrow> pyval \<Rightarrow> pyval res" where
  "complete_identity kind schema allowed v =
     bindE (guardE (set (keys v) = names allowed) (JournalError ''identity fields are incomplete'')) (\<lambda>_.
     if is_name kind [''filesystem'', ''retained_source''] then filesystem_identity_check v
     else if kind = pyl ''cgroup'' then cgroup_identity_check schema v
     else process_identity_check v)"

definition covered_process :: "pyval \<Rightarrow> unit res" where
  "covered_process v = seqE
     [journal_opaque (fld v ''cgroupResourceId'') ''covering cgroup resource'',
      guardE (hex_digest (fld v ''cgroupIdentityDigest'')) (JournalError ''invalid covering cgroup identity digest'')]"

definition validate_identity :: "pyval \<Rightarrow> pyval \<Rightarrow> pyval \<Rightarrow> pyval \<Rightarrow> pyval res" where
  "validate_identity kind phase v schema =
     bindE (guardE (is_Dict v) (JournalError ''identity must be an object'')) (\<lambda>_.
     bindE (identity_allowed kind schema) (\<lambda>allowed.
     let open_phase = is_name phase [''allocation_intent'', ''ambiguous''];
         covered = (schema = pyl group_schema \<and> kind = pyl ''process'') in
     bindE (guardE (set (keys v) \<subseteq> names allowed) (JournalError ''identity contains unknown fields'')) (\<lambda>_.
     if open_phase \<and> the_Dict v = [] \<and> \<not> covered then Inr (PDict [])
     else
       bindE (if covered then covered_process v else Inr ()) (\<lambda>_.
       if covered \<and> open_phase \<and> set (keys v) = names [''cgroupResourceId'', ''cgroupIdentityDigest''] then Inr v
       else complete_identity kind schema allowed v))))"

text \<open>\<^verbatim>\<open>any(...)\<close> over a test that may raise.\<close>

fun anyE :: "('a \<Rightarrow> bool res) \<Rightarrow> 'a list \<Rightarrow> bool res" where
  "anyE p [] = Inr False"
| "anyE p (x # xs) = bindE (p x) (\<lambda>b. if b then Inr True else anyE p xs)"

definition evidence_bad :: "pyval \<Rightarrow> bool res" where
  "evidence_bad v =
     (if v = PNone then Inr False
      else if \<not> is_Str v then Inr True
      else (case utf8_len (the_Str v) of None \<Rightarrow> Inl PyUnicodeError | Some n \<Rightarrow> Inr (4096 < n)))"

definition validate_evidence :: "pyval \<Rightarrow> pyval \<Rightarrow> pyval \<Rightarrow> unit res" where
  "validate_evidence kind phase evidence =
     (let settings = fld evidence ''settings''; counters = fld evidence ''counters'';
          lacks = JournalError ''cgroup cleanup evidence lacks observed quiescence'' in
      seqE
       [guardE (kind = pyl ''cgroup'' \<and> is_name phase [''cleanup_intent'', ''cleanup_failed'', ''reclaimed''] \<and>
          exact_fields evidence [''settings'', ''counters'']) (JournalError ''invalid cgroup cleanup evidence''),
        guardE (exact_fields settings cgroup_settings \<and> is_Dict counters \<and> set (keys counters) \<subseteq> names cgroup_counters) lacks,
        bindE (anyE evidence_bad (map snd (the_Dict settings) @ map snd (the_Dict counters))) (\<lambda>bad. guardE (\<not> bad) lacks),
        guardE (quiescent counters) lacks])"

definition validate_observation :: "pyval \<Rightarrow> unit res" where
  "validate_observation v = seqE
     [guardE (exact_fields v observation_fields) (JournalError ''observation fields are not closed''),
      in_setE (fld v ''status'') observation_statuses (JournalError ''invalid observation status''),
      journal_text (fld v ''attemptId'') ''recovery attempt'' max_string,
      whenE (fld v ''reasonCode'' \<noteq> PNone) (journal_text (fld v ''reasonCode'') ''reason code'' 128)]"

definition validate_observations :: "pyval \<Rightarrow> unit res" where
  "validate_observations v = bindE (guardE (is_List v \<and> length (the_List v) \<le> 64) (JournalError ''invalid observation list'')) (\<lambda>_.
     seqE (map validate_observation (the_List v)))"

definition record_fields :: "pyval \<Rightarrow> string list" where
  "record_fields v = top_fields @ (if fld v ''schema'' = pyl group_schema then [''cleanupEvidence''] else [])"

definition validate_head :: "pyval \<Rightarrow> pystr option \<Rightarrow> unit res" where
  "validate_head v expected_name = seqE
     [guardE (exact_fields v (record_fields v)) (JournalError ''record fields are not closed''),
      guardE (is_name (fld v ''schema'') [journal_schema, group_schema]) (JournalError ''unsupported journal version''),
      guardE (is_Int (fld v ''sequence'') \<and> 0 < the_Int (fld v ''sequence'')) (JournalError ''invalid record sequence''),
      journal_opaque (fld v ''controllerInstance'') ''controller instance'',
      journal_text (fld v ''bootId'') ''bootId'' max_string,
      journal_opaque (fld v ''sessionId'') ''session ID'',
      journal_opaque (fld v ''resourceId'') ''resource ID'',
      journal_opaque (fld v ''stage'') ''stage'',
      guardE (case expected_name of None \<Rightarrow> True | Some n \<Rightarrow> the_Str (fld v ''resourceId'') @ lit ''.json'' = n)
        (JournalError ''record filename does not match resource identity''),
      guardE (natural (fld v ''principalUid'')) (JournalError ''invalid principal UID''),
      guardE (is_name (fld v ''kind'') journal_kinds \<and> is_name (fld v ''phase'') journal_phases)
        (JournalError ''invalid resource kind or phase'')]"

definition validate_target :: "pyval \<Rightarrow> pyval res" where
  "validate_target v =
     (if v = PNone then Inr PNone
      else bindE (journal_relative_path v) (\<lambda>target. retE
        [guardE (startswith (the_Str target) (lit ''quarantine/reclaim-'')) (JournalError ''cleanup target is outside quarantine'')] target))"

definition validate_checksum :: "pyval \<Rightarrow> unit res" where
  "validate_checksum v =
     bindE (guardE (hex_digest (fld v ''checksum'')) (JournalError ''invalid checksum'')) (\<lambda>_.
     bindE (dumps_canonical (PDict (ddel (the_Dict v) (lit ''checksum'')))) (\<lambda>payload.
     guardE (PStr (sha256_hex payload) = fld v ''checksum'') (JournalError ''record checksum mismatch'')))"

definition validate_record :: "pyval \<Rightarrow> pystr option \<Rightarrow> pyval res" where
  "validate_record v expected_name =
     bindE (validate_head v expected_name) (\<lambda>_.
     bindE (validate_identity (fld v ''kind'') (fld v ''phase'') (fld v ''identity'') (fld v ''schema'')) (\<lambda>identity.
     bindE (seqE
       [whenE (fld v ''schema'' = pyl group_schema \<and> fld v ''cleanupEvidence'' \<noteq> PNone)
          (validate_evidence (fld v ''kind'') (fld v ''phase'') (fld v ''cleanupEvidence'')),
        guardE (is_Bool (fld v ''retainedRecoverable'')) (JournalError ''invalid retained policy''),
        guardE (exact_fields (fld v ''stateRoot'') root_identity_fields \<and>
            list_all (\<lambda>k. natural (fld (fld v ''stateRoot'') k)) root_identity_fields)
          (JournalError ''invalid state-root identity'')]) (\<lambda>_.
     bindE (validate_target (fld v ''cleanupTarget'')) (\<lambda>target. retE
       [guardE (fld v ''kind'' = pyl ''retained_source'' \<and> is_name (fld v ''phase'') [''cleanup_intent'', ''cleanup_failed'', ''reclaimed''] \<longrightarrow>
            the_Bool (fld v ''retainedRecoverable'')) (JournalError ''retained source cleanup lacks explicit policy''),
        validate_observations (fld v ''observations''),
        validate_checksum v]
       (PDict (dset (dset (the_Dict v) (lit ''identity'') identity) (lit ''cleanupTarget'') target))))))"

definition encode_record :: "pyval \<Rightarrow> bytes res" where
  "encode_record payload =
     bindE (dumps_canonical payload) (\<lambda>text.
     let body = PDict (dset (the_Dict payload) (lit ''checksum'') (PStr (sha256_hex text))) in
     bindE (validate_record body None) (\<lambda>_.
     bindE (dumps_canonical body) (\<lambda>encoded.
     retE [guardE (length encoded + 1 \<le> max_record_bytes) (JournalError ''record exceeds byte limit'')] (encoded @ [10]))))"

section \<open>Decoding\<close>

text \<open>\<^verbatim>\<open>_bounded_json\<close> threads the node budget; a key counts as a string one level down.\<close>

definition bounded_node :: "nat \<Rightarrow> nat \<Rightarrow> nat res" where
  "bounded_node depth budget =
     (if 10 < depth \<or> 2048 < budget + 1 then Inl (JournalError ''journal JSON exceeds structural bounds'') else Inr (budget + 1))"

definition bounded_string :: "pystr \<Rightarrow> unit res" where
  "bounded_string s = (case utf8_len s of None \<Rightarrow> Inl PyUnicodeError
     | Some n \<Rightarrow> guardE (n \<le> 4096) (JournalError ''journal string exceeds bounds''))"

fun bounded_json :: "nat \<Rightarrow> pyval \<Rightarrow> nat \<Rightarrow> nat res"
  and bounded_list :: "nat \<Rightarrow> pyval list \<Rightarrow> nat \<Rightarrow> nat res"
  and bounded_dict :: "nat \<Rightarrow> (pystr \<times> pyval) list \<Rightarrow> nat \<Rightarrow> nat res" where
  "bounded_json depth v budget =
     bindE (bounded_node depth budget) (\<lambda>b.
     case v of
       PNone \<Rightarrow> Inr b
     | PBool x \<Rightarrow> Inr b
     | PInt i \<Rightarrow> retE [guardE (\<bar>i\<bar> \<le> 2 ^ 63 - 1) (JournalError ''journal integer exceeds bounds'')] b
     | PStr s \<Rightarrow> retE [bounded_string s] b
     | PList xs \<Rightarrow> bounded_list (depth + 1) xs b
     | PDict d \<Rightarrow> bounded_dict (depth + 1) d b
     | PFloat t \<Rightarrow> Inl (JournalError ''journal JSON type is unsupported''))"
| "bounded_list depth [] b = Inr b"
| "bounded_list depth (x # xs) b = bindE (bounded_json depth x b) (\<lambda>b'. bounded_list depth xs b')"
| "bounded_dict depth [] b = Inr b"
| "bounded_dict depth ((k, v) # d) b =
     bindE (bounded_node depth b) (\<lambda>b1. bindE (bounded_string k) (\<lambda>_.
     bindE (bounded_json depth v b1) (\<lambda>b2. bounded_dict depth d b2)))"

definition malformed :: "pyexc \<Rightarrow> bool" where
  "malformed e \<longleftrightarrow> e = PyUnicodeError \<or> e = JSONDecodeError \<or> e = PyRecursionError \<or> (case e of JournalError m \<Rightarrow> True | _ \<Rightarrow> False)"

definition decode_record :: "nat \<Rightarrow> bytes \<Rightarrow> pystr \<Rightarrow> pyval res" where
  "decode_record lim data name =
     bindE (guardE (data \<noteq> [] \<and> length data \<le> max_record_bytes \<and> last data = 10)
       (JournalError ''journal record is truncated or oversized'')) (\<lambda>_.
     bindE (case json_loads_bytes (JournalError ''duplicate JSON field'') lim data of
              Inl e \<Rightarrow> if malformed e then Inl (JournalError ''journal record is malformed'') else Inl e
            | Inr v \<Rightarrow> Inr v) (\<lambda>v.
     bindE (bounded_json 0 v 0) (\<lambda>_. validate_record v (Some name))))"

end
