(* ===== verification/RecoveryRoundTrip.thy ===== *)
theory RecoveryRoundTrip
  imports RecoveryRecord
begin

text \<open>
  Records survive the journal: validation never rewrites a record, a validated record is small, shallow and
  printable, and what \<open>encode_record\<close> writes \<open>decode_record\<close> reads back with its keys sorted.
\<close>

section \<open>Validation returns its argument\<close>

lemma journal_text_Inr [accept_simps]:
  "journal_text v label m = Inr u \<longleftrightarrow> is_Str v \<and> the_Str v \<noteq> [] \<and> encodable (the_Str v) \<and> utf8_size (the_Str v) \<le> m"
  by (auto simp: journal_text_def utf8_len_eq)

lemma journal_opaque_Inr [accept_simps]:
  "journal_opaque v label = Inr u \<longleftrightarrow> is_Str v \<and> the_Str v \<noteq> [] \<and> encodable (the_Str v) \<and> utf8_size (the_Str v) \<le> 128 \<and>
     hd (the_Str v) \<noteq> 46 \<and> list_all is_idchar (the_Str v)"
  by (auto simp: journal_opaque_def journal_text_Inr)

lemma journal_relative_path_Inr [accept_simps]:
  "journal_relative_path v = Inr w \<longleftrightarrow> w = v \<and> is_Str v \<and> the_Str v \<noteq> [] \<and> encodable (the_Str v) \<and> utf8_size (the_Str v) \<le> max_string \<and>
     \<not> startswith (the_Str v) [slash] \<and> \<not> list_ex bad_part (psplit slash (the_Str v))"
proof -
  have "pp_str (the_Str v) = the_Str v"
    if "\<not> startswith (the_Str v) [slash]" "\<not> list_ex bad_part (psplit slash (the_Str v))"
    using pp_relative_canonical [OF that(1)] that(2) by (auto simp: list_ex_iff bad_part_def)
  then show ?thesis by (cases v) (auto simp: journal_relative_path_def bindE_eq_Inr journal_text_Inr Let_def)
qed

lemma dset_same: "map_of d k = Some v \<Longrightarrow> dset d k v = d"
  by (induction d) (auto split: if_splits)

lemma dset_fld: "is_Dict v \<Longrightarrow> lit k \<in> set (keys v) \<Longrightarrow> PDict (dset (the_Dict v) (lit k) (fld v k)) = v"
  using has_iff [of v k] by (cases v) (auto simp: has_def fld_def dset_same split: option.splits)

lemma table_get_fields [simp]:
  "table_get identity_fields (pyl ''filesystem'') = [''relativePath'', ''device'', ''inode'', ''mode'', ''ctimeNs'', ''ownershipToken'']"
  "table_get identity_fields (pyl ''retained_source'') = [''relativePath'', ''device'', ''inode'', ''mode'', ''ctimeNs'', ''ownershipToken'']"
  "table_get identity_fields (pyl ''process'') = [''pid'', ''startTime'', ''bootId'', ''cgroup'']"
  "table_get identity_fields (pyl ''cgroup'') = [''relativePath'', ''device'', ''inode'', ''mode'']"
  by (simp_all add: table_get_def identity_fields_def)

lemma filesystem_identity_check_Inr:
  "filesystem_identity_check v = Inr w \<Longrightarrow> is_Dict v \<Longrightarrow> lit ''relativePath'' \<in> set (keys v) \<Longrightarrow> w = v"
  by (auto simp: filesystem_identity_check_def bindE_eq_Inr journal_relative_path_Inr dset_fld)

lemma cgroup_identity_check_Inr:
  "cgroup_identity_check schema v = Inr w \<Longrightarrow> is_Dict v \<Longrightarrow> lit ''relativePath'' \<in> set (keys v) \<Longrightarrow> w = v"
  by (auto simp: cgroup_identity_check_def bindE_eq_Inr journal_relative_path_Inr dset_fld)

lemma identity_allowed_relative:
  assumes "identity_allowed kind schema = Inr allowed" "is_name kind journal_kinds" "kind \<noteq> pyl ''process''"
  shows "''relativePath'' \<in> set allowed"
  using assms by (auto simp: identity_allowed_def Let_def journal_kinds_def split: if_splits)

lemma complete_identity_Inr:
  assumes "complete_identity kind schema allowed v = Inr w" "identity_allowed kind schema = Inr allowed" "is_name kind journal_kinds" "is_Dict v"
  shows "w = v"
proof (cases "kind = pyl ''process''")
  case True
  then show ?thesis using assms(1) by (simp add: complete_identity_def bindE_eq_Inr process_identity_check_def)
next
  case False
  with assms(2,3) have "''relativePath'' \<in> set allowed" by (rule identity_allowed_relative)
  moreover have "set (keys v) = names allowed" using assms(1) by (simp add: complete_identity_def bindE_eq_Inr)
  ultimately have rel: "lit ''relativePath'' \<in> set (keys v)" by simp
  have "kind = pyl ''filesystem'' \<or> kind = pyl ''retained_source'' \<or> kind = pyl ''cgroup''"
    using assms(3) False by (auto simp: journal_kinds_def)
  with assms(1) have "filesystem_identity_check v = Inr w \<or> cgroup_identity_check schema v = Inr w"
    by (auto simp: complete_identity_def bindE_eq_Inr)
  with rel assms(4) show ?thesis using filesystem_identity_check_Inr cgroup_identity_check_Inr by blast
qed

lemma validate_identity_Inr:
  assumes "validate_identity kind phase v schema = Inr w" "is_name kind journal_kinds"
  shows "w = v"
proof -
  from assms(1) obtain allowed where v: "is_Dict v" and a: "identity_allowed kind schema = Inr allowed"
    and w: "w = PDict [] \<and> the_Dict v = [] \<or> w = v \<or> complete_identity kind schema allowed v = Inr w"
    by (auto simp: validate_identity_def bindE_eq_Inr Let_def split: if_splits)
  show ?thesis using w complete_identity_Inr [OF _ a assms(2) v] v by (cases v) auto
qed

lemma validate_target_Inr: "validate_target v = Inr w \<Longrightarrow> w = v"
  by (auto simp: validate_target_def bindE_eq_Inr journal_relative_path_Inr split: if_splits)

lemma validate_head_fields: "validate_head v n = Inr u \<Longrightarrow> exact_fields v (record_fields v) \<and> is_name (fld v ''kind'') journal_kinds"
  by (simp add: validate_head_def)

lemma validate_record_Inr:
  assumes "validate_record v n = Inr w"
  shows "w = v"
proof -
  from assms obtain i t where h: "validate_head v n = Inr ()"
    and i: "validate_identity (fld v ''kind'') (fld v ''phase'') (fld v ''identity'') (fld v ''schema'') = Inr i"
    and t: "validate_target (fld v ''cleanupTarget'') = Inr t"
    and w: "w = PDict (dset (dset (the_Dict v) (lit ''identity'') i) (lit ''cleanupTarget'') t)"
    by (auto simp: validate_record_def bindE_eq_Inr)
  have f: "is_Dict v" "set (keys v) = names (record_fields v)" "is_name (fld v ''kind'') journal_kinds"
    using validate_head_fields [OF h] by (auto simp: exact_fields_def)
  have "lit ''identity'' \<in> set (keys v)" "lit ''cleanupTarget'' \<in> set (keys v)"
    by (simp_all add: f(2) record_fields_def top_fields_def)
  then show ?thesis
    using dset_fld [OF f(1), of "''identity''"] dset_fld [OF f(1), of "''cleanupTarget''"]
      validate_identity_Inr [OF i f(3)] validate_target_Inr [OF t] f(1) by (cases v) (auto simp: w)
qed

section \<open>Size and shape\<close>

text \<open>No floats, no lone surrogates, and strings within the decoder's bound.\<close>

fun tame :: "pyval \<Rightarrow> bool" where
  "tame (PFloat t) = False"
| "tame (PStr s) = (encodable s \<and> utf8_size s \<le> 4096)"
| "tame (PList xs) = (\<forall>x \<in> set xs. tame x)"
| "tame (PDict d) = (distinct (map fst d) \<and> (\<forall>kv \<in> set d. encodable (fst kv) \<and> utf8_size (fst kv) \<le> 4096 \<and> tame (snd kv)))"
| "tame _ = True"

text \<open>The nodes \<open>bounded_json\<close> counts.\<close>

fun jnodes :: "pyval \<Rightarrow> nat" where
  "jnodes (PList xs) = 1 + sum_list (map jnodes xs)"
| "jnodes (PDict d) = 1 + sum_list (map (\<lambda>(k, v). 1 + jnodes v) d)"
| "jnodes _ = 1"

lemma tame_jprintable: "tame v \<Longrightarrow> jints ok v \<Longrightarrow> jprintable ok v"
  by (induction v rule: pyval_induct) (auto simp: list_all_iff)

lemma tame_jstrings: "tame v \<Longrightarrow> wf_pyval v \<Longrightarrow> jstrings scalar_char v"
  by (induction v rule: pyval_induct)
    (auto simp: list_all_iff scalar_char_def wf_pystr_def encodable_def list_ex_iff)

abbreviation journal_int :: "int \<Rightarrow> bool" where
  "journal_int i \<equiv> \<bar>i\<bar> \<le> 2 ^ 63 - 1"

lemma bounded_json_tame:
  "tame v \<Longrightarrow> jints journal_int v \<Longrightarrow> d + jdepth v \<le> 10 \<Longrightarrow> b + jnodes v \<le> 2048 \<Longrightarrow> bounded_json d v b = Inr (b + jnodes v)"
  "\<forall>x \<in> set xs. tame x \<and> jints journal_int x \<and> d + jdepth x \<le> 10 \<Longrightarrow> b + sum_list (map jnodes xs) \<le> 2048 \<Longrightarrow>
     bounded_list d xs b = Inr (b + sum_list (map jnodes xs))"
  "\<forall>kv \<in> set kvs. encodable (fst kv) \<and> utf8_size (fst kv) \<le> 4096 \<and> tame (snd kv) \<and> jints journal_int (snd kv) \<and>
     d + jdepth (snd kv) \<le> 10 \<Longrightarrow> b + sum_list (map (\<lambda>(k, v). 1 + jnodes v) kvs) \<le> 2048 \<Longrightarrow>
     bounded_dict d kvs b = Inr (b + sum_list (map (\<lambda>(k, v). 1 + jnodes v) kvs))"
proof (induction d v b and d xs b and d kvs b rule: bounded_json_bounded_list_bounded_dict.induct)
  case (1 depth v budget)
  have n: "bounded_node depth budget = Inr (budget + 1)"
    using 1(5,6) by (cases v) (auto simp: bounded_node_def)
  show ?case
  proof (cases v)
    case (PList xs)
    have "depth + 1 + jdepth x \<le> 10" if "x \<in> set xs" for x
      using 1(5) maxl_ge_mem [of "jdepth x" "map jdepth xs"] that by (auto simp: PList)
    then show ?thesis using 1(1) [OF n PList] 1(3-6) n by (simp add: PList list_all_iff)
  next
    case (PDict d)
    have "depth + 1 + jdepth (snd kv) \<le> 10" if "kv \<in> set d" for kv
      using 1(5) maxl_ge_mem [of "jdepth (snd kv)" "map (\<lambda>kv. jdepth (snd kv)) d"] that by (auto simp: PDict)
    then show ?thesis using 1(2) [OF n PDict] 1(3-6) n by (simp add: PDict list_all_iff case_prod_unfold)
  qed (use n 1 in \<open>auto simp: bounded_string_def utf8_len_eq retE_def\<close>)
next
  case (5 depth k v d b)
  have n: "bounded_node depth b = Inr (b + 1)" using 5(3,4) by (auto simp: bounded_node_def)
  have s: "bounded_string k = Inr ()" using 5(3) by (simp add: bounded_string_def utf8_len_eq)
  have "bounded_json depth v (b + 1) = Inr (b + 1 + jnodes v)" using 5(1) [OF n s] 5(3,4) by simp
  then show ?case using 5(2) [OF n s] 5(3,4) n s by simp
qed auto

lemma tame_sort_keys [simp]: "tame (sort_keys v) \<longleftrightarrow> tame v"
proof (induction v rule: pyval_induct)
  case (PDict d)
  have "distinct (map fst (sort_items d)) \<longleftrightarrow> distinct (map fst d)" by (rule distinct_sort_items)
  with PDict show ?case by (auto simp del: distinct_sort_items simp: case_prod_unfold)
qed auto

lemma jints_sort_keys [simp]: "jints ok (sort_keys v) \<longleftrightarrow> jints ok v"
  by (induction v rule: pyval_induct) (auto simp: list_all_iff case_prod_unfold)

lemma jnodes_sort_keys [simp]: "jnodes (sort_keys v) = jnodes v"
proof (induction v rule: pyval_induct)
  case (PList xs)
  then show ?case by (simp add: comp_def cong: map_cong)
next
  case (PDict d)
  have "mset (map (\<lambda>(k, v). 1 + jnodes v) (sort_items d)) = mset (map (\<lambda>(k, v). 1 + jnodes v) d)"
    using PDict by (auto simp: image_mset.compositionality comp_def case_prod_unfold intro!: image_mset_cong)
  then have "sum_list (map (\<lambda>(k, v). 1 + jnodes v) (sort_items d)) = sum_list (map (\<lambda>(k, v). 1 + jnodes v) d)"
    by (metis sum_mset_sum_list)
  then show ?case by simp
qed auto

lemma wf_sort_keys [simp]: "wf_pyval (sort_keys v) \<longleftrightarrow> wf_pyval v"
proof (induction v rule: pyval_induct)
  case (PDict d)
  have "distinct (map fst (sort_items d)) \<longleftrightarrow> distinct (map fst d)" by (rule distinct_sort_items)
  with PDict show ?case by (auto simp del: distinct_sort_items simp: case_prod_unfold)
qed auto

section \<open>A validated record is small\<close>

definition small :: "nat \<Rightarrow> nat \<Rightarrow> pyval \<Rightarrow> bool" where
  "small n m v \<longleftrightarrow> tame v \<and> jdepth v \<le> n \<and> jnodes v \<le> m"

lemma small_leaf:
  "is_Int v \<Longrightarrow> 1 \<le> m \<Longrightarrow> small n m v" "is_Bool v \<Longrightarrow> 1 \<le> m \<Longrightarrow> small n m v" "v = PNone \<Longrightarrow> 1 \<le> m \<Longrightarrow> small n m v"
  "is_Str v \<Longrightarrow> encodable (the_Str v) \<Longrightarrow> utf8_size (the_Str v) \<le> 4096 \<Longrightarrow> 1 \<le> m \<Longrightarrow> small n m v"
  by (cases v; simp add: small_def)+

lemma small_mono: "small n m v \<Longrightarrow> n \<le> n' \<Longrightarrow> m \<le> m' \<Longrightarrow> small n' m' v"
  by (auto simp: small_def)

lemma lit_char_bound: "c \<in> set (lit k) \<Longrightarrow> c < 256"
  by (auto simp: lit_def)

lemma lit_encodable: "encodable (lit k)"
  using lit_char_bound [of _ k] by (force simp: encodable_def list_ex_iff is_surrogate_def)

lemma lit_utf8_size: "utf8_size (lit k) \<le> 2 * length k"
proof -
  have "utf8_size s \<le> 2 * length s" if "\<forall>c \<in> set s. c < 256" for s
    using that by (induction s) (auto simp: utf8_char_def)
  from this [of "lit k"] show ?thesis using lit_char_bound by simp
qed

lemma jnodes_dict:
  assumes "is_Dict v" "distinct (keys v)" "set (keys v) \<subseteq> names ks" "distinct ks"
  shows "jnodes v \<le> 1 + (\<Sum>k \<leftarrow> ks. 1 + jnodes (fld v k))"
proof (cases v)
  case (PDict d)
  then have d: "distinct (map fst d)" "fst ` set d \<subseteq> lit ` set ks" using assms by auto
  have "sum_list (map (\<lambda>(k, v). 1 + jnodes v) d) = (\<Sum>kv \<in> set d. 1 + jnodes (snd kv))"
    using d(1) by (simp add: sum_list_distinct_conv_sum_set distinct_map case_prod_unfold)
  also have "\<dots> = (\<Sum>k \<in> fst ` set d. 1 + jnodes (the (map_of d k)))"
    using d(1) by (subst sum.reindex) (auto simp: distinct_map intro!: sum.cong)
  also have "\<dots> \<le> (\<Sum>k \<in> lit ` set ks. 1 + jnodes (case map_of d k of None \<Rightarrow> PNone | Some x \<Rightarrow> x))"
  proof -
    have "(\<Sum>k \<in> fst ` set d. 1 + jnodes (the (map_of d k))) =
        (\<Sum>k \<in> fst ` set d. 1 + jnodes (case map_of d k of None \<Rightarrow> PNone | Some x \<Rightarrow> x))"
      using d(1) by (intro sum.cong) auto
    also have "\<dots> \<le> (\<Sum>k \<in> lit ` set ks. 1 + jnodes (case map_of d k of None \<Rightarrow> PNone | Some x \<Rightarrow> x))"
      using d(2) by (intro sum_mono2) auto
    finally show ?thesis .
  qed
  also have "\<dots> = (\<Sum>k \<in> set ks. 1 + jnodes (fld v k))"
    by (subst sum.reindex) (auto simp: inj_on_def fld_def PDict)
  also have "\<dots> = (\<Sum>k \<leftarrow> ks. 1 + jnodes (fld v k))"
    using assms(4) by (simp add: sum_list_distinct_conv_sum_set)
  finally show ?thesis by (simp add: PDict)
qed (use assms in auto)

lemma small_dict:
  assumes "is_Dict v" "distinct (keys v)" "set (keys v) \<subseteq> names (map fst kms)" "distinct (map fst kms)"
    and each: "\<And>k m. (k, m) \<in> set kms \<Longrightarrow> length k \<le> 2048 \<and> small n m (fld v k)"
  shows "small (Suc n) (1 + (\<Sum>(k, m) \<leftarrow> kms. 1 + m)) v"
proof (cases v)
  case (PDict d)
  have val: "(\<exists>k m. (k, m) \<in> set kms \<and> fst kv = lit k \<and> snd kv = fld v k)" if "kv \<in> set d" for kv
  proof -
    have "fst kv \<in> set (keys v)" using that by (auto simp: PDict)
    then obtain k m where k: "(k, m) \<in> set kms" "fst kv = lit k" using assms(3) by auto
    moreover have "map_of d (fst kv) = Some (snd kv)" using assms(2) that by (simp add: PDict)
    ultimately show ?thesis by (auto simp: fld_def PDict)
  qed
  have t: "tame v"
  proof -
    have "encodable (fst kv) \<and> utf8_size (fst kv) \<le> 4096 \<and> tame (snd kv)" if kv: "kv \<in> set d" for kv
    proof -
      obtain k m where k: "(k, m) \<in> set kms" "fst kv = lit k" "snd kv = fld v k" using val [OF kv] by auto
      show ?thesis using each [OF k(1)] lit_utf8_size [of k] by (auto simp: k lit_encodable small_def)
    qed
    then show ?thesis using assms(2) by (auto simp: PDict)
  qed
  have "jdepth (snd kv) \<le> n" if "kv \<in> set d" for kv
    using val [OF that] each by (auto simp: small_def)
  then have "jdepth v \<le> Suc n" by (auto simp: PDict maxl_le_iff)
  moreover have "jnodes v \<le> 1 + (\<Sum>(k, m) \<leftarrow> kms. 1 + m)"
  proof -
    have "jnodes v \<le> 1 + (\<Sum>k \<leftarrow> map fst kms. 1 + jnodes (fld v k))" using jnodes_dict [OF assms(1-4)] .
    also have "(\<Sum>k \<leftarrow> map fst kms. 1 + jnodes (fld v k)) \<le> (\<Sum>(k, m) \<leftarrow> kms. 1 + m)"
      unfolding map_map by (rule sum_list_mono) (use each in \<open>auto simp: small_def\<close>)
    finally show ?thesis by simp
  qed
  ultimately show ?thesis using t by (simp add: small_def)
qed (use assms in auto)

text \<open>The form in which it is used: the bounds of the fields in the order of their names.\<close>

lemma small_fields:
  assumes "exact_fields v ks \<or> is_Dict v \<and> set (keys v) \<subseteq> names ks" "wf_pyval v" "distinct ks" "list_all (\<lambda>k. length k \<le> 2048) ks"
    and "list_all2 (\<lambda>k m. small n m (fld v k)) ks ms" "1 + sum_list ms + length ms \<le> t"
  shows "small (Suc n) t v"
proof -
  have len: "length ms = length ks" using list_all2_lengthD [OF assms(5)] by simp
  have sum: "(\<Sum>(k, m) \<leftarrow> zip ks ms. 1 + m) = sum_list ms + length ms"
    using len
  proof (induction ks arbitrary: ms)
    case (Cons k ks)
    then show ?case by (cases ms) auto
  qed simp
  have "small (Suc n) (1 + (\<Sum>(k, m) \<leftarrow> zip ks ms. 1 + m)) v"
  proof (rule small_dict)
    show "is_Dict v" "set (keys v) \<subseteq> names (map fst (zip ks ms))" using assms(1) len by (auto simp: exact_fields_def)
    then show "distinct (keys v)" using assms(2) by (cases v) auto
    show "distinct (map fst (zip ks ms))" using assms(3) len by simp
    show "length k \<le> 2048 \<and> small n m (fld v k)" if "(k, m) \<in> set (zip ks ms)" for k m
      using that assms(4,5) by (auto simp: list_all_iff list_all2_iff dest: set_zip_leftD)
  qed
  then show ?thesis unfolding sum by (rule small_mono) (use assms(6) in simp_all)
qed

lemma wf_fld: "wf_pyval v \<Longrightarrow> wf_pyval (fld v k)"
  by (cases v) (auto simp: fld_def split: option.splits dest: map_of_SomeD)

lemma small_text: "journal_text v label m = Inr u \<Longrightarrow> m \<le> 4096 \<Longrightarrow> small n (Suc m') v"
  by (auto simp: journal_text_Inr intro: small_leaf)

lemma small_opaque: "journal_opaque v label = Inr u \<Longrightarrow> small n (Suc m') v"
  by (auto simp: journal_opaque_Inr intro: small_leaf)

lemma small_path: "journal_relative_path v = Inr u \<Longrightarrow> small n (Suc m') v"
  by (auto simp: journal_relative_path_Inr max_string_def intro: small_leaf)

lemma small_digest: "hex_digest v \<Longrightarrow> small n (Suc m') v"
  using re_hex_ascii [of 64 "the_Str v"] by (auto simp: hex_digest_def re_hex_def intro!: small_leaf(4) ascii_encodable simp: ascii_utf8_size)

lemma small_natural: "natural v \<Longrightarrow> small n (Suc m') v"
  by (auto simp: natural_def intro: small_leaf)

lemma small_name: "is_name v ks \<Longrightarrow> list_all (\<lambda>k. length k \<le> 2048) ks \<Longrightarrow> small n (Suc m') v"
  by (auto simp: list_all_iff lit_encodable intro!: small_leaf(4) order_trans [OF lit_utf8_size])

lemmas small_values = small_text small_opaque small_path small_digest small_natural small_leaf

lemma small_filesystem_identity:
  assumes "filesystem_identity_check v = Inr w" "exact_fields v [''relativePath'', ''device'', ''inode'', ''mode'', ''ctimeNs'', ''ownershipToken'']"
    "wf_pyval v"
  shows "small (Suc 0) 25 v"
proof (rule small_fields [OF disjI1 [OF assms(2)] assms(3), where ms = "[1, 1, 1, 1, 1, 1]"])
  have "natural (fld v ''device'')" "natural (fld v ''inode'')" "natural (fld v ''mode'')" "natural (fld v ''ctimeNs'')"
    "hex_digest (fld v ''ownershipToken'')" "\<exists>u. journal_relative_path (fld v ''relativePath'') = Inr u"
    using assms(1) by (auto simp: filesystem_identity_check_def bindE_eq_Inr)
  then show "list_all2 (\<lambda>k m. small 0 m (fld v k)) [''relativePath'', ''device'', ''inode'', ''mode'', ''ctimeNs'', ''ownershipToken'']
      [1, 1, 1, 1, 1, 1]"
    by (auto simp: small_natural small_digest small_path)
qed simp_all

lemma small_root_identity:
  assumes "exact_fields v root_identity_fields" "list_all (\<lambda>k. natural (fld v k)) root_identity_fields" "wf_pyval v"
  shows "small (Suc 0) 7 v"
  by (rule small_fields [OF disjI1 [OF assms(1)] assms(3), where ms = "[1, 1, 1]"])
    (use assms(2) in \<open>simp_all add: root_identity_fields_def small_natural\<close>)

lemma small_cgroup_identity:
  assumes "cgroup_identity_check schema v = Inr w" "wf_pyval v"
    "exact_fields v ([''relativePath'', ''device'', ''inode'', ''mode''] @ (if schema = pyl group_schema then [''delegation''] else []))"
  shows "small (Suc (Suc 0)) 25 v"
proof -
  have n: "natural (fld v ''device'')" "natural (fld v ''inode'')" "natural (fld v ''mode'')"
    "\<exists>u. journal_relative_path (fld v ''relativePath'') = Inr u"
    using assms(1) by (auto simp: cgroup_identity_check_def bindE_eq_Inr)
  then have four: "list_all2 (\<lambda>k m. small 1 m (fld v k)) [''relativePath'', ''device'', ''inode'', ''mode''] [1, 1, 1, 1]"
    by (auto simp: small_natural small_digest small_path)
  show ?thesis
  proof (cases "schema = pyl group_schema")
    case True
    have "small (Suc 0) 7 (fld v ''delegation'')"
      using assms(1) True wf_fld [OF assms(2)] by (intro small_root_identity) (auto simp: cgroup_identity_check_def bindE_eq_Inr)
    with four have "list_all2 (\<lambda>k m. small 1 m (fld v k)) ([''relativePath'', ''device'', ''inode'', ''mode''] @ [''delegation'']) ([1, 1, 1, 1] @ [7])"
      by (intro list_all2_appendI) simp_all
    then show ?thesis
      using small_fields [OF disjI1 [OF assms(3)] assms(2), of 1 "[1, 1, 1, 1] @ [7]" 25] by (simp add: True)
  next
    case False
    then show ?thesis
      using small_fields [OF disjI1 [OF assms(3)] assms(2), of 1 "[1, 1, 1, 1]" 25] four by simp
  qed
qed

lemma small_process_identity:
  assumes "process_identity_check v = Inr w" "wf_pyval v" "covered \<Longrightarrow> covered_process v = Inr ()"
    "exact_fields v ([''pid'', ''startTime'', ''bootId'', ''cgroup''] @ (if covered then [''cgroupResourceId'', ''cgroupIdentityDigest''] else []))"
  shows "small (Suc 0) 25 v"
proof -
  have "is_Int (fld v ''pid'')" "journal_text (fld v ''startTime'') ''process start time'' max_string = Inr ()"
    "journal_text (fld v ''bootId'') ''process boot identity'' max_string = Inr ()"
    "journal_text (fld v ''cgroup'') ''process cgroup'' 1024 = Inr ()"
    using assms(1) by (auto simp: process_identity_check_def)
  then have four: "list_all2 (\<lambda>k m. small 0 m (fld v k)) [''pid'', ''startTime'', ''bootId'', ''cgroup''] [1, 1, 1, 1]"
    by (simp add: small_leaf small_text [where m = max_string] small_text [where m = 1024] max_string_def)
  show ?thesis
  proof (cases covered)
    case True
    have "journal_opaque (fld v ''cgroupResourceId'') ''covering cgroup resource'' = Inr ()" "hex_digest (fld v ''cgroupIdentityDigest'')"
      using assms(3) [OF True] by (simp_all add: covered_process_def)
    then have "list_all2 (\<lambda>k m. small 0 m (fld v k)) [''cgroupResourceId'', ''cgroupIdentityDigest''] [1, 1]"
      by (simp add: small_opaque small_digest)
    then have "list_all2 (\<lambda>k m. small 0 m (fld v k))
        ([''pid'', ''startTime'', ''bootId'', ''cgroup''] @ [''cgroupResourceId'', ''cgroupIdentityDigest'']) ([1, 1, 1, 1] @ [1, 1])"
      using four by (intro list_all2_appendI)
    then show ?thesis
      using small_fields [OF disjI1 [OF assms(4)] assms(2), of 0 "[1, 1, 1, 1] @ [1, 1]" 25] by (simp add: True)
  next
    case False
    then show ?thesis
      using small_fields [OF disjI1 [OF assms(4)] assms(2), of 0 "[1, 1, 1, 1]" 25] four by simp
  qed
qed

lemma small_complete_identity:
  assumes c: "complete_identity kind schema allowed v = Inr w" and a: "identity_allowed kind schema = Inr allowed"
    and k: "is_name kind journal_kinds" and v: "is_Dict v" "wf_pyval v"
    and cov: "schema = pyl group_schema \<and> kind = pyl ''process'' \<Longrightarrow> covered_process v = Inr ()"
  shows "small (Suc (Suc 0)) 25 v"
proof -
  have f: "exact_fields v allowed" using c v(1) by (simp add: complete_identity_def bindE_eq_Inr exact_fields_def)
  consider (fs) "kind = pyl ''filesystem'' \<or> kind = pyl ''retained_source''" | (cg) "kind = pyl ''cgroup''" | (pr) "kind = pyl ''process''"
    using k by (auto simp: journal_kinds_def)
  then show ?thesis
  proof cases
    case fs
    then have "allowed = [''relativePath'', ''device'', ''inode'', ''mode'', ''ctimeNs'', ''ownershipToken'']"
      using a by (auto simp: identity_allowed_def Let_def split: if_splits)
    moreover have "filesystem_identity_check v = Inr w" using c fs by (auto simp: complete_identity_def bindE_eq_Inr)
    ultimately show ?thesis using small_filesystem_identity f v(2) small_mono by (metis le_SucI order_refl)
  next
    case cg
    then have "allowed = [''relativePath'', ''device'', ''inode'', ''mode''] @ (if schema = pyl group_schema then [''delegation''] else [])"
      using a by (auto simp: identity_allowed_def Let_def split: if_splits)
    moreover have "cgroup_identity_check schema v = Inr w" using c cg by (auto simp: complete_identity_def bindE_eq_Inr)
    ultimately show ?thesis using f v(2) by (intro small_cgroup_identity) auto
  next
    case pr
    then have "allowed = [''pid'', ''startTime'', ''bootId'', ''cgroup''] @
        (if schema = pyl group_schema then [''cgroupResourceId'', ''cgroupIdentityDigest''] else [])"
      using a by (auto simp: identity_allowed_def Let_def split: if_splits)
    moreover have "process_identity_check v = Inr w" using c pr by (auto simp: complete_identity_def bindE_eq_Inr)
    ultimately have "small (Suc 0) 25 v"
      using f v(2) cov pr by (intro small_process_identity [where covered = "schema = pyl group_schema"]) auto
    then show ?thesis by (rule small_mono) simp_all
  qed
qed

lemma small_identity:
  assumes "validate_identity kind phase v schema = Inr w" "is_name kind journal_kinds" "wf_pyval v"
  shows "small (Suc (Suc 0)) 25 v"
proof -
  let ?cov = "schema = pyl group_schema \<and> kind = pyl ''process''"
  from assms(1) obtain allowed where v: "is_Dict v" and a: "identity_allowed kind schema = Inr allowed"
    and w: "the_Dict v = [] \<or> (?cov \<longrightarrow> covered_process v = Inr ()) \<and>
      (?cov \<and> set (keys v) = names [''cgroupResourceId'', ''cgroupIdentityDigest''] \<or> complete_identity kind schema allowed v = Inr w)"
    by (auto simp: validate_identity_def bindE_eq_Inr Let_def split: if_splits)
  from w consider "the_Dict v = []" | (two) "covered_process v = Inr ()" "set (keys v) = names [''cgroupResourceId'', ''cgroupIdentityDigest'']"
    | (full) "?cov \<longrightarrow> covered_process v = Inr ()" "complete_identity kind schema allowed v = Inr w" by blast
  then show ?thesis
  proof cases
    case 1
    then show ?thesis using v by (cases v) (auto simp: small_def)
  next
    case two
    have "list_all2 (\<lambda>k m. small 0 m (fld v k)) [''cgroupResourceId'', ''cgroupIdentityDigest''] [1, 1]"
      using two(1) by (auto simp: covered_process_def small_digest intro: small_opaque)
    then have "small (Suc 0) 25 v"
      using small_fields [of v "[''cgroupResourceId'', ''cgroupIdentityDigest'']" 0 "[1, 1]" 25] two(2) v assms(3) by (simp add: exact_fields_def)
    then show ?thesis by (rule small_mono) simp_all
  next
    case full
    then show ?thesis using small_complete_identity [OF full(2) a assms(2) v assms(3)] by blast
  qed
qed

lemma anyE_False: "anyE p xs = Inr False \<longleftrightarrow> (\<forall>x \<in> set xs. p x = Inr False)"
  by (induction xs) (auto simp: bindE_eq_Inr)

lemma small_evidence_value: "evidence_bad v = Inr False \<Longrightarrow> small n (Suc m) v"
  by (auto simp: evidence_bad_def utf8_len_eq split: if_splits intro: small_leaf)

lemma small_string_dict:
  assumes "is_Dict v" "wf_pyval v" "set (keys v) \<subseteq> names ks" "distinct ks" "list_all (\<lambda>k. length k \<le> 2048) ks"
    "\<forall>x \<in> set (map snd (the_Dict v)). evidence_bad x = Inr False" "1 + 2 * length ks \<le> t"
  shows "small (Suc 0) t v"
proof (rule small_fields [where ms = "replicate (length ks) 1"])
  have "small 0 1 (fld v k)" for k
  proof (cases "has v k")
    case True
    then obtain d y where d: "v = PDict d" "map_of d (lit k) = Some y" using assms(1) by (cases v) (auto simp: has_def)
    then have "fld v k \<in> set (map snd (the_Dict v))" using map_of_SomeD [OF d(2)] by (force simp: fld_def)
    with assms(6) have "evidence_bad (fld v k) = Inr False" by blast
    then show ?thesis using small_evidence_value [of "fld v k" 0 0] by simp
  qed (simp add: fld_def has_def small_def)
  then show "list_all2 (\<lambda>k m. small 0 m (fld v k)) ks (replicate (length ks) 1)"
    by (simp add: list_all2_conv_all_nth)
qed (use assms in \<open>simp_all add: sum_list_replicate\<close>)

lemma small_evidence:
  assumes "validate_evidence kind phase v = Inr ()" "wf_pyval v"
  shows "small (Suc (Suc 0)) 40 v"
proof -
  have e: "exact_fields v [''settings'', ''counters'']" "exact_fields (fld v ''settings'') cgroup_settings" "is_Dict (fld v ''counters'')"
    "set (keys (fld v ''counters'')) \<subseteq> names cgroup_counters"
    "anyE evidence_bad (map snd (the_Dict (fld v ''settings'')) @ map snd (the_Dict (fld v ''counters''))) = Inr False"
    using assms(1) by (auto simp: validate_evidence_def Let_def bindE_eq_Inr)
  have "small (Suc 0) 10 (fld v ''settings'')"
    by (rule small_string_dict [where ks = cgroup_settings])
      (use e(2,5) wf_fld [OF assms(2)] in \<open>auto simp: exact_fields_def anyE_False cgroup_settings_def\<close>)
  moreover have "small (Suc 0) 20 (fld v ''counters'')"
    by (rule small_string_dict [where ks = cgroup_counters])
      (use e(3,4,5) wf_fld [OF assms(2)] in \<open>auto simp: anyE_False cgroup_counters_def\<close>)
  ultimately show ?thesis
    by (intro small_fields [OF disjI1 [OF e(1)] assms(2), where ms = "[10, 20]"]) simp_all
qed

lemma small_observation:
  assumes "validate_observation v = Inr ()" "wf_pyval v"
  shows "small (Suc 0) 7 v"
proof -
  have e: "exact_fields v observation_fields" "is_name (fld v ''status'') observation_statuses"
    "journal_text (fld v ''attemptId'') ''recovery attempt'' max_string = Inr ()"
    "fld v ''reasonCode'' \<noteq> PNone \<longrightarrow> journal_text (fld v ''reasonCode'') ''reason code'' 128 = Inr ()"
    using assms(1) by (simp_all add: validate_observation_def)
  have "small 0 1 (fld v ''reasonCode'')"
    using e(4) small_text [of "fld v ''reasonCode''" _ 128 _ 0 0] small_leaf(3) by (cases "fld v ''reasonCode'' = PNone") auto
  moreover have "small 0 1 (fld v ''status'')"
    using small_name [OF e(2), of 0 0] by (simp add: observation_statuses_def)
  moreover have "small 0 1 (fld v ''attemptId'')"
    using small_text [OF e(3), of 0 0] by (simp add: max_string_def)
  ultimately show ?thesis
    by (intro small_fields [OF disjI1 [OF e(1)] assms(2), where ms = "[1, 1, 1]"]) (simp_all add: observation_fields_def)
qed

lemma small_list:
  assumes "is_List v" "\<forall>x \<in> set (the_List v). small n m x"
  shows "small (Suc n) (1 + length (the_List v) * m) v"
proof (cases v)
  case (PList xs)
  have "sum_list (map jnodes xs) \<le> length xs * m"
    using sum_list_mono [of xs jnodes "\<lambda>_. m"] assms(2) by (simp add: PList small_def sum_list_triv)
  then show ?thesis using assms(2) by (auto simp: PList small_def maxl_le_iff)
qed (use assms in auto)

lemma small_observations:
  assumes "validate_observations v = Inr ()" "wf_pyval v"
  shows "small (Suc (Suc 0)) 449 v"
proof -
  have v: "is_List v" "length (the_List v) \<le> 64" "\<forall>x \<in> set (the_List v). small (Suc 0) 7 x"
    using assms by (auto simp: validate_observations_def bindE_eq_Inr seqE_map_Inr intro!: small_observation) (cases v; simp)
  show ?thesis by (rule small_mono [OF small_list [OF v(1,3)]]) (use v(2) in simp_all)
qed

definition record_checks :: "pyval \<Rightarrow> pystr option \<Rightarrow> bool" where
  "record_checks v n \<longleftrightarrow>
     validate_head v n = Inr () \<and>
     validate_identity (fld v ''kind'') (fld v ''phase'') (fld v ''identity'') (fld v ''schema'') = Inr (fld v ''identity'') \<and>
     (fld v ''schema'' = pyl group_schema \<and> fld v ''cleanupEvidence'' \<noteq> PNone \<longrightarrow>
        validate_evidence (fld v ''kind'') (fld v ''phase'') (fld v ''cleanupEvidence'') = Inr ()) \<and>
     is_Bool (fld v ''retainedRecoverable'') \<and>
     exact_fields (fld v ''stateRoot'') root_identity_fields \<and>
     list_all (\<lambda>k. natural (fld (fld v ''stateRoot'') k)) root_identity_fields \<and>
     validate_target (fld v ''cleanupTarget'') = Inr (fld v ''cleanupTarget'') \<and>
     (fld v ''kind'' = pyl ''retained_source'' \<and> is_name (fld v ''phase'') [''cleanup_intent'', ''cleanup_failed'', ''reclaimed''] \<longrightarrow>
        the_Bool (fld v ''retainedRecoverable'')) \<and>
     validate_observations (fld v ''observations'') = Inr () \<and> validate_checksum v = Inr ()"

lemma record_checksD: "validate_record v n = Inr w \<Longrightarrow> record_checks v n"
proof -
  assume a: "validate_record v n = Inr w"
  then obtain i t where h: "validate_head v n = Inr ()"
    and i: "validate_identity (fld v ''kind'') (fld v ''phase'') (fld v ''identity'') (fld v ''schema'') = Inr i"
    and t: "validate_target (fld v ''cleanupTarget'') = Inr t"
    by (auto simp: validate_record_def bindE_eq_Inr)
  have "is_name (fld v ''kind'') journal_kinds" using validate_head_fields [OF h] by simp
  note it = validate_identity_Inr [OF i this] validate_target_Inr [OF t]
  show ?thesis using a i t unfolding record_checks_def it
    by (simp add: validate_record_def bindE_eq_Inr)
qed

lemma record_checksI: "record_checks v n \<Longrightarrow> validate_record v n = Inr v"
proof -
  assume c: "record_checks v n"
  then have "\<exists>w. validate_record v n = Inr w" by (simp add: record_checks_def validate_record_def bindE_eq_Inr)
  then show ?thesis using validate_record_Inr by blast
qed

lemma small_record:
  assumes "record_checks v n" "wf_pyval v"
  shows "small (Suc (Suc (Suc 0))) 700 v"
proof -
  note c = assms(1) [unfolded record_checks_def]
  note h = c [THEN conjunct1, unfolded validate_head_def]
  have f: "exact_fields v (record_fields v)" using h by simp
  let ?ok = "\<lambda>k m. small (Suc (Suc 0)) m (fld v k)"
  have hd: "is_name (fld v ''schema'') [journal_schema, group_schema]" "is_Int (fld v ''sequence'')"
    "journal_opaque (fld v ''controllerInstance'') ''controller instance'' = Inr ()" "journal_text (fld v ''bootId'') ''bootId'' max_string = Inr ()"
    "natural (fld v ''principalUid'')" "journal_opaque (fld v ''sessionId'') ''session ID'' = Inr ()"
    "journal_opaque (fld v ''resourceId'') ''resource ID'' = Inr ()" "is_name (fld v ''kind'') journal_kinds"
    "is_name (fld v ''phase'') journal_phases" "journal_opaque (fld v ''stage'') ''stage'' = Inr ()"
    using h by simp_all
  have "?ok ''schema'' (Suc 0)" by (rule small_name [OF hd(1)]) (simp add: journal_schema_def group_schema_def)
  moreover have "?ok ''sequence'' (Suc 0)" by (rule small_leaf(1) [OF hd(2)]) simp
  moreover have "?ok ''controllerInstance'' (Suc 0)" by (rule small_opaque [OF hd(3)])
  moreover have "?ok ''bootId'' (Suc 0)" by (rule small_text [OF hd(4)]) (simp add: max_string_def)
  moreover have "?ok ''principalUid'' (Suc 0)" by (rule small_natural [OF hd(5)])
  moreover have "?ok ''sessionId'' (Suc 0)" by (rule small_opaque [OF hd(6)])
  moreover have "?ok ''resourceId'' (Suc 0)" by (rule small_opaque [OF hd(7)])
  moreover have "?ok ''kind'' (Suc 0)" by (rule small_name [OF hd(8)]) (simp add: journal_kinds_def)
  moreover have "?ok ''phase'' (Suc 0)" by (rule small_name [OF hd(9)]) (simp add: journal_phases_def)
  moreover have "?ok ''stage'' (Suc 0)" by (rule small_opaque [OF hd(10)])
  moreover have "?ok ''identity'' 25"
    by (rule small_identity [OF c [THEN conjunct2, THEN conjunct1] hd(8) wf_fld [OF assms(2)]])
  moreover have "?ok ''retainedRecoverable'' (Suc 0)" by (rule small_leaf(2)) (use c in simp_all)
  moreover have "?ok ''observations'' 449" by (rule small_observations [OF _ wf_fld [OF assms(2)]]) (use c in simp)
  moreover have "?ok ''stateRoot'' 7"
    by (rule small_mono [OF small_root_identity [OF _ _ wf_fld [OF assms(2)]]]) (use c in simp_all)
  moreover have "?ok ''cleanupTarget'' (Suc 0)"
    using c small_path small_leaf(3) by (cases "fld v ''cleanupTarget'' = PNone") (auto simp: validate_target_def bindE_eq_Inr)
  moreover have "?ok ''checksum'' (Suc 0)" by (rule small_digest) (use c in \<open>simp add: validate_checksum_def bindE_eq_Inr\<close>)
  ultimately have top: "list_all2 ?ok top_fields [1, 1, 1, 1, 1, 1, 1, 1, 1, 1, 25, 1, 449, 7, 1, 1]"
    by (simp add: top_fields_def)
  show ?thesis
  proof (cases "fld v ''schema'' = pyl group_schema")
    case True
    have "?ok ''cleanupEvidence'' 40"
      using c True small_evidence wf_fld [OF assms(2)] small_leaf(3) [of "fld v ''cleanupEvidence''" 40] by auto
    then have "list_all2 ?ok [''cleanupEvidence''] [40]" by simp
    with top have "list_all2 ?ok (top_fields @ [''cleanupEvidence'']) ([1, 1, 1, 1, 1, 1, 1, 1, 1, 1, 25, 1, 449, 7, 1, 1] @ [40])"
      by (rule list_all2_appendI)
    then have "list_all2 ?ok (record_fields v) ([1, 1, 1, 1, 1, 1, 1, 1, 1, 1, 25, 1, 449, 7, 1, 1] @ [40])"
      by (simp only: record_fields_def True simp_thms if_True)
    from small_fields [OF disjI1 [OF f] assms(2) _ _ this] show ?thesis by (simp add: record_fields_def top_fields_def)
  next
    case False
    then have "list_all2 ?ok (record_fields v) [1, 1, 1, 1, 1, 1, 1, 1, 1, 1, 25, 1, 449, 7, 1, 1]"
      using top by (simp add: record_fields_def)
    from small_fields [OF disjI1 [OF f] assms(2) _ _ this] show ?thesis by (simp add: record_fields_def top_fields_def)
  qed
qed

section \<open>Key order does not matter\<close>

lemma sort_keys_leaf [simp]:
  "sort_keys v = PStr s \<longleftrightarrow> v = PStr s" "sort_keys v = PNone \<longleftrightarrow> v = PNone" "is_Str (sort_keys v) \<longleftrightarrow> is_Str v"
  "is_Int (sort_keys v) \<longleftrightarrow> is_Int v" "is_Bool (sort_keys v) \<longleftrightarrow> is_Bool v"
  by (cases v; simp)+

lemma sort_keys_id: "is_Str v \<or> is_Int v \<or> is_Bool v \<or> v = PNone \<Longrightarrow> sort_keys v = v"
  by (cases v) auto

lemma is_name_sort [simp]: "sort_keys v \<in> pyl ` A \<longleftrightarrow> v \<in> pyl ` A"
  by (cases v) auto

lemma check_sort [simp]:
  "journal_text (sort_keys v) l m = journal_text v l m" "journal_opaque (sort_keys v) l = journal_opaque v l"
  "natural (sort_keys v) = natural v" "hex_digest (sort_keys v) = hex_digest v"
  "evidence_bad (sort_keys v) = evidence_bad v"
  by (cases v; simp add: journal_text_def journal_opaque_def natural_def hex_digest_def evidence_bad_def)+

lemma exact_fields_sort [simp]: "exact_fields (sort_keys v) ks \<longleftrightarrow> exact_fields v ks"
  by (simp add: exact_fields_def)

lemma path_sort: "journal_relative_path v = Inr w \<Longrightarrow> journal_relative_path (sort_keys v) = Inr v"
  by (simp add: journal_relative_path_Inr sort_keys_id)

lemma wf_distinct: "wf_pyval v \<Longrightarrow> distinct (keys v)"
  by (cases v) auto

lemma natural_fields_sort:
  assumes "exact_fields v ks" "wf_pyval v" "list_all (\<lambda>k. natural (fld v k)) ks"
  shows "list_all (\<lambda>k. natural (fld (sort_keys v) k)) ks"
  using assms fld_sort_keys [OF _ wf_distinct [OF assms(2)]] by (simp add: exact_fields_def)

lemma sort_items_Nil [simp]: "the_Dict (sort_keys v) = [] \<longleftrightarrow> the_Dict v = []" if "is_Dict v"
proof (cases v)
  case (PDict d)
  have "length (sort_items d) = length d" by simp
  then show ?thesis by (auto simp: PDict simp del: length_sort)
qed (use that in auto)

lemma dict_identity_sort:
  assumes "is_Dict v" "wf_pyval v" "lit k \<in> set (keys v)" "sort_keys (fld v k) = fld v k"
  shows "PDict (dset (the_Dict (sort_keys v)) (lit k) (fld v k)) = sort_keys v"
  using dset_fld [of "sort_keys v" k] fld_sort_keys [OF assms(1) wf_distinct [OF assms(2)], of k] assms by simp

lemma complete_identity_sort:
  assumes "complete_identity kind schema allowed v = Inr v" "is_Dict v" "wf_pyval v"
  shows "\<exists>w. complete_identity kind schema allowed (sort_keys v) = Inr w"
proof -
  note f = fld_sort_keys [OF assms(2) wf_distinct [OF assms(3)]]
  have fs: "\<exists>w. filesystem_identity_check (sort_keys v) = Inr w" if "filesystem_identity_check v = Inr v"
    using that by (auto simp: filesystem_identity_check_def bindE_eq_Inr f dest: path_sort)
  have cg: "\<exists>w. cgroup_identity_check schema (sort_keys v) = Inr w" if "cgroup_identity_check schema v = Inr v"
    using that natural_fields_sort [of "fld v ''delegation''"] wf_fld [OF assms(3)]
    by (auto simp: cgroup_identity_check_def bindE_eq_Inr f dest: path_sort)
  have pr: "\<exists>w. process_identity_check (sort_keys v) = Inr w" if "process_identity_check v = Inr v"
    using that by (cases "fld v ''pid''") (auto simp: process_identity_check_def f)
  show ?thesis using assms(1) fs cg pr by (auto simp: complete_identity_def bindE_eq_Inr split: if_splits)
qed

lemma covered_process_sort:
  "is_Dict v \<Longrightarrow> wf_pyval v \<Longrightarrow> covered_process (sort_keys v) = covered_process v"
  by (simp add: covered_process_def fld_sort_keys wf_distinct)

lemma branch_success:
  "bindE m (\<lambda>_. if c then Inr v else f v) = Inr v \<Longrightarrow> (f v = Inr v \<Longrightarrow> \<exists>w. f v' = Inr w) \<Longrightarrow>
     \<exists>w. bindE m (\<lambda>_. if c then Inr v' else f v') = Inr w"
  by (auto simp: bindE_eq_Inr split: if_splits)

lemma validate_identity_sort:
  assumes "validate_identity kind phase v schema = Inr v" "wf_pyval v"
  shows "\<exists>w. validate_identity kind phase (sort_keys v) schema = Inr w"
proof -
  have v: "is_Dict v" using assms(1) by (simp add: validate_identity_def bindE_eq_Inr)
  let ?cov = "schema = pyl group_schema \<and> kind = pyl ''process''" and ?open = "is_name phase [''allocation_intent'', ''ambiguous'']"
  obtain allowed where a: "identity_allowed kind schema = Inr allowed" and sub: "set (keys v) \<subseteq> names allowed"
    using assms(1) by (auto simp: validate_identity_def bindE_eq_Inr Let_def)
  note def = validate_identity_def Let_def a
  show ?thesis
  proof (cases "?open \<and> the_Dict v = [] \<and> \<not> ?cov")
    case True
    then show ?thesis using v sub by (simp only: def bindE_Inr guardE_simps keys_sort_keys sort_items_Nil sort_keys_cases simp_thms if_True) simp
  next
    case False
    then have body: "bindE (if ?cov then covered_process v else Inr ()) (\<lambda>_.
       if ?cov \<and> ?open \<and> set (keys v) = names [''cgroupResourceId'', ''cgroupIdentityDigest''] then Inr v
       else complete_identity kind schema allowed v) = Inr v"
      using assms(1) v sub by (simp only: def bindE_Inr guardE_simps simp_thms if_False)
    have "\<exists>w. bindE (if ?cov then covered_process (sort_keys v) else Inr ()) (\<lambda>_.
       if ?cov \<and> ?open \<and> set (keys (sort_keys v)) = names [''cgroupResourceId'', ''cgroupIdentityDigest''] then Inr (sort_keys v)
       else complete_identity kind schema allowed (sort_keys v)) = Inr w"
      unfolding covered_process_sort [OF v assms(2)] keys_sort_keys
      using body by (rule branch_success) (rule complete_identity_sort [OF _ v assms(2)])
    then show ?thesis
      using False v sub by (simp only: def bindE_Inr guardE_simps keys_sort_keys sort_items_Nil [OF v] sort_keys_cases simp_thms if_False)
  qed
qed

lemma map_snd_sort: "is_Dict v \<Longrightarrow> set (map snd (the_Dict (sort_keys v))) = sort_keys ` set (map snd (the_Dict v))"
  by (cases v) (auto simp: image_image case_prod_unfold)

lemma validate_evidence_sort:
  assumes "validate_evidence kind phase v = Inr ()" "wf_pyval v"
  shows "validate_evidence kind phase (sort_keys v) = Inr ()"
proof -
  have v: "exact_fields v [''settings'', ''counters'']" "exact_fields (fld v ''settings'') cgroup_settings" "is_Dict (fld v ''counters'')"
    "quiescent (fld v ''counters'')"
    "anyE evidence_bad (map snd (the_Dict (fld v ''settings'')) @ map snd (the_Dict (fld v ''counters''))) = Inr False"
    using assms(1) by (auto simp: validate_evidence_def Let_def bindE_eq_Inr)
  have f: "fld (sort_keys v) k = sort_keys (fld v k)" for k
    using v(1) by (intro fld_sort_keys wf_distinct assms(2)) (simp add: exact_fields_def)
  have d: "is_Dict (fld v ''settings'')" using v(2) by (simp add: exact_fields_def)
  have "fld (sort_keys (fld v ''counters'')) ''cgroup.events'' = sort_keys (fld (fld v ''counters'') ''cgroup.events'')"
    by (intro fld_sort_keys v(3) wf_distinct wf_fld assms(2))
  then have q: "quiescent (sort_keys (fld v ''counters''))"
    using v(4) by (cases "fld (fld v ''counters'') ''cgroup.events''") (auto simp: quiescent_def)
  have a: "anyE evidence_bad (map snd (the_Dict (sort_keys (fld v ''settings''))) @ map snd (the_Dict (sort_keys (fld v ''counters'')))) = Inr False"
    using v(5) map_snd_sort [OF d] map_snd_sort [OF v(3)] by (simp add: anyE_False ball_Un)
  show ?thesis using assms(1) q a by (simp add: validate_evidence_def Let_def bindE_eq_Inr f)
qed

lemma validate_observation_sort:
  assumes "validate_observation v = Inr ()" "wf_pyval v"
  shows "validate_observation (sort_keys v) = Inr ()"
proof -
  have "is_Dict v" using assms(1) by (simp add: validate_observation_def exact_fields_def)
  note f = fld_sort_keys [OF this wf_distinct [OF assms(2)]]
  show ?thesis using assms(1) by (simp add: validate_observation_def f)
qed

lemma validate_observations_sort:
  assumes "validate_observations v = Inr ()" "wf_pyval v"
  shows "validate_observations (sort_keys v) = Inr ()"
  using assms by (cases v) (auto simp: validate_observations_def bindE_eq_Inr seqE_map_Inr validate_observation_sort)

lemma sort_keys_idem [simp]: "sort_keys (sort_keys v) = sort_keys v"
proof (induction v rule: pyval_induct)
  case (PDict d)
  have "map (\<lambda>(k, v). (k, sort_keys v)) (sort_items d) = sort_items d"
  proof -
    have "(case kv of (k, v) \<Rightarrow> (k, sort_keys v)) = kv" if "kv \<in> set (sort_items d)" for kv
      using that PDict by auto
    then show ?thesis by (rule map_idI)
  qed
  moreover have "sort_key fst (sort_items d) = sort_items d" by (simp add: sort_key_id_if_sorted)
  ultimately show ?case by simp
qed auto

lemma canonical_text_sort [simp]: "canonical_text (sort_keys v) = canonical_text v"
  by (simp add: canonical_text_def)

lemma dumps_canonical_sort: "dumps_canonical (sort_keys v) = dumps_canonical v"
  by (simp add: dumps_canonical_def)

lemma ddel_sort: "is_Dict v \<Longrightarrow> PDict (ddel (the_Dict (sort_keys v)) k) = sort_keys (PDict (ddel (the_Dict v) k))"
proof (cases v)
  case (PDict d)
  have "filter (\<lambda>(k', v). k' \<noteq> k) (sort_items d) = sort_items (filter (\<lambda>(k', v). k' \<noteq> k) d)"
    by (simp add: filter_sort filter_map comp_def case_prod_unfold)
  then show ?thesis by (simp add: PDict ddel_def)
qed auto

lemma is_name_Str: "is_name v ks \<Longrightarrow> is_Str v"
  by auto

lemma record_checks_sort:
  assumes c: "record_checks v n" and wf: "wf_pyval v"
  shows "record_checks (sort_keys v) n"
proof -
  have e: "exact_fields v (record_fields v)" "is_name (fld v ''kind'') journal_kinds"
    using c by (auto simp: record_checks_def dest: validate_head_fields)
  have v: "is_Dict v" using e(1) by (simp add: exact_fields_def)
  note f = fld_sort_keys [OF v wf_distinct [OF wf]]
  have k: "sort_keys (fld v ''kind'') = fld v ''kind''" "sort_keys (fld v ''phase'') = fld v ''phase''" "sort_keys (fld v ''schema'') = fld v ''schema''"
    "sort_keys (fld v ''resourceId'') = fld v ''resourceId''" "sort_keys (fld v ''retainedRecoverable'') = fld v ''retainedRecoverable''"
    "sort_keys (fld v ''sequence'') = fld v ''sequence''" "sort_keys (fld v ''checksum'') = fld v ''checksum''"
  proof -
    have "is_name (fld v ''kind'') journal_kinds" "is_name (fld v ''phase'') journal_phases"
      "is_name (fld v ''schema'') [journal_schema, group_schema]"
      "journal_opaque (fld v ''resourceId'') ''resource ID'' = Inr ()" "is_Bool (fld v ''retainedRecoverable'')" "is_Int (fld v ''sequence'')"
      using c by (simp_all add: record_checks_def validate_head_def)
    moreover have "hex_digest (fld v ''checksum'')" using c by (simp add: record_checks_def validate_checksum_def bindE_eq_Inr)
    ultimately have "is_Str (fld v ''kind'')" "is_Str (fld v ''phase'')" "is_Str (fld v ''schema'')" "is_Str (fld v ''resourceId'')"
      "is_Bool (fld v ''retainedRecoverable'')" "is_Int (fld v ''sequence'')" "is_Str (fld v ''checksum'')"
      using is_name_Str by (simp_all only: journal_opaque_Inr hex_digest_def)
    then show "sort_keys (fld v ''kind'') = fld v ''kind''" "sort_keys (fld v ''phase'') = fld v ''phase''" "sort_keys (fld v ''schema'') = fld v ''schema''"
      "sort_keys (fld v ''resourceId'') = fld v ''resourceId''" "sort_keys (fld v ''retainedRecoverable'') = fld v ''retainedRecoverable''"
      "sort_keys (fld v ''sequence'') = fld v ''sequence''" "sort_keys (fld v ''checksum'') = fld v ''checksum''"
      by (simp_all add: sort_keys_id)
  qed
  have fields: "record_fields (sort_keys v) = record_fields v" by (simp add: record_fields_def f)
  have "validate_head (sort_keys v) n = Inr ()"
    using c by (cases n) (simp_all add: record_checks_def validate_head_def f fields k)
  moreover have "validate_identity (fld v ''kind'') (fld v ''phase'') (sort_keys (fld v ''identity'')) (fld v ''schema'') = Inr (sort_keys (fld v ''identity''))"
    using validate_identity_sort [OF _ wf_fld [OF wf]] validate_identity_Inr [OF _ e(2)] c unfolding record_checks_def by metis
  moreover have "fld v ''schema'' = pyl group_schema \<and> fld v ''cleanupEvidence'' \<noteq> PNone \<longrightarrow>
      validate_evidence (fld v ''kind'') (fld v ''phase'') (sort_keys (fld v ''cleanupEvidence'')) = Inr ()"
    using c validate_evidence_sort wf_fld [OF wf] by (auto simp: record_checks_def)
  moreover have "list_all (\<lambda>k. natural (fld (sort_keys (fld v ''stateRoot'')) k)) root_identity_fields"
    using c natural_fields_sort wf_fld [OF wf] by (auto simp: record_checks_def)
  moreover have "validate_target (sort_keys (fld v ''cleanupTarget'')) = Inr (sort_keys (fld v ''cleanupTarget''))"
  proof -
    have "validate_target (fld v ''cleanupTarget'') = Inr (fld v ''cleanupTarget'')" using c by (simp add: record_checks_def)
    moreover from this have "sort_keys (fld v ''cleanupTarget'') = fld v ''cleanupTarget''"
      by (intro sort_keys_id) (auto simp: validate_target_def bindE_eq_Inr journal_relative_path_Inr split: if_splits)
    ultimately show ?thesis by simp
  qed
  moreover have "validate_observations (sort_keys (fld v ''observations'')) = Inr ()"
    using c validate_observations_sort wf_fld [OF wf] by (auto simp: record_checks_def)
  moreover have "validate_checksum (sort_keys v) = Inr ()"
    using c unfolding record_checks_def validate_checksum_def f k ddel_sort [OF v] dumps_canonical_sort by (elim conjE)
  ultimately show ?thesis using c by (simp add: record_checks_def f k)
qed

section \<open>The round trip\<close>

lemma record_checks_name:
  assumes "record_checks v None" "name = the_Str (fld v ''resourceId'') @ lit ''.json''"
  shows "record_checks v (Some name)"
  using assms by (simp add: record_checks_def validate_head_def)

text \<open>The decoder on the text of a validated record: only the integer bound is left to check.\<close>

lemma decode_canonical:
  assumes "validate_record v None = Inr v" "wf_pyval v" "jints plain_int v" "length (canonical_text v) + 1 \<le> max_record_bytes" "3 \<le> lim"
  shows "decode_record lim (canonical_text v @ [10]) (the_Str (fld v ''resourceId'') @ lit ''.json'') =
    bindE (bounded_json 0 (sort_keys v) 0) (\<lambda>_. Inr (sort_keys v))"
proof -
  have c: "record_checks v None" using record_checksD [OF assms(1)] .
  have s: "tame v" "jdepth v \<le> 3" using small_record [OF c assms(2)] by (simp_all add: small_def numeral_3_eq_3)
  have d: "is_Dict v" using c by (auto simp: record_checks_def exact_fields_def dest: validate_head_fields)
  have "json_loads_bytes (JournalError ''duplicate JSON field'') lim (canonical_text v @ [10]) = Inr (sort_keys v)"
    using s d assms(2,3,5) by (intro canonical_loads tame_jprintable tame_jstrings) auto
  moreover have "validate_record (sort_keys v) (Some (the_Str (fld v ''resourceId'') @ lit ''.json'')) = Inr (sort_keys v)"
    by (rule record_checksI [OF record_checks_sort [OF record_checks_name [OF c refl] assms(2)]])
  ultimately show ?thesis using assms(4) by (simp add: decode_record_def)
qed

lemma bounded_record:
  assumes "validate_record v None = Inr v" "wf_pyval v" "jints journal_int v"
  shows "\<exists>b. bounded_json 0 (sort_keys v) 0 = Inr b"
proof -
  have "small (Suc (Suc (Suc 0))) 700 v" using small_record [OF record_checksD [OF assms(1)] assms(2)] .
  then have "bounded_json 0 (sort_keys v) 0 = Inr (0 + jnodes (sort_keys v))"
    using assms(3) by (intro bounded_json_tame(1)) (auto simp: small_def)
  then show ?thesis by blast
qed

lemma wf_dset: "wf_pyval (PDict d) \<Longrightarrow> wf_pystr k \<Longrightarrow> wf_pyval v \<Longrightarrow> wf_pyval (PDict (dset d k v))"
proof -
  assume a: "wf_pyval (PDict d)" "wf_pystr k" "wf_pyval v"
  have "set (dset d k v) \<subseteq> insert (k, v) (set d)" by (induction d) (auto split: if_splits)
  then show ?thesis using a distinct_dset [of d k v] by auto
qed

lemma jints_dset: "jints ok (PDict d) \<Longrightarrow> jints ok v \<Longrightarrow> jints ok (PDict (dset d k v))"
  by (induction d) auto

lemma fld_dset: "fld (PDict (dset d (lit k) v)) n = (if n = k then v else fld (PDict d) n)"
  by (simp add: fld_def)

lemma wf_digest: "wf_pyval (PStr (sha256_hex b))"
  using sha256_hex_digest [of b] re_hex_ascii [of 64 "sha256_hex b"] by (auto simp: wf_pystr_def is_ascii_def list_all_iff)

lemma wf_pyl_text: "wf_pystr (lit k)"
  using lit_char_bound [of _ k] by (fastforce simp: wf_pystr_def list_all_iff)

abbreviation with_checksum :: "pyval \<Rightarrow> bytes \<Rightarrow> pyval" where
  "with_checksum payload b \<equiv> PDict (dset (the_Dict payload) (lit ''checksum'') (PStr (sha256_hex b)))"

lemma encode_record_Inr:
  assumes "encode_record payload = Inr data" "is_Dict payload" "wf_pyval payload"
  obtains v where "v = with_checksum payload (canonical_text payload)" "validate_record v None = Inr v" "wf_pyval v" "jints plain_int v"
    "data = canonical_text v @ [10]" "length (canonical_text v) + 1 \<le> max_record_bytes"
    "fld v ''resourceId'' = fld payload ''resourceId''" "dumps_canonical payload = Inr (canonical_text payload)"
proof -
  let ?v = "with_checksum payload (canonical_text payload)"
  have p: "dumps_canonical payload = Inr (canonical_text payload)"
    using assms(1) by (auto simp: encode_record_def bindE_eq_Inr dumps_canonical_def split: if_splits)
  have e: "bindE (validate_record ?v None) (\<lambda>_. bindE (dumps_canonical ?v) (\<lambda>encoded.
      retE [guardE (length encoded + 1 \<le> max_record_bytes) (JournalError ''record exceeds byte limit'')] (encoded @ [10]))) = Inr data"
    using assms(1) unfolding encode_record_def p Let_def by simp
  have "validate_record ?v None = Inr ?v" using e validate_record_Inr [of ?v None] by (auto simp: bindE_eq_Inr)
  moreover have "wf_pyval ?v" using assms(2,3) by (cases payload) (auto simp only: pyval.sel pyval.disc intro!: wf_dset wf_digest wf_pyl_text)
  moreover have "jints plain_int ?v" "data = canonical_text ?v @ [10]" "length (canonical_text ?v) + 1 \<le> max_record_bytes"
    using e by (auto simp: bindE_eq_Inr dumps_canonical_def split: if_splits)
  moreover have "fld ?v ''resourceId'' = fld payload ''resourceId''"
    using assms(2) by (cases payload) (auto simp: fld_dset)
  ultimately show ?thesis using that [OF refl] p by blast
qed

text \<open>C18 What the journal writes, it reads back: a record that \<^verbatim>\<open>encode_record\<close> accepts decodes under the file name of
  its resource to the same fields, checksum included, with the keys sorted, provided its integers fit in 63 bits.\<close>

theorem record_roundtrip:
  assumes "encode_record payload = Inr data" "is_Dict payload" "wf_pyval payload" "jints journal_int payload" "3 \<le> lim"
  shows "decode_record lim data (the_Str (fld payload ''resourceId'') @ lit ''.json'') =
    Inr (sort_keys (PDict (dset (the_Dict payload) (lit ''checksum'') (PStr (sha256_hex (canonical_text payload))))))"
proof -
  obtain v where v: "v = with_checksum payload (canonical_text payload)" "validate_record v None = Inr v" "wf_pyval v" "jints plain_int v"
    "data = canonical_text v @ [10]" "length (canonical_text v) + 1 \<le> max_record_bytes" "fld v ''resourceId'' = fld payload ''resourceId''"
    by (rule encode_record_Inr [OF assms(1-3)])
  have "jints journal_int v" 
  proof -
    have "jints journal_int (PDict (the_Dict payload))" using assms(2,4) by (cases payload) auto
    then show ?thesis unfolding v(1) by (rule jints_dset) simp
  qed
  from bounded_record [OF v(2,3) this] show ?thesis
    using decode_canonical [OF v(2,3,4,6) assms(5)] unfolding v(5,7) by (auto simp: v(1))
qed

end
