(* ===== verification/JsonWellFormed.thy ===== *)
theory JsonWellFormed
  imports JsonAscii
begin

text \<open>
  What \<^verbatim>\<open>json.loads\<close> returns is a Python value: its strings consist of code points and its dicts repeat no
  key, so a decoded document satisfies the representation invariant \<open>wf_pyval\<close>.
\<close>

lemma wf_drop: "wf_pystr s \<Longrightarrow> wf_pystr (drop n s)"
  by (meson in_set_dropD wf_pystr_iff)

lemma wf_skip_ws: "wf_pystr s \<Longrightarrow> wf_pystr (skip_ws s)"
  by (induction s rule: skip_ws.induct) auto

lemma hexval_less: "hexval c = Some n \<Longrightarrow> n < 16"
  by (auto simp: hexval_def is_digit_def split: if_splits)

lemma hex4_wf: "hex4 s = Some (u, r) \<Longrightarrow> wf_pystr s \<Longrightarrow> u < 65536 \<and> wf_pystr r"
proof (induction s rule: hex4.induct)
  case (1 a b c d s)
  then obtain w x y z where h: "hexval a = Some w" "hexval b = Some x" "hexval c = Some y" "hexval d = Some z"
    and u: "u = w * 4096 + x * 256 + y * 16 + z" "r = s"
    by (auto split: option.splits)
  have "w < 16" "x < 16" "y < 16" "z < 16" using h hexval_less by blast+
  then show ?case using 1 u by auto
qed auto

lemma low_half_wf: "low_half s = Some (u, r) \<Longrightarrow> wf_pystr s \<Longrightarrow> u \<le> 57343 \<and> wf_pystr r"
  by (induction s rule: low_half.induct) (auto split: if_splits option.splits dest: hex4_wf)

lemma consR_wf_Inr: "consR c m = Inr (x, r) \<longleftrightarrow> (\<exists>cs. m = Inr (cs, r) \<and> x = c # cs)"
  by (auto simp: consR_def bindE_eq_Inr)

lemma jescape_less: "jescape e = Some x \<Longrightarrow> x < 128"
  by (auto simp: jescape_def split: if_splits)

lemma jchars_wf: "jchars s = Inr (x, r) \<Longrightarrow> wf_pystr s \<Longrightarrow> wf_pystr x \<and> wf_pystr r"
proof (induction s arbitrary: x r rule: jchars.induct)
  case (2 c s)
  show ?case
  proof (cases "c = 34 \<or> c \<noteq> 92")
    case True
    then show ?thesis using 2 by (auto simp: consR_wf_Inr split: if_splits)
  next
    case False
    then have c: "c = 92" "c \<noteq> 34" by auto
    obtain e s1 where s: "s = e # s1" using 2(6) c by (cases s) auto
    show ?thesis
    proof (cases "e = 117")
      case True
      obtain u s2 where h: "hex4 s1 = Some (u, s2)" using 2(6) c s True by (auto split: option.splits)
      have w: "u < 65536" "wf_pystr s2" using hex4_wf [OF h] 2(7) s by auto
      show ?thesis
      proof (cases "(55296 \<le> u \<and> u \<le> 56319) \<and> low_half s2 \<noteq> None")
        case True
        then obtain l s3 where l: "low_half s2 = Some (l, s3)" by auto
        have lw: "l \<le> 57343" "wf_pystr s3" using low_half_wf [OF l w(2)] by auto
        obtain cs where cs: "jchars s3 = Inr (cs, r)" "x = (65536 + (u - 55296) * 1024 + (l - 56320)) # cs"
          using 2(6) c s \<open>e = 117\<close> h True l by (auto simp: consR_wf_Inr)
        have "65536 + (u - 55296) * 1024 + (l - 56320) < 1114112" using True lw(1) by auto
        then show ?thesis using 2(2) [OF c(2,1) s \<open>e = 117\<close> h refl conjunct1 [OF True] l refl cs(1) lw(2)] cs(2) by simp
      next
        case False
        then obtain cs where cs: "jchars s2 = Inr (cs, r)" "x = u # cs"
          using 2(6) c s \<open>e = 117\<close> h by (auto simp: consR_wf_Inr split: if_splits option.splits)
        have "wf_pystr cs \<and> wf_pystr r"
        proof (cases "55296 \<le> u \<and> u \<le> 56319")
          case True
          then have "low_half s2 = None" using False by (cases "low_half s2") auto
          from 2(1) [OF c(2,1) s \<open>e = 117\<close> h refl True this cs(1) w(2)] show ?thesis .
        next
          case no: False
          from 2(3) [OF c(2,1) s \<open>e = 117\<close> h refl no cs(1) w(2)] show ?thesis .
        qed
        then show ?thesis using w(1) cs(2) by simp
      qed
    next
      case False
      then obtain y cs where y: "jescape e = Some y" "jchars s1 = Inr (cs, r)" "x = y # cs"
        using 2(6) c s by (auto simp: consR_wf_Inr split: option.splits)
      show ?thesis using 2(4) [OF c(2,1) s False y(1,2)] 2(7) s y(3) jescape_less [OF y(1)] by simp
    qed
  qed
qed simp

lemma jword_wf: "jword s = Some (w, r) \<Longrightarrow> wf_pystr s \<Longrightarrow> wf_pystr r"
  by (auto simp: jword_def wf_drop)

lemma wf_digits: "jdigits s = (a, b) \<Longrightarrow> wf_pystr s \<Longrightarrow> wf_pystr b"
  by (auto simp: jdigits_def wf_pystr_iff dest: set_dropWhileD)

lemma jfrac_wf: "wf_pystr s \<Longrightarrow> jfrac s = (a, b) \<Longrightarrow> wf_pystr b"
  by (auto simp: jfrac_def split: list.splits prod.splits if_splits dest: wf_digits)

lemma jexp_wf: "wf_pystr s \<Longrightarrow> jexp s = (a, b) \<Longrightarrow> wf_pystr b"
  by (auto simp: jexp_def Let_def split: list.splits prod.splits if_splits dest: wf_digits)

lemma jnumber_wf:
  assumes "jnumber s = Some (fl, tok, r)" "wf_pystr s"
  shows "wf_pystr r"
proof -
  define sg where "sg = (case s of c # _ \<Rightarrow> if c = 45 then [c] else [] | [] \<Rightarrow> [])"
  define s1 where "s1 = drop (length sg) s"
  obtain ds s2 where d: "(case s1 of c # r \<Rightarrow> if c = 48 then ([c], r) else jdigits s1 | [] \<Rightarrow> ([], [])) = (ds, s2)"
    by (meson surj_pair)
  obtain fr s3 where f: "jfrac s2 = (fr, s3)" by (meson surj_pair)
  obtain ex s4 where x: "jexp s3 = (ex, s4)" by (meson surj_pair)
  have "r = s4" using assms(1) d f x unfolding jnumber_def Let_def sg_def [symmetric] s1_def [symmetric]
    by (auto split: if_splits)
  moreover have "wf_pystr s1" unfolding s1_def by (rule wf_drop [OF assms(2)])
  then have "wf_pystr s2" using d by (auto split: list.splits if_splits dest: wf_digits)
  ultimately show ?thesis using jexp_wf [OF jfrac_wf [OF _ f] x] by simp
qed

section \<open>Values\<close>

lemma jvalue_wf:
  assumes num: "\<And>fl t v. num fl t = Inr v \<Longrightarrow> wf_pyval v" and const: "\<And>w v. const w = Inr v \<Longrightarrow> wf_pyval v"
    and pairs: "\<And>kvs v. pairs kvs = Inr v \<Longrightarrow> (\<forall>kv \<in> set kvs. wf_pystr (fst kv) \<and> wf_pyval (snd kv)) \<Longrightarrow> wf_pyval v"
  shows "jvalue num const pairs n lim s = Inr (v, r) \<Longrightarrow> wf_pystr s \<Longrightarrow> wf_pyval v \<and> wf_pystr r"
    and "jitems num const pairs n lim s = Inr (vs, r) \<Longrightarrow> wf_pystr s \<Longrightarrow> (\<forall>v \<in> set vs. wf_pyval v) \<and> wf_pystr r"
    and "jmembers num const pairs n lim s = Inr (kvs, r) \<Longrightarrow> wf_pystr s \<Longrightarrow>
      (\<forall>kv \<in> set kvs. wf_pystr (fst kv) \<and> wf_pyval (snd kv)) \<and> wf_pystr r"
proof (induction n arbitrary: lim s v r vs kvs)
  case 0
  { case 1 then show ?case by simp next case 2 then show ?case by simp next case 3 then show ?case by simp }
next
  case (Suc n)
  note IH = Suc.IH
  {
    case 1
    then obtain c t where s: "s = c # t" by (cases s) auto
    have t: "wf_pystr t" using 1(2) s by simp
    consider (str) "c = 34" | (obj) "c = 123" | (arr) "c = 91" | (other) "c \<noteq> 34" "c \<noteq> 123" "c \<noteq> 91" by blast
    then show ?case
    proof cases
      case str
      then show ?thesis using 1(1) s t by (auto simp: bindE_eq_Inr dest: jchars_wf)
    next
      case obj
      obtain lim' where l: "lim = Suc lim'" using 1(1) s obj by (cases lim) auto
      obtain d r1 where d: "skip_ws t = d # r1" using 1(1) s obj l by (cases "skip_ws t") auto
      have dw: "wf_pystr (d # r1)" using wf_skip_ws [OF t] d by simp
      show ?thesis
      proof (cases "d = 125")
        case True
        then have "pairs [] = Inr v" "r = r1" using 1(1) s obj l d by (auto simp: bindE_eq_Inr)
        then show ?thesis using pairs [of "[]" v] dw by simp
      next
        case False
        then obtain ms where m: "jmembers num const pairs n lim' (d # r1) = Inr (ms, r)" "pairs ms = Inr v"
          using 1(1) s obj l d by (auto simp: bindE_eq_Inr)
        show ?thesis using IH(3) [OF m(1) dw] pairs [OF m(2)] by blast
      qed
    next
      case arr
      obtain lim' where l: "lim = Suc lim'" using 1(1) s arr by (cases lim) auto
      obtain d r1 where d: "skip_ws t = d # r1" using 1(1) s arr l by (cases "skip_ws t") auto
      have dw: "wf_pystr (d # r1)" using wf_skip_ws [OF t] d by simp
      show ?thesis
      proof (cases "d = 93")
        case True
        then show ?thesis using 1(1) s arr l d dw by auto
      next
        case False
        then obtain ms where m: "jitems num const pairs n lim' (d # r1) = Inr (ms, r)" "v = PList ms"
          using 1(1) s arr l d by (auto simp: bindE_eq_Inr)
        show ?thesis using IH(2) [OF m(1) dw] m(2) by simp
      qed
    next
      case other
      show ?thesis
      proof (cases "jword s")
        case (Some wr)
        obtain w r' where wr: "wr = (w, r')" by (cases wr)
        have "wf_pystr r'" using jword_wf [of s w r'] Some wr 1(2) by simp
        then show ?thesis using 1(1) Some other const s wr by (auto simp: bindE_eq_Inr split: if_splits)
      next
        case None
        then show ?thesis
          using 1 other num jnumber_wf [OF _ 1(2)] s by (auto simp: bindE_eq_Inr split: option.splits)
      qed
    qed
  next
    case 2
    then obtain v1 r1 where v1: "jvalue num const pairs n lim s = Inr (v1, r1)" by (auto simp: bindE_eq_Inr)
    have w1: "wf_pyval v1" "wf_pystr (skip_ws r1)" using IH(1) [OF v1 2(2)] wf_skip_ws by auto
    obtain d r2 where d: "skip_ws r1 = d # r2" using 2(1) v1 by (cases "skip_ws r1") auto
    have r2: "wf_pystr r2" using w1(2) d by simp
    show ?case using 2(1) v1 d w1(1) r2 IH(2) [OF _ wf_skip_ws [OF r2]]
      by (auto simp: bindE_eq_Inr split: if_splits)
  next
    case 3
    then obtain s1 where s: "s = 34 # s1" by (cases s) (auto split: if_splits)
    obtain k r1 where k: "jchars s1 = Inr (k, r1)" using 3(1) s by (auto simp: bindE_eq_Inr)
    have kw: "wf_pystr k" "wf_pystr (skip_ws r1)" using jchars_wf [OF k] 3(2) s wf_skip_ws by auto
    obtain r2 where r2: "skip_ws r1 = 58 # r2" using 3(1) s k by (cases "skip_ws r1") (auto split: if_splits)
    obtain v1 r3 where v1: "jvalue num const pairs n lim (skip_ws r2) = Inr (v1, r3)"
      using 3(1) s k r2 by (auto simp: bindE_eq_Inr)
    have w1: "wf_pyval v1" "wf_pystr (skip_ws r3)" using IH(1) [OF v1] wf_skip_ws kw(2) r2 by auto
    obtain d r4 where d: "skip_ws r3 = d # r4" using 3(1) s k r2 v1 by (cases "skip_ws r3") auto
    have r4: "wf_pystr r4" using w1(2) d by simp
    show ?case using 3(1) s k r2 v1 d w1(1) r4 kw(1) IH(3) [OF _ wf_skip_ws [OF r4]]
      by (fastforce simp: bindE_eq_Inr split: if_splits)
  }
qed

lemma hook_pairs_wf:
  assumes "hook_pairs e kvs = Inr v" "\<forall>kv \<in> set kvs. wf_pystr (fst kv) \<and> wf_pyval (snd kv)"
  shows "wf_pyval v"
proof -
  have "hook_pairs_from e d kvs = Inr v \<Longrightarrow> wf_pyval (PDict d) \<Longrightarrow> wf_pyval v" for d
    using assms(2)
  proof (induction kvs arbitrary: d)
    case (Cons kv kvs)
    obtain k x where kv: "kv = (k, x)" by (cases kv)
    have new: "k \<notin> fst ` set d" "hook_pairs_from e (dset d k x) kvs = Inr v" using Cons.prems(1) by (auto simp: kv split: if_splits)
    have "wf_pyval (PDict (dset d k x))" using Cons.prems(2,3) new(1) dset_fresh [of k d x] by (auto simp: kv)
    with new(2) show ?case using Cons by auto
  qed auto
  then show ?thesis using assms(1) by (simp add: hook_pairs_def)
qed

section \<open>Decoded bytes\<close>

definition byte_string :: "bytes \<Rightarrow> bool" where
  "byte_string bs \<longleftrightarrow> (\<forall>b \<in> set bs. b < 256)"

lemma utf8_decode_pass_wf: "utf8_decode_pass bs = Some s \<Longrightarrow> wf_pystr s"
proof (induction bs arbitrary: s rule: utf8_decode_pass.induct)
  case (2 b bs)
  show ?case using 2 by (auto simp: Let_def utf8_cont_def split: if_splits list.splits)
qed simp

lemma utf16_units_bound: "utf16_units le bs = Some us \<Longrightarrow> byte_string bs \<Longrightarrow> \<forall>u \<in> set us. u < 65536"
  by (induction le bs arbitrary: us rule: utf16_units.induct) (auto simp: byte_string_def)

lemma utf16_pairs_wf: "\<forall>u \<in> set us. u < 65536 \<Longrightarrow> wf_pystr (utf16_pairs us)"
  by (induction us rule: utf16_pairs.induct) auto

lemma utf32_decode_wf: "utf32_decode le bs = Some s \<Longrightarrow> wf_pystr s"
  by (induction le bs arbitrary: s rule: utf32_decode.induct) (auto simp: Let_def split: if_splits)

lemma decode_detected_wf: "decode_detected b = Some s \<Longrightarrow> byte_string b \<Longrightarrow> wf_pystr s"
proof -
  assume a: "decode_detected b = Some s" "byte_string b"
  have u16: "utf16_decode le (drop n b) = Some s \<Longrightarrow> wf_pystr s" for le n
  proof -
    assume "utf16_decode le (drop n b) = Some s"
    then obtain us where us: "utf16_units le (drop n b) = Some us" "s = utf16_pairs us" by (auto simp: utf16_decode_def)
    have "byte_string (drop n b)" using a(2) by (auto simp: byte_string_def dest: in_set_dropD)
    from utf16_pairs_wf [OF utf16_units_bound [OF us(1) this]] us(2) show ?thesis by simp
  qed
  show ?thesis using a(1) u16 [of _ 0] u16 utf32_decode_wf utf8_decode_pass_wf unfolding decode_detected_def
    by (auto split: if_splits)
qed

theorem json_loads_bytes_wf:
  assumes "json_loads_bytes dup lim data = Inr v" "byte_string data"
  shows "wf_pyval v"
proof -
  obtain t where t: "decode_detected data = Some t" using assms(1) by (auto simp: json_loads_bytes_def split: option.splits)
  have w: "wf_pystr (skip_ws t)" by (rule wf_skip_ws [OF decode_detected_wf [OF t assms(2)]])
  obtain n r where v: "jvalue plain_number (\<lambda>w. Inr (PFloat (lit w))) (hook_pairs dup) n lim (skip_ws t) = Inr (v, r)"
    using assms(1) t by (auto simp: json_loads_bytes_def json_loads_def bindE_eq_Inr simp del: jvalue.simps split: if_splits)
  show ?thesis
    by (rule conjunct1 [OF jvalue_wf(1) [OF _ _ hook_pairs_wf v w]])
      (auto simp: plain_number_def Let_def split: if_splits)
qed

end
