(* ===== verification/RecoveryJournal.thy ===== *)
theory RecoveryJournal
  imports RecoveryRoundTrip JsonWellFormed "HOL-Library.AList"
begin

text \<open>
  The journal itself (\<^verbatim>\<open>RecoveryJournal\<close> of \<^verbatim>\<open>supervisor/mirrorgate/recovery_journal.py\<close>): a directory of record
  files, each replaced as a whole by \<^verbatim>\<open>_publish\<close>.

  An operation runs on a \<open>disk\<close> and yields its result, every disk it passes through, and the disk it leaves.
  The passed disks are the points where the process may be killed or the machine may lose power, so crash
  behaviour is a statement about them.  A file remembers whether its contents were flushed; a directory
  remembers its states since it was last flushed.  \<open>survives\<close> says what may be found under a name after a
  power loss: an entry of one of those states, with arbitrary contents when they were not flushed.

  What the host decides is an argument: the random token of the temporary name, how many bytes each
  \<^verbatim>\<open>os.write\<close> takes, and the exceptions the \<^verbatim>\<open>fault\<close> callback raises at the named cuts.
\<close>

section \<open>Disks and interruptible operations\<close>

datatype fentry = JFile bytes bool | JLink | JDir | JSpecial

type_synonym dir = "(pystr \<times> fentry) list"

record disk =
  jnow :: dir
  jhist :: "dir list"
  qnow :: dir

type_synonym 'a io = "disk \<Rightarrow> 'a res \<times> disk list \<times> disk"

definition retIO :: "'a \<Rightarrow> 'a io" where
  "retIO x d = (Inr x, [], d)"

definition failIO :: "pyexc \<Rightarrow> 'a io" where
  "failIO e d = (Inl e, [], d)"

definition liftIO :: "'a res \<Rightarrow> 'a io" where
  "liftIO r d = (r, [], d)"

definition stepIO :: "(disk \<Rightarrow> disk) \<Rightarrow> unit io" where
  "stepIO f d = (Inr (), [f d], f d)"

definition askIO :: "(disk \<Rightarrow> 'a io) \<Rightarrow> 'a io" where
  "askIO f d = f d d"

definition bindIO :: "'a io \<Rightarrow> ('a \<Rightarrow> 'b io) \<Rightarrow> 'b io" where
  "bindIO m f d = (case m d of
     (Inl e, t, d') \<Rightarrow> (Inl e, t, d')
   | (Inr x, t, d') \<Rightarrow> (case f x d' of (r, t', d'') \<Rightarrow> (r, t @ t', d'')))"

text \<open>\<^verbatim>\<open>try: m finally: fin\<close>\<close>

definition finallyIO :: "'a io \<Rightarrow> unit io \<Rightarrow> 'a io" where
  "finallyIO m fin d = (case m d of (r, t, d') \<Rightarrow>
     (case fin d' of
        (Inl e, t', d'') \<Rightarrow> (Inl e, t @ t', d'')
      | (Inr u, t', d'') \<Rightarrow> (r, t @ t', d'')))"

definition jput :: "pystr \<Rightarrow> fentry \<Rightarrow> disk \<Rightarrow> disk" where
  "jput n e d = d\<lparr>jnow := AList.update n e (jnow d), jhist := jnow d # jhist d\<rparr>"

definition jdrop :: "pystr \<Rightarrow> disk \<Rightarrow> disk" where
  "jdrop n d = d\<lparr>jnow := AList.delete n (jnow d), jhist := jnow d # jhist d\<rparr>"

definition jmove :: "pystr \<Rightarrow> pystr \<Rightarrow> disk \<Rightarrow> disk" where
  "jmove a b d = (case map_of (jnow d) a of
     None \<Rightarrow> d
   | Some e \<Rightarrow> d\<lparr>jnow := AList.update b e (AList.delete a (jnow d)), jhist := jnow d # jhist d\<rparr>)"

definition jsync_file :: "pystr \<Rightarrow> disk \<Rightarrow> disk" where
  "jsync_file n d = (case map_of (jnow d) n of Some (JFile c s) \<Rightarrow> jput n (JFile c True) d | _ \<Rightarrow> d)"

definition jsync_dir :: "disk \<Rightarrow> disk" where
  "jsync_dir d = d\<lparr>jhist := []\<rparr>"

definition settles :: "fentry option \<Rightarrow> fentry option \<Rightarrow> bool" where
  "settles e e' \<longleftrightarrow> (case e of Some (JFile c False) \<Rightarrow> (\<exists>c' s. e' = Some (JFile c' s)) | _ \<Rightarrow> e' = e)"

definition survives :: "disk \<Rightarrow> pystr \<Rightarrow> fentry option \<Rightarrow> bool" where
  "survives d n e \<longleftrightarrow> (\<exists>D \<in> set (jnow d # jhist d). settles (map_of D n) e)"

section \<open>Publication\<close>

record host_io =
  io_token :: pystr
  io_count :: "nat \<Rightarrow> nat"
  io_fault :: "string \<Rightarrow> nat \<Rightarrow> pyexc option"

definition cutIO :: "host_io \<Rightarrow> string \<Rightarrow> nat \<Rightarrow> unit io" where
  "cutIO h name n = (case io_fault h name n of None \<Rightarrow> retIO () | Some e \<Rightarrow> failIO e)"

definition record_name :: "pyval \<Rightarrow> pystr" where
  "record_name resource = the_Str resource @ lit ''.json''"

definition temp_name :: "host_io \<Rightarrow> pystr" where
  "temp_name h = lit ''.tmp-'' @ io_token h"

definition open_temp :: "pystr \<Rightarrow> unit io" where
  "open_temp temp = askIO (\<lambda>d.
     if map_of (jnow d) temp \<noteq> None then failIO (PyOSError ''EEXIST'') else stepIO (jput temp (JFile [] False)))"

function write_loop :: "host_io \<Rightarrow> pystr \<Rightarrow> bytes \<Rightarrow> nat \<Rightarrow> unit io" where
  "write_loop h temp encoded offset =
     (if length encoded \<le> offset then retIO ()
      else
        let count = min (io_count h offset) (length encoded - offset) in
        if count = 0 then failIO (JournalError ''short journal write'')
        else
          bindIO (stepIO (jput temp (JFile (take (offset + count) encoded) False))) (\<lambda>_.
          bindIO (cutIO h ''after-write'' (offset + count)) (\<lambda>_.
          write_loop h temp encoded (offset + count))))"
  by pat_completeness auto
termination
  by (relation "measure (\<lambda>(h, temp, encoded, offset). length encoded - offset)") auto

declare write_loop.simps [simp del]

definition replace_file :: "pystr \<Rightarrow> pystr \<Rightarrow> unit io" where
  "replace_file temp final = askIO (\<lambda>d.
     if map_of (jnow d) final = Some JDir then failIO (PyOSError ''EISDIR'') else stepIO (jmove temp final))"

definition unlink_temp :: "pystr \<Rightarrow> unit io" where
  "unlink_temp temp = askIO (\<lambda>d. if map_of (jnow d) temp = None then retIO () else stepIO (jdrop temp))"

definition publish_body :: "host_io \<Rightarrow> pystr \<Rightarrow> pystr \<Rightarrow> bytes \<Rightarrow> unit io" where
  "publish_body h temp final encoded =
     bindIO (cutIO h ''before-open'' 0) (\<lambda>_.
     bindIO (open_temp temp) (\<lambda>_.
     bindIO (cutIO h ''after-open'' 0) (\<lambda>_.
     bindIO (write_loop h temp encoded 0) (\<lambda>_.
     bindIO (stepIO (jsync_file temp)) (\<lambda>_.
     bindIO (cutIO h ''after-file-sync'' 0) (\<lambda>_.
     bindIO (replace_file temp final) (\<lambda>_.
     bindIO (cutIO h ''after-rename'' 0) (\<lambda>_.
     bindIO (stepIO jsync_dir) (\<lambda>_.
     cutIO h ''after-directory-sync'' 0)))))))))"

record journal =
  j_closed :: bool
  j_controller :: pystr
  j_boot :: pystr
  j_uid :: int
  j_root :: pyval
  j_lim :: nat

definition absentIO :: "pystr \<Rightarrow> unit io" where
  "absentIO name = askIO (\<lambda>d. liftIO (guardE (map_of (jnow d) name = None) (JournalError ''duplicate resource ID'')))"

definition publish :: "journal \<Rightarrow> host_io \<Rightarrow> pyval \<Rightarrow> bool \<Rightarrow> unit io" where
  "publish j h payload create =
     bindIO (liftIO (guardE (\<not> j_closed j) (JournalError ''journal lease is closed''))) (\<lambda>_.
     bindIO (liftIO (encode_record payload)) (\<lambda>encoded.
     let final = record_name (fld payload ''resourceId''); temp = temp_name h in
     bindIO (if create then absentIO final else retIO ()) (\<lambda>_.
     finallyIO (publish_body h temp final encoded) (unlink_temp temp))))"

section \<open>Reading\<close>

definition read_regular_at :: "dir \<Rightarrow> pystr \<Rightarrow> bytes res" where
  "read_regular_at d name = (case map_of d name of
     None \<Rightarrow> Inl (PyOSError ''ENOENT'')
   | Some JLink \<Rightarrow> Inl (PyOSError ''ELOOP'')
   | Some (JFile c s) \<Rightarrow>
       if max_record_bytes < length c then Inl (JournalError ''journal entry is not a bounded regular file'') else Inr c
   | Some e \<Rightarrow> Inl (JournalError ''journal entry is not a bounded regular file''))"

definition oserror :: "pyexc \<Rightarrow> bool" where
  "oserror e = (case e of PyOSError m \<Rightarrow> True | _ \<Rightarrow> False)"

definition read_record :: "journal \<Rightarrow> dir \<Rightarrow> pyval \<Rightarrow> pyval res" where
  "read_record j d resource =
     bindE (journal_opaque resource ''resource ID'') (\<lambda>_.
     case (if j_closed j then Inl (PyOSError ''EBADF'') else read_regular_at d (record_name resource)) of
       Inl e \<Rightarrow> Inl (if oserror e then JournalError ''journal record is unavailable'' else e)
     | Inr data \<Rightarrow> decode_record (j_lim j) data (record_name resource))"

definition journal_read :: "journal \<Rightarrow> pyval \<Rightarrow> pyval io" where
  "journal_read j resource = askIO (\<lambda>d. liftIO (read_record j (jnow d) resource))"

record snapshot =
  sn_records :: "pyval list"
  sn_invalid :: "(pystr \<times> pystr) list"

text \<open>\<^verbatim>\<open>str(exc)\<close>; the text of a host error is abbreviated to its errno name.\<close>

definition exc_text :: "pyexc \<Rightarrow> pystr option" where
  "exc_text e = (case e of JournalError m \<Rightarrow> Some (lit m) | PyOSError m \<Rightarrow> Some (lit m) | _ \<Rightarrow> None)"

fun inspect_loop :: "nat \<Rightarrow> dir \<Rightarrow> pyval set \<Rightarrow> pystr list \<Rightarrow> snapshot res" where
  "inspect_loop lim d seen [] = Inr \<lparr>sn_records = [], sn_invalid = []\<rparr>"
| "inspect_loop lim d seen (name # ns) =
     (let invalid = (\<lambda>n reason. bindE (inspect_loop lim d seen ns) (\<lambda>s. Inr (s\<lparr>sn_invalid := (n, reason) # sn_invalid s\<rparr>))) in
      if startswith name (lit ''.tmp-'') then invalid name (lit ''incomplete_publication'')
      else if \<not> endswith name (lit ''.json'') \<or> max_string + 5 < length name then invalid (take max_string name) (lit ''invalid_filename'')
      else
        (case bindE (read_regular_at d name) (\<lambda>data. bindE (decode_record lim data name) (\<lambda>r.
           retE [guardE (fld r ''resourceId'' \<notin> seen) (JournalError ''duplicate resource ID'')] r)) of
           Inl e \<Rightarrow> (case exc_text e of None \<Rightarrow> Inl e | Some t \<Rightarrow> invalid name (take 128 t))
         | Inr r \<Rightarrow> bindE (inspect_loop lim d (insert (fld r ''resourceId'') seen) ns) (\<lambda>s.
             Inr (s\<lparr>sn_records := r # sn_records s\<rparr>))))"

definition inspect_journal :: "nat \<Rightarrow> dir \<Rightarrow> snapshot res" where
  "inspect_journal lim d =
     bindE (guardE (length d \<le> max_records) (JournalError ''journal record count exceeds limit'')) (\<lambda>_.
     inspect_loop lim d {} (sort (map fst d)))"

definition journal_inspect :: "journal \<Rightarrow> snapshot io" where
  "journal_inspect j = askIO (\<lambda>d. liftIO (if j_closed j then Inl (PyOSError ''EBADF'') else inspect_journal (j_lim j) (jnow d)))"

section \<open>Operations\<close>

fun quarantine_loop :: "(nat \<Rightarrow> pystr) \<Rightarrow> nat \<Rightarrow> (pystr \<times> pystr) list \<Rightarrow> unit io" where
  "quarantine_loop token i [] = retIO ()"
| "quarantine_loop token i ((name, reason) # items) =
     (if name = [] \<or> slash \<in> set name \<or> name = lit ''.'' \<or> name = lit ''..'' then quarantine_loop token i items
      else
        bindIO (askIO (\<lambda>d. case map_of (jnow d) name of
          Some (JFile c s) \<Rightarrow>
            if map_of (qnow d) (lit ''invalid-'' @ token i) = Some JDir then failIO (PyOSError ''EISDIR'')
            else stepIO (\<lambda>d. (jdrop name d)\<lparr>qnow := AList.update (lit ''invalid-'' @ token i) (JFile c s) (qnow d)\<rparr>)
        | _ \<Rightarrow> retIO ())) (\<lambda>_.
        quarantine_loop token (Suc i) items))"

definition quarantine_invalid :: "journal \<Rightarrow> (nat \<Rightarrow> pystr) \<Rightarrow> (pystr \<times> pystr) list \<Rightarrow> unit io" where
  "quarantine_invalid j token invalid =
     (if j_closed j then failIO (PyOSError ''EBADF'')
      else bindIO (quarantine_loop token 0 invalid) (\<lambda>_. stepIO jsync_dir))"

definition claim_record :: "journal \<Rightarrow> pyval \<Rightarrow> pyval \<Rightarrow> pyval \<Rightarrow> pyval \<Rightarrow> pyval \<Rightarrow> pystr \<Rightarrow> (pystr \<times> pyval) list option \<Rightarrow> pyval" where
  "claim_record j session resource kind stage retained schema identity = PDict
     ([(lit ''schema'', PStr schema), (lit ''sequence'', PInt 1), (lit ''controllerInstance'', PStr (j_controller j)),
       (lit ''bootId'', PStr (j_boot j)), (lit ''principalUid'', PInt (j_uid j)), (lit ''sessionId'', session), (lit ''resourceId'', resource),
       (lit ''kind'', kind), (lit ''phase'', pyl ''allocation_intent''), (lit ''stage'', stage),
       (lit ''identity'', PDict (case identity of None \<Rightarrow> [] | Some i \<Rightarrow> i)), (lit ''retainedRecoverable'', retained),
       (lit ''observations'', PList []), (lit ''stateRoot'', j_root j), (lit ''cleanupTarget'', PNone)] @
      (if schema = lit group_schema then [(lit ''cleanupEvidence'', PNone)] else []))"

definition claim_intent ::
  "journal \<Rightarrow> host_io \<Rightarrow> pyval \<Rightarrow> pyval \<Rightarrow> pyval \<Rightarrow> pyval \<Rightarrow> pyval \<Rightarrow> pystr \<Rightarrow> (pystr \<times> pyval) list option \<Rightarrow> pyval io" where
  "claim_intent j h session resource kind stage retained schema identity =
     bindIO (liftIO (seqE
       [journal_opaque session ''session ID'', journal_opaque resource ''resource ID'', journal_opaque stage ''stage'',
        in_setE kind journal_kinds (JournalError ''invalid resource claim''),
        guardE (is_Bool retained) (JournalError ''invalid resource claim'')])) (\<lambda>_.
     bindIO (journal_inspect j) (\<lambda>snap.
     bindIO (liftIO (seqE
       [guardE (sn_invalid snap = []) (JournalError ''invalid journal record blocks allocation''),
        guardE (length (sn_records snap) < max_records) (JournalError ''journal record count exceeds limit'')])) (\<lambda>_.
     bindIO (absentIO (record_name resource)) (\<lambda>_.
     bindIO (publish j h (claim_record j session resource kind stage retained schema identity) True) (\<lambda>_.
     journal_read j resource)))))"

text \<open>Python's \<^verbatim>\<open>==\<close>: a bool equals the integer of its truth value, and dicts compare without order.\<close>

fun py_eq :: "pyval \<Rightarrow> pyval \<Rightarrow> bool" where
  "py_eq (PBool a) v = (v = PBool a \<or> v = PInt (if a then 1 else 0))"
| "py_eq (PInt i) v = (v = PInt i \<or> v = PBool True \<and> i = 1 \<or> v = PBool False \<and> i = 0)"
| "py_eq (PList xs) v = (case v of PList ys \<Rightarrow> list_all2 py_eq xs ys | _ \<Rightarrow> False)"
| "py_eq (PDict a) v = (case v of
     PDict b \<Rightarrow> length a = length b \<and> list_all (\<lambda>(k, x). case map_of b k of None \<Rightarrow> False | Some y \<Rightarrow> py_eq x y) a
   | _ \<Rightarrow> False)"
| "py_eq u v = (u = v)"

definition journal_update :: "pyval \<Rightarrow> (string \<times> pyval) list \<Rightarrow> pyval" where
  "journal_update current fs =
     PDict (foldl (\<lambda>d (k, v). dset d (lit k) v) (ddel (the_Dict current) (lit ''checksum''))
       ((''sequence'', PInt (the_Int (fld current ''sequence'') + 1)) # fs))"

definition identity_kept :: "pyval \<Rightarrow> (pystr \<times> pyval) list \<Rightarrow> bool" where
  "identity_kept current identity \<longleftrightarrow> fld current ''schema'' = pyl group_schema \<longrightarrow>
     list_all (\<lambda>(k, v). py_eq (case map_of identity k of None \<Rightarrow> PNone | Some x \<Rightarrow> x) v) (the_Dict (fld current ''identity''))"

record change =
  ch_phase :: pystr
  ch_identity :: "(pystr \<times> pyval) list option"
  ch_retained :: pyval
  ch_observation :: "(pystr \<times> pyval) list option"
  ch_target :: pyval
  ch_evidence :: pyval

definition transition_fields :: "pyval \<Rightarrow> change \<Rightarrow> (string \<times> pyval) list" where
  "transition_fields current c =
     [(''phase'', PStr (ch_phase c))] @
     (if ch_evidence c \<noteq> PNone then [(''cleanupEvidence'', ch_evidence c)] else []) @
     (case ch_identity c of None \<Rightarrow> [] | Some i \<Rightarrow> [(''identity'', PDict i)]) @
     (if ch_retained c \<noteq> PNone then [(''retainedRecoverable'', ch_retained c)] else []) @
     (case ch_observation c of None \<Rightarrow> [] | Some ob \<Rightarrow> [(''observations'', PList (the_List (fld current ''observations'') @ [PDict ob]))]) @
     (if ch_target c \<noteq> PNone then [(''cleanupTarget'', ch_target c)] else [])"

definition transition_checks :: "pyval \<Rightarrow> change \<Rightarrow> unit res" where
  "transition_checks current c =
     (let phase = PStr (ch_phase c);
          observation_update = (phase = fld current ''phase'' \<and> phase = pyl ''cleanup_intent'' \<and> ch_evidence c \<noteq> PNone) in
      seqE
       [guardE (is_name phase (table_get journal_transitions (fld current ''phase'')) \<or> observation_update)
          (JournalError ''invalid journal transition''),
        guardE (ch_evidence c \<noteq> PNone \<longrightarrow> fld current ''schema'' = pyl group_schema \<and> fld current ''kind'' = pyl ''cgroup'' \<and>
            is_name phase [''cleanup_intent'', ''reclaimed''])
          (JournalError ''cleanup evidence requires v2 cgroup cleanup''),
        guardE (case ch_identity c of None \<Rightarrow> True | Some i \<Rightarrow> identity_kept current i)
          (JournalError ''v2 ownership identity is immutable''),
        whenE (ch_target c \<noteq> PNone) (bindE (journal_relative_path (ch_target c)) (\<lambda>_. Inr ()))])"

definition transition :: "journal \<Rightarrow> host_io \<Rightarrow> pyval \<Rightarrow> change \<Rightarrow> pyval io" where
  "transition j h resource c =
     bindIO (journal_read j resource) (\<lambda>current.
     bindIO (liftIO (transition_checks current c)) (\<lambda>_.
     bindIO (publish j h (journal_update current (transition_fields current c)) False) (\<lambda>_.
     journal_read j resource)))"

definition set_cleanup_target :: "journal \<Rightarrow> host_io \<Rightarrow> pyval \<Rightarrow> pyval \<Rightarrow> pyval io" where
  "set_cleanup_target j h resource target =
     bindIO (journal_read j resource) (\<lambda>current.
     bindIO (liftIO (guardE (fld current ''phase'' = pyl ''cleanup_intent'' \<and> fld current ''cleanupTarget'' = PNone)
       (JournalError ''cleanup target can only be fixed once during cleanup intent''))) (\<lambda>_.
     bindIO (liftIO (journal_relative_path target)) (\<lambda>checked.
     bindIO (publish j h (journal_update current [(''cleanupTarget'', checked)]) False) (\<lambda>_.
     journal_read j resource))))"

definition plain_change :: "string \<Rightarrow> change" where
  "plain_change phase = \<lparr>ch_phase = lit phase, ch_identity = None, ch_retained = PNone, ch_observation = None, ch_target = PNone,
     ch_evidence = PNone\<rparr>"

definition begin_cleanup :: "journal \<Rightarrow> host_io \<Rightarrow> pyval \<Rightarrow> pyval io" where
  "begin_cleanup j h resource =
     bindIO (journal_read j resource) (\<lambda>current.
     if is_name (fld current ''phase'') [''cleanup_intent'', ''reclaimed'', ''ambiguous''] then retIO current
     else if ''cleanup_intent'' \<notin> set (table_get journal_transitions (fld current ''phase''))
     then failIO (JournalError ''resource cannot enter cleanup'')
     else transition j h resource (plain_change ''cleanup_intent''))"

definition finish_cleanup :: "journal \<Rightarrow> host_io \<Rightarrow> pyval \<Rightarrow> bool \<Rightarrow> pyval io" where
  "finish_cleanup j h resource complete =
     bindIO (journal_read j resource) (\<lambda>current.
     let target = (if complete then ''reclaimed'' else ''cleanup_failed'') in
     if is_name (fld current ''phase'') [''reclaimed'', ''ambiguous''] then retIO current
     else if fld current ''phase'' = pyl target then retIO current
     else if fld current ''phase'' \<noteq> pyl ''cleanup_intent'' then failIO (JournalError ''cleanup result lacks durable intent'')
     else transition j h resource (plain_change target))"

end
