(* ===== verification/RecoveryCrash.thy ===== *)
theory RecoveryCrash
  imports RecoveryJournal
begin

text \<open>
  Crash behaviour of publication.  \<open>valid P m Q X\<close> says that from a disk with \<open>P\<close> every disk \<open>m\<close> passes
  through, and the one it leaves, has \<open>X\<close>, and that a normal result has \<open>Q\<close>.  Publication is shown to keep,
  at every such point, each record either as it was or completely replaced, also across a power loss.
\<close>

section \<open>Rules for interruptible operations\<close>

definition valid :: "(disk \<Rightarrow> bool) \<Rightarrow> 'a io \<Rightarrow> ('a \<Rightarrow> disk \<Rightarrow> bool) \<Rightarrow> (disk \<Rightarrow> bool) \<Rightarrow> bool" where
  "valid P m Q X \<longleftrightarrow> (\<forall>d. P d \<longrightarrow> (case m d of (r, t, d') \<Rightarrow>
     (\<forall>D \<in> set t. X D) \<and> X d' \<and> (case r of Inl e \<Rightarrow> True | Inr x \<Rightarrow> Q x d')))"

lemma validD:
  assumes "valid P m Q X" "P d" "m d = (r, t, d')"
  shows "D \<in> set t \<Longrightarrow> X D" "X d'" "r = Inr x \<Longrightarrow> Q x d'"
  using assms by (fastforce simp: valid_def)+

lemma valid_ret: "(\<And>d. P d \<Longrightarrow> X d \<and> Q x d) \<Longrightarrow> valid P (retIO x) Q X"
  by (simp add: valid_def retIO_def)

lemma valid_fail: "(\<And>d. P d \<Longrightarrow> X d) \<Longrightarrow> valid P (failIO e) Q X"
  by (simp add: valid_def failIO_def)

lemma valid_lift: "(\<And>d. P d \<Longrightarrow> X d) \<Longrightarrow> (\<And>d x. P d \<Longrightarrow> r = Inr x \<Longrightarrow> Q x d) \<Longrightarrow> valid P (liftIO r) Q X"
  by (auto simp: valid_def liftIO_def split: sum.splits)

lemma valid_step: "(\<And>d. P d \<Longrightarrow> X (f d) \<and> Q () (f d)) \<Longrightarrow> valid P (stepIO f) Q X"
  by (simp add: valid_def stepIO_def)

lemma valid_ask: "(\<And>d. P d \<Longrightarrow> valid (\<lambda>d'. d' = d) (f d) Q X) \<Longrightarrow> valid P (askIO f) Q X"
  by (simp add: valid_def askIO_def)

lemma valid_bind:
  assumes "valid P m R X" "\<And>x. valid (R x) (f x) Q X"
  shows "valid P (bindIO m f) Q X"
  unfolding valid_def
proof (intro allI impI)
  fix d assume d: "P d"
  obtain r t d' where m: "m d = (r, t, d')" by (metis prod_cases3)
  show "case bindIO m f d of (r, t, d') \<Rightarrow> (\<forall>D \<in> set t. X D) \<and> X d' \<and> (case r of Inl e \<Rightarrow> True | Inr x \<Rightarrow> Q x d')"
  proof (cases r)
    case (Inl e)
    then show ?thesis using validD [OF assms(1) d m] by (simp add: bindIO_def m)
  next
    case (Inr x)
    obtain r2 t2 d2 where f: "f x d' = (r2, t2, d2)" by (metis prod_cases3)
    have R: "R x d'" using validD(3) [OF assms(1) d m] Inr by simp
    have "\<forall>D \<in> set (t @ t2). X D"
      using validD(1) [OF assms(1) d m] validD(1) [OF assms(2) R f] by auto
    moreover have "X d2" "case r2 of Inl e \<Rightarrow> True | Inr y \<Rightarrow> Q y d2"
      using validD(2,3) [OF assms(2) R f] by (auto split: sum.splits)
    ultimately show ?thesis by (simp add: bindIO_def m Inr f)
  qed
qed

lemma bind_lift_Inr: "bindIO (liftIO (Inr x)) f = f x"
  by (rule ext) (simp add: bindIO_def liftIO_def split: prod.splits)

lemma bind_lift_Inl: "bindIO (liftIO (Inl e)) f = failIO e"
  by (rule ext) (simp add: bindIO_def liftIO_def failIO_def)

lemma valid_finally:
  assumes "valid P m Q X" "valid X fin (\<lambda>_. X) X" "\<And>x. valid (\<lambda>d. X d \<and> Q x d) fin (\<lambda>_. Q' x) X"
  shows "valid P (finallyIO m fin) Q' X"
  unfolding valid_def
proof (intro allI impI)
  fix d assume d: "P d"
  obtain r t d' where m: "m d = (r, t, d')" by (metis prod_cases3)
  obtain r2 t2 d2 where f: "fin d' = (r2, t2, d2)" by (metis prod_cases3)
  have X: "X d'" "\<forall>D \<in> set t. X D" using validD [OF assms(1) d m] by auto
  have X2: "X d2" "\<forall>D \<in> set t2. X D" using validD [OF assms(2) X(1) f] by auto
  have "Q' x d2" if "r2 = Inr ()" "r = Inr x" for x
    using validD(3) [OF assms(3) _ f that(1)] X(1) validD(3) [OF assms(1) d m that(2)] by blast
  then show "case finallyIO m fin d of (r, t, d') \<Rightarrow> (\<forall>D \<in> set t. X D) \<and> X d' \<and> (case r of Inl e \<Rightarrow> True | Inr x \<Rightarrow> Q' x d')"
    using X X2 by (cases r2; cases r) (auto simp: finallyIO_def m f)
qed

lemma valid_pre: "valid P m Q X \<Longrightarrow> (\<And>d. P' d \<Longrightarrow> P d) \<Longrightarrow> valid P' m Q X"
  by (simp add: valid_def)

lemma valid_post: "valid P m Q X \<Longrightarrow> (\<And>x d. X d \<Longrightarrow> Q x d \<Longrightarrow> Q' x d) \<Longrightarrow> valid P m Q' X"
  unfolding valid_def by (auto split: sum.splits)

lemma valid_cut: "(\<And>d. P d \<Longrightarrow> X d) \<Longrightarrow> valid P (cutIO h name n) (\<lambda>_. P) X"
  unfolding cutIO_def by (cases "io_fault h name n") (auto intro: valid_ret valid_fail)

section \<open>What publication keeps\<close>

definition publishing :: "disk \<Rightarrow> pystr \<Rightarrow> pystr \<Rightarrow> bytes \<Rightarrow> disk \<Rightarrow> bool" where
  "publishing d0 temp final encoded D \<longleftrightarrow> qnow D = qnow d0 \<and>
     (\<forall>n. n \<noteq> temp \<longrightarrow>
       (map_of (jnow D) n = map_of (jnow d0) n \<or> n = final \<and> map_of (jnow D) n = Some (JFile encoded True)) \<and>
       (\<forall>e. survives D n e \<longrightarrow> survives d0 n e \<or> n = final \<and> e = Some (JFile encoded True)))"

lemma survives_now: "e = map_of (jnow d) n \<Longrightarrow> (\<And>c. e \<noteq> Some (JFile c False)) \<Longrightarrow> survives d n e"
  by (auto simp: survives_def settles_def split: option.splits fentry.splits bool.splits)

lemma survives_step:
  "jhist D' = jnow D # jhist D \<Longrightarrow> map_of (jnow D') n = map_of (jnow D) n \<Longrightarrow> survives D' n e \<longleftrightarrow> survives D n e"
  by (simp add: survives_def)

lemma publishing_refl: "publishing d temp final encoded d"
  by (simp add: publishing_def)

lemma publishing_put: "publishing d0 temp final encoded D \<Longrightarrow> publishing d0 temp final encoded (jput temp e D)"
  using survives_step [of "jput temp e D" D] by (simp add: publishing_def jput_def update_conv')

lemma publishing_drop: "publishing d0 temp final encoded D \<Longrightarrow> publishing d0 temp final encoded (jdrop temp D)"
  using survives_step [of "jdrop temp D" D] by (simp add: publishing_def jdrop_def delete_conv')

lemma publishing_sync: "publishing d0 temp final encoded D \<Longrightarrow> publishing d0 temp final encoded (jsync_dir D)"
  by (auto simp: publishing_def jsync_dir_def survives_def)

lemma publishing_sync_file: "publishing d0 temp final encoded D \<Longrightarrow> publishing d0 temp final encoded (jsync_file temp D)"
  by (auto simp: jsync_file_def publishing_put split: option.splits fentry.splits)

lemma publishing_move:
  assumes p: "publishing d0 temp final encoded D" and t: "map_of (jnow D) temp = Some (JFile encoded True)" and ne: "temp \<noteq> final"
  shows "publishing d0 temp final encoded (jmove temp final D)" "map_of (jnow (jmove temp final D)) final = Some (JFile encoded True)"
    "map_of (jnow (jmove temp final D)) temp = None"
proof -
  let ?D = "jmove temp final D"
  have now: "map_of (jnow ?D) = ((map_of (jnow D))(temp := None))(final \<mapsto> JFile encoded True)"
    by (simp add: jmove_def t update_conv' delete_conv')
  have hist: "jhist ?D = jnow D # jhist D" "qnow ?D = qnow D" by (simp_all add: jmove_def t)
  have other: "survives ?D n e \<longleftrightarrow> survives D n e" if "n \<noteq> temp" "n \<noteq> final" for n e
    using that now hist(1) by (intro survives_step) auto
  have fin: "survives ?D final e \<Longrightarrow> e = Some (JFile encoded True) \<or> survives D final e" for e
    using now hist(1) by (auto simp: survives_def settles_def)
  show "publishing d0 temp final encoded ?D"
    using p now hist(2) other fin unfolding publishing_def by (metis fun_upd_apply)
  show "map_of (jnow ?D) final = Some (JFile encoded True)" "map_of (jnow ?D) temp = None" using now ne by auto
qed

lemma write_loop_valid:
  "valid (\<lambda>d. publishing d0 temp final encoded d \<and> map_of (jnow d) temp = Some (JFile (take offset encoded) False)) (write_loop h temp encoded offset)
     (\<lambda>_ d. publishing d0 temp final encoded d \<and> map_of (jnow d) temp = Some (JFile encoded False)) (publishing d0 temp final encoded)"
proof (induction h temp encoded offset rule: write_loop.induct)
  case (1 h temp encoded offset)
  show ?case
  proof (cases "length encoded \<le> offset")
    case True
    then show ?thesis by (subst write_loop.simps) (auto intro: valid_ret)
  next
    case False
    let ?c = "min (io_count h offset) (length encoded - offset)"
    show ?thesis
    proof (cases "?c = 0")
      case True
      then show ?thesis using False by (subst write_loop.simps) (auto simp: Let_def intro: valid_fail)
    next
      case c: False
      let ?X = "publishing d0 temp final encoded"
      let ?R = "\<lambda>d. ?X d \<and> map_of (jnow d) temp = Some (JFile (take (offset + ?c) encoded) False)"
      have a: "valid (\<lambda>d. ?X d \<and> map_of (jnow d) temp = Some (JFile (take offset encoded) False))
          (stepIO (jput temp (JFile (take (offset + ?c) encoded) False))) (\<lambda>_. ?R) ?X"
        by (rule valid_step) (auto simp: publishing_put, simp add: jput_def update_conv')
      have b: "valid ?R (cutIO h ''after-write'' (offset + ?c)) (\<lambda>_. ?R) ?X" by (rule valid_cut) simp
      show ?thesis
        unfolding write_loop.simps [of h temp encoded offset] Let_def if_not_P [OF False] if_not_P [OF c]
        by (rule valid_bind [OF a valid_bind [OF b 1 [OF False refl c]]])
    qed
  qed
qed

abbreviation durable :: "pystr \<Rightarrow> pystr \<Rightarrow> bytes \<Rightarrow> disk \<Rightarrow> bool" where
  "durable temp final encoded d \<equiv> map_of (jnow d) final = Some (JFile encoded True) \<and> map_of (jnow d) temp = None \<and> jhist d = []"

lemma publish_body_valid:
  assumes "temp \<noteq> final"
  shows "valid (publishing d0 temp final encoded) (publish_body h temp final encoded) (\<lambda>_. durable temp final encoded)
    (publishing d0 temp final encoded)"
proof -
  let ?X = "publishing d0 temp final encoded"
  let ?R = "\<lambda>d. ?X d \<and> map_of (jnow d) final = Some (JFile encoded True) \<and> map_of (jnow d) temp = None"
  have o: "valid ?X (open_temp temp) (\<lambda>_ d. ?X d \<and> map_of (jnow d) temp = Some (JFile [] False)) ?X"
    unfolding open_temp_def
    by (rule valid_ask) (auto simp: jput_def update_conv' publishing_put [unfolded jput_def] intro!: valid_fail valid_step)
  have s: "valid (\<lambda>d. ?X d \<and> map_of (jnow d) temp = Some (JFile encoded False)) (stepIO (jsync_file temp))
      (\<lambda>_ d. ?X d \<and> map_of (jnow d) temp = Some (JFile encoded True)) ?X"
    by (rule valid_step) (auto simp: publishing_sync_file, simp add: jsync_file_def jput_def update_conv')
  have r: "valid (\<lambda>d. ?X d \<and> map_of (jnow d) temp = Some (JFile encoded True)) (replace_file temp final) (\<lambda>_. ?R) ?X"
    unfolding replace_file_def
    by (rule valid_ask) (auto simp: publishing_move [OF _ _ assms] intro!: valid_fail valid_step)
  have y: "valid ?R (stepIO jsync_dir) (\<lambda>_ d. ?X d \<and> durable temp final encoded d) ?X"
    by (rule valid_step) (auto simp: publishing_sync, simp_all add: jsync_dir_def)
  have w: "valid (\<lambda>d. ?X d \<and> map_of (jnow d) temp = Some (JFile [] False)) (write_loop h temp encoded 0)
      (\<lambda>_ d. ?X d \<and> map_of (jnow d) temp = Some (JFile encoded False)) ?X"
    using write_loop_valid [of d0 temp final encoded 0 h] by simp
  show ?thesis
    unfolding publish_body_def
    by (rule valid_bind [OF valid_cut], simp, rule valid_bind [OF o], rule valid_bind [OF valid_cut], simp, rule valid_bind [OF w],
        rule valid_bind [OF s], rule valid_bind [OF valid_cut], simp, rule valid_bind [OF r], rule valid_bind [OF valid_cut], simp,
        rule valid_bind [OF y], rule valid_post [OF valid_cut]) simp_all
qed

lemma unlink_temp_valid:
  "valid (\<lambda>d. publishing d0 temp final encoded d \<and> durable temp final encoded d) (unlink_temp temp)
    (\<lambda>_. durable temp final encoded) (publishing d0 temp final encoded)"
  unfolding unlink_temp_def by (rule valid_ask) (auto intro!: valid_ret)

lemma publish_valid:
  assumes "encode_record payload = Inr encoded" "final = record_name (fld payload ''resourceId'')" "temp_name h \<noteq> final"
  shows "valid (\<lambda>d. d = d0) (publish j h payload create) (\<lambda>_. durable (temp_name h) final encoded)
    (publishing d0 (temp_name h) final encoded)"
proof -
  let ?X = "publishing d0 (temp_name h) final encoded"
  have u: "valid ?X (unlink_temp (temp_name h)) (\<lambda>_. ?X) ?X"
    unfolding unlink_temp_def by (rule valid_ask) (auto simp: publishing_drop intro!: valid_ret valid_step)
  have f: "valid ?X (finallyIO (publish_body h (temp_name h) final encoded) (unlink_temp (temp_name h)))
      (\<lambda>_. durable (temp_name h) final encoded) ?X"
    by (rule valid_finally [OF publish_body_valid [OF assms(3)] u unlink_temp_valid])
  have a: "valid ?X (if create then absentIO final else retIO ()) (\<lambda>_. ?X) ?X"
    unfolding absentIO_def by (cases create) (auto intro!: valid_ask valid_lift valid_ret)
  have g: "valid ?X (liftIO (guardE (\<not> j_closed j) (JournalError ''journal lease is closed''))) (\<lambda>_. ?X) ?X"
    by (rule valid_lift)
  have "valid ?X (publish j h payload create) (\<lambda>_. durable (temp_name h) final encoded) ?X"
    unfolding publish_def Let_def assms(1) assms(2) [symmetric] bind_lift_Inr
    by (rule valid_bind [OF g valid_bind [OF a f]])
  then show ?thesis by (rule valid_pre) (simp add: publishing_refl)
qed

lemma encode_opaque:
  assumes "encode_record payload = Inr encoded" "is_Dict payload"
  shows "journal_opaque (fld payload ''resourceId'') ''resource ID'' = Inr ()"
proof -
  obtain t w where "validate_record (PDict (dset (the_Dict payload) (lit ''checksum'') t)) None = Inr w"
    using assms(1) by (auto simp: encode_record_def bindE_eq_Inr Let_def)
  then have "validate_head (PDict (dset (the_Dict payload) (lit ''checksum'') t)) None = Inr ()"
    by (auto simp: validate_record_def bindE_eq_Inr)
  then have "journal_opaque (fld (PDict (dset (the_Dict payload) (lit ''checksum'') t)) ''resourceId'') ''resource ID'' = Inr ()"
    by (simp add: validate_head_def)
  then show ?thesis using assms(2) by (cases payload) (simp_all add: fld_dset)
qed

lemma temp_not_record: "journal_opaque r l = Inr u \<Longrightarrow> temp_name h \<noteq> record_name r"
  by (cases "the_Str r") (auto simp: temp_name_def record_name_def journal_opaque_Inr lit_def)

lemma publish_cases:
  assumes "publish j h payload create d = (r, t, d')" "is_Dict payload"
  obtains (stopped) e where "r = Inl e" "t = []" "d' = d"
  | (published) encoded where "encode_record payload = Inr encoded"
      "\<And>D. D \<in> set (t @ [d']) \<Longrightarrow> publishing d (temp_name h) (record_name (fld payload ''resourceId'')) encoded D"
      "r = Inr () \<Longrightarrow> durable (temp_name h) (record_name (fld payload ''resourceId'')) encoded d'"
proof (cases "encode_record payload")
  case (Inl e)
  then have "t = [] \<and> d' = d \<and> (\<exists>e. r = Inl e)"
    using assms(1) by (cases "j_closed j") (auto simp: publish_def bind_lift_Inr bind_lift_Inl failIO_def)
  then show ?thesis using stopped by blast
next
  case (Inr encoded)
  have "temp_name h \<noteq> record_name (fld payload ''resourceId'')"
    using temp_not_record [OF encode_opaque [OF Inr assms(2)]] by blast
  note v = publish_valid [OF Inr refl this, of d j create]
  show ?thesis
    by (rule published [OF Inr]) (use validD [OF v refl assms(1)] in auto)
qed

text \<open>C1 Publication is crash consistent: wherever it is interrupted (an exception, a killed process, a lost power
  supply), each journal entry other than the temporary file is one that could have been found before, or the
  complete new record under its final name; and when publication returns, only the new record can be found.\<close>

theorem publish_crash_consistent:
  assumes "publish j h payload create d = (r, t, d')" "is_Dict payload"
  shows "(\<forall>D \<in> set (t @ [d']). \<forall>n e. n \<noteq> temp_name h \<and> survives D n e \<longrightarrow> survives d n e \<or>
      n = record_name (fld payload ''resourceId'') \<and> (\<exists>data. encode_record payload = Inr data \<and> e = Some (JFile data True))) \<and>
    (r = Inr () \<longrightarrow> (\<exists>data. encode_record payload = Inr data \<and>
      (\<forall>e. survives d' (record_name (fld payload ''resourceId'')) e \<longleftrightarrow> e = Some (JFile data True))))"
  using assms
proof (cases rule: publish_cases)
  case (published encoded)
  then show ?thesis by (auto simp: publishing_def survives_def settles_def)
qed auto

end
