(* ===== verification/Machines.thy ===== *)
theory Machines
  imports Main
begin

text \<open>
  The interfaces between a component's step relation and the theorems about its runs.  \<open>guarded_steps\<close> is a step relation
  with an invariant its steps keep; \<open>simulation\<close> adds the steps of a specification that they implement; \<open>history\<close> is a
  trace that logs what was admitted.  The journal, hosted runs, the relay and the authoring broker interpret them.
\<close>

locale guarded_steps =
  fixes step :: "'s \<Rightarrow> 's \<Rightarrow> bool" and inv :: "'s \<Rightarrow> bool"
  assumes kept: "step s t \<Longrightarrow> inv s \<Longrightarrow> inv t"
begin

lemma steps_inv: "step\<^sup>*\<^sup>* s t \<Longrightarrow> inv s \<Longrightarrow> inv t"
  by (induction rule: rtranclp_induct) (auto intro: kept)

text \<open>What single steps keep under the invariant, runs keep.\<close>

lemma steps_keep:
  assumes "step\<^sup>*\<^sup>* s t" "inv s" "P s" "\<And>u v. step u v \<Longrightarrow> inv u \<Longrightarrow> P u \<Longrightarrow> P v"
  shows "P t"
  using assms(1)
proof (induction rule: rtranclp_induct)
  case (step u v)
  then show ?case using assms(4) steps_inv [OF step(1) assms(2)] by blast
qed (rule assms(3))

end

locale simulation = guarded_steps step inv
  for step :: "'s \<Rightarrow> 's \<Rightarrow> bool" and inv :: "'s \<Rightarrow> bool" +
  fixes astep :: "'a \<Rightarrow> 'a \<Rightarrow> bool" and abs :: "'s \<Rightarrow> 'a"
  assumes simulates: "step s t \<Longrightarrow> inv s \<Longrightarrow> astep (abs s) (abs t)"
begin

lemma steps_simulate: "step\<^sup>*\<^sup>* s t \<Longrightarrow> inv s \<Longrightarrow> astep\<^sup>*\<^sup>* (abs s) (abs t)"
  by (rule steps_keep [of s t "\<lambda>u. astep\<^sup>*\<^sup>* (abs s) (abs u)"])
    (auto intro: rtranclp.rtrancl_into_rtrancl simulates)

end

text \<open>A log keeps its newest entry first; below every entry lies the log of a state that admitted it.\<close>

locale history =
  fixes trace :: "'e list \<Rightarrow> 's \<Rightarrow> bool" and admits :: "'s \<Rightarrow> 'e \<Rightarrow> bool"
  assumes newest: "trace (e # h) s \<Longrightarrow> \<exists>s0. trace h s0 \<and> admits s0 e"
begin

lemma suffix: "trace (h1 @ h2) s \<Longrightarrow> \<exists>s2. trace h2 s2"
proof (induction h1 arbitrary: s)
  case (Cons e h1)
  then show ?case using newest [of e "h1 @ h2" s] by auto
qed auto

lemma admitted:
  assumes "trace (h1 @ e # h2) s"
  obtains s0 where "trace h2 s0" "admits s0 e"
  using suffix [OF assms] newest by blast

end

end
