(* ===== verification/RecoveryLedger.thy ===== *)
theory RecoveryLedger
  imports RecoveryCrash Machines
begin

text \<open>
  What the journal promises its users: a ledger of resources, each in one phase with a sequence number, that
  only moves along \<^verbatim>\<open>TRANSITIONS\<close>.  \<open>ledger_of\<close> reads the ledger off a disk, and every operation, at every
  point where it can be interrupted, refines a step of the ledger.
\<close>

section \<open>The ledger\<close>

datatype slot = Absent | Unreadable | Held pyval int

type_synonym ledger = "pystr \<Rightarrow> slot"

definition phase_step :: "pyval \<Rightarrow> pyval \<Rightarrow> bool" where
  "phase_step p q \<longleftrightarrow> is_name q (table_get journal_transitions p) \<or> p = pyl ''cleanup_intent'' \<and> q = pyl ''cleanup_intent''"

inductive ledger_step :: "ledger \<Rightarrow> ledger \<Rightarrow> bool" where
  stay: "ledger_step L L"
| claim: "L r = Absent \<Longrightarrow> x = Held (pyl ''allocation_intent'') 1 \<or> x = Unreadable \<Longrightarrow> ledger_step L (L(r := x))"
| advance: "L r = Held p s \<Longrightarrow> phase_step p q \<Longrightarrow> x = Held q (s + 1) \<or> x = Unreadable \<Longrightarrow> ledger_step L (L(r := x))"

inductive_cases ledger_stepE: "ledger_step L L'"

definition slot_of :: "nat \<Rightarrow> pystr \<Rightarrow> fentry option \<Rightarrow> slot" where
  "slot_of lim r e = (case e of
     None \<Rightarrow> Absent
   | Some (JFile c s) \<Rightarrow>
       (if max_record_bytes < length c then Unreadable
        else (case decode_record lim c (r @ lit ''.json'') of
                Inl _ \<Rightarrow> Unreadable
              | Inr v \<Rightarrow> Held (fld v ''phase'') (the_Int (fld v ''sequence''))))
   | Some _ \<Rightarrow> Unreadable)"

definition opaque_id :: "pystr \<Rightarrow> bool" where
  "opaque_id r \<longleftrightarrow> journal_opaque (PStr r) ''resource ID'' = Inr ()"

definition ledger_of :: "nat \<Rightarrow> disk \<Rightarrow> ledger" where
  "ledger_of lim d r = (if opaque_id r then slot_of lim r (map_of (jnow d) (r @ lit ''.json'')) else Absent)"

section \<open>Reading and writing a slot\<close>

text \<open>Record files hold bytes.\<close>

definition disk_ok :: "disk \<Rightarrow> bool" where
  "disk_ok d \<longleftrightarrow> (\<forall>r c s. opaque_id r \<longrightarrow> map_of (jnow d) (r @ lit ''.json'') = Some (JFile c s) \<longrightarrow> byte_string c)"

lemma read_record_Inr:
  assumes "read_record j d resource = Inr v"
  obtains r c s where "resource = PStr r" "opaque_id r" "map_of d (r @ lit ''.json'') = Some (JFile c s)" "length c \<le> max_record_bytes"
    "decode_record (j_lim j) c (r @ lit ''.json'') = Inr v" "\<not> j_closed j"
proof -
  have o: "journal_opaque resource ''resource ID'' = Inr ()"
    and e: "(case (if j_closed j then Inl (PyOSError ''EBADF'') else read_regular_at d (record_name resource)) of
       Inl e \<Rightarrow> Inl (if oserror e then JournalError ''journal record is unavailable'' else e)
     | Inr data \<Rightarrow> decode_record (j_lim j) data (record_name resource)) = Inr v"
    using assms by (auto simp: read_record_def bindE_eq_Inr)
  obtain r where r: "resource = PStr r" using o by (cases resource) (auto simp: journal_opaque_Inr)
  have "\<not> j_closed j" using e by (auto split: if_splits)
  moreover obtain c where c: "read_regular_at d (r @ lit ''.json'') = Inr c" "decode_record (j_lim j) c (r @ lit ''.json'') = Inr v"
    using e calculation by (auto simp: r record_name_def split: sum.splits)
  moreover obtain s where "map_of d (r @ lit ''.json'') = Some (JFile c s)" "length c \<le> max_record_bytes"
    using c(1) by (auto simp: read_regular_at_def split: option.splits fentry.splits if_splits)
  moreover have "opaque_id r" using o by (simp add: opaque_id_def r)
  ultimately show ?thesis using that r by blast
qed

lemma decode_record_Inr:
  assumes "decode_record lim c n = Inr v" "byte_string c"
  shows "wf_pyval v" "is_Dict v" "record_checks v (Some n)"
proof -
  obtain w where w: "json_loads_bytes (JournalError ''duplicate JSON field'') lim c = Inr w" "validate_record w (Some n) = Inr v"
    using assms(1) by (auto simp: decode_record_def bindE_eq_Inr split: sum.splits if_splits)
  have v: "v = w" by (rule validate_record_Inr [OF w(2)])
  show "wf_pyval v" using json_loads_bytes_wf [OF w(1) assms(2)] v by simp
  show c: "record_checks v (Some n)" using record_checksD [OF w(2)] v by simp
  show "is_Dict v" using c by (auto simp: record_checks_def exact_fields_def dest: validate_head_fields)
qed

lemma record_resource: "record_checks v (Some (r @ lit ''.json'')) \<Longrightarrow> fld v ''resourceId'' = PStr r"
  by (cases "fld v ''resourceId''") (auto simp: record_checks_def validate_head_def journal_opaque_Inr)

lemma slot_encoded:
  assumes "encode_record payload = Inr data" "is_Dict payload" "wf_pyval payload" "fld payload ''resourceId'' = PStr r" "3 \<le> lim"
  shows "slot_of lim r (Some (JFile data s)) \<in> {Held (fld payload ''phase'') (the_Int (fld payload ''sequence'')), Unreadable}"
    "byte_string data"
proof -
  obtain v where v: "v = with_checksum payload (canonical_text payload)" "validate_record v None = Inr v" "wf_pyval v" "jints plain_int v"
    "data = canonical_text v @ [10]" "length (canonical_text v) + 1 \<le> max_record_bytes" "fld v ''resourceId'' = fld payload ''resourceId''"
    by (rule encode_record_Inr [OF assms(1-3)])
  have d: "is_Dict v" by (simp add: v(1))
  have c: "record_checks v None" by (rule record_checksD [OF v(2)])
  have same: "fld v ''phase'' = fld payload ''phase''" "fld v ''sequence'' = fld payload ''sequence''"
    using assms(2) by (cases payload; simp add: v(1) fld_dset)+
  have "sort_keys (fld v ''phase'') = fld v ''phase''" "sort_keys (fld v ''sequence'') = fld v ''sequence''"
    using c by (auto simp: record_checks_def validate_head_def intro!: sort_keys_id)
  then have srt: "fld (sort_keys v) ''phase'' = fld payload ''phase''" "fld (sort_keys v) ''sequence'' = fld payload ''sequence''"
    by (simp_all add: fld_sort_keys [OF d wf_distinct [OF v(3)]] same)
  have dec: "decode_record lim data (r @ lit ''.json'') = bindE (bounded_json 0 (sort_keys v) 0) (\<lambda>_. Inr (sort_keys v))"
    using decode_canonical [OF v(2,3,4,6) assms(5)] by (simp add: v(5,7) assms(4))
  have len: "length data \<le> max_record_bytes" using v(6) by (simp add: v(5))
  show "slot_of lim r (Some (JFile data s)) \<in> {Held (fld payload ''phase'') (the_Int (fld payload ''sequence'')), Unreadable}"
    using len srt by (cases "bounded_json 0 (sort_keys v) 0") (simp_all add: slot_of_def dec)
  have t: "tame v" using small_record [OF c v(3)] by (simp add: small_def)
  have "b < 128" if "b \<in> set (canonical_text v)" for b
    using json_print_ascii [of plain_int "sort_keys v" b] that t v(3,4)
    by (simp add: canonical_text_def tame_jprintable tame_jstrings)
  then show "byte_string data" by (force simp: byte_string_def v(5))
qed

section \<open>Publication refines a step\<close>

lemma publishing_ledger:
  assumes p: "publishing d temp (r @ lit ''.json'') data D" and temp: "temp = temp_name h" and r: "opaque_id r"
  shows "ledger_of lim D = ledger_of lim d \<or> ledger_of lim D = (ledger_of lim d)(r := slot_of lim r (Some (JFile data True)))"
proof -
  have ne: "n @ lit ''.json'' \<noteq> temp" if "opaque_id n" for n
    using temp_not_record [of "PStr n" _ "()" h] that by (auto simp: opaque_id_def record_name_def temp)
  have other: "ledger_of lim D n = ledger_of lim d n" if "n \<noteq> r" for n
    using p ne [of n] that by (auto simp: ledger_of_def publishing_def)
  have self: "ledger_of lim D r = ledger_of lim d r \<or> ledger_of lim D r = slot_of lim r (Some (JFile data True))"
    using p ne [OF r] r by (auto simp: ledger_of_def publishing_def)
  show ?thesis
  proof (cases "ledger_of lim D r = ledger_of lim d r")
    case True
    then have "ledger_of lim D = ledger_of lim d" using other by (intro ext) metis
    then show ?thesis ..
  next
    case False
    then have "ledger_of lim D = (ledger_of lim d)(r := slot_of lim r (Some (JFile data True)))"
      using other self by (intro ext) auto
    then show ?thesis ..
  qed
qed

lemma publishing_ok:
  assumes "publishing d (temp_name h) final data D" "disk_ok d" "byte_string data"
  shows "disk_ok D"
proof -
  have ne: "n @ lit ''.json'' \<noteq> temp_name h" if "opaque_id n" for n
    using temp_not_record [of "PStr n" _ "()" h] that by (auto simp: opaque_id_def record_name_def)
  show ?thesis
    unfolding disk_ok_def
  proof (intro allI impI)
    fix r c s assume r: "opaque_id r" "map_of (jnow D) (r @ lit ''.json'') = Some (JFile c s)"
    have "map_of (jnow d) (r @ lit ''.json'') = Some (JFile c s) \<or> Some (JFile c s) = Some (JFile data True)"
      using assms(1) ne [OF r(1)] r(2) unfolding publishing_def by metis
    then show "byte_string c" using r assms(2,3) by (auto simp: disk_ok_def)
  qed
qed

abbreviation refining :: "nat \<Rightarrow> disk \<Rightarrow> disk \<Rightarrow> bool" where
  "refining lim d D \<equiv> ledger_step (ledger_of lim d) (ledger_of lim D) \<and> disk_ok D"

lemma publish_refines:
  assumes p: "is_Dict payload" "wf_pyval payload" "fld payload ''resourceId'' = PStr r" and lim: "3 \<le> lim" and ok: "disk_ok d0"
    and step: "\<And>x. x = Held (fld payload ''phase'') (the_Int (fld payload ''sequence'')) \<or> x = Unreadable \<Longrightarrow>
      ledger_step (ledger_of lim d0) ((ledger_of lim d0)(r := x))"
  shows "valid (\<lambda>d. d = d0) (publish j h payload create) (\<lambda>_ _. True) (refining lim d0)"
  unfolding valid_def
proof (intro allI impI)
  fix d assume "d = d0"
  moreover obtain res t d' where run: "publish j h payload create d0 = (res, t, d')" by (metis prod_cases3)
  have "\<forall>D \<in> set (t @ [d']). refining lim d0 D"
    using run p(1)
  proof (cases rule: publish_cases)
    case (stopped e)
    then show ?thesis using ok by (simp add: ledger_step.stay)
  next
    case (published data)
    have o: "opaque_id r" using encode_opaque [OF published(1) p(1)] by (simp add: opaque_id_def p(3))
    note sl = slot_encoded [OF published(1) p lim]
    show ?thesis
    proof
      fix D assume "D \<in> set (t @ [d'])"
      then have pub: "publishing d0 (temp_name h) (r @ lit ''.json'') data D"
        using published(2) by (simp add: record_name_def p(3))
      have "ledger_step (ledger_of lim d0) (ledger_of lim D)"
        using publishing_ledger [OF pub refl o, of lim] step sl(1) [of True] by (auto intro: ledger_step.stay)
      then show "refining lim d0 D" using publishing_ok [OF pub ok sl(2)] by blast
    qed
  qed
  ultimately show "case publish j h payload create d of (r, t, d') \<Rightarrow>
      (\<forall>D \<in> set t. refining lim d0 D) \<and> refining lim d0 d' \<and> (case r of Inl e \<Rightarrow> True | Inr x \<Rightarrow> True)"
    using run by (auto split: sum.splits)
qed

section \<open>Operations refine steps\<close>

lemma valid_pure: "(A \<Longrightarrow> valid P m Q X) \<Longrightarrow> valid (\<lambda>d. P d \<and> A) m Q X"
  by (auto simp: valid_def)

lemma valid_read:
  "X d0 \<Longrightarrow> valid (\<lambda>d. d = d0) (journal_read j resource) (\<lambda>v d. d = d0 \<and> read_record j (jnow d0) resource = Inr v) X"
  unfolding journal_read_def by (rule valid_ask) (auto intro!: valid_lift)

lemma valid_publish_read:
  assumes "valid P (publish j h payload create) (\<lambda>_ _. True) X"
  shows "valid P (bindIO (publish j h payload create) (\<lambda>_. journal_read j resource)) (\<lambda>_ _. True) X"
  unfolding valid_def
proof (intro allI impI)
  fix d assume d: "P d"
  obtain r t d' where run: "publish j h payload create d = (r, t, d')" by (metis prod_cases3)
  note v = validD [OF assms d run]
  show "case bindIO (publish j h payload create) (\<lambda>_. journal_read j resource) d of (r, t, d') \<Rightarrow>
      (\<forall>D \<in> set t. X D) \<and> X d' \<and> (case r of Inl e \<Rightarrow> True | Inr x \<Rightarrow> True)"
    using v by (cases r) (auto simp: bindIO_def run journal_read_def askIO_def liftIO_def split: sum.splits)
qed

lemma fld_foldl:
  "fld (PDict (foldl (\<lambda>d (k, v). dset d (lit k) v) d fs)) n = (case map_of (rev fs) n of Some v \<Rightarrow> v | None \<Rightarrow> fld (PDict d) n)"
  by (induction fs rule: rev_induct) (auto simp: fld_dset)

lemma wf_foldl:
  "wf_pyval (PDict d) \<Longrightarrow> \<forall>kv \<in> set fs. wf_pyval (snd kv) \<Longrightarrow> wf_pyval (PDict (foldl (\<lambda>d (k, v). dset d (lit k) v) d fs))"
proof (induction fs arbitrary: d)
  case (Cons kv fs)
  obtain k v where kv: "kv = (k, v)" by (cases kv)
  have "wf_pyval (PDict (dset d (lit k) v))" using Cons.prems by (intro wf_dset wf_pyl_text) (auto simp: kv)
  from Cons.IH [OF this] Cons.prems(2) show ?case by (simp add: kv del: wf_pyval.simps)
qed simp

lemma fld_ddel: "is_Dict v \<Longrightarrow> fld (PDict (ddel (the_Dict v) (lit k))) n = (if n = k then PNone else fld v n)"
  by (cases v) (auto simp: fld_def map_of_ddel)

lemma journal_update_simps:
  assumes "is_Dict current"
  shows "is_Dict (journal_update current fs)"
    "n \<noteq> ''checksum'' \<Longrightarrow> fld (journal_update current fs) n = (case map_of (rev fs) n of Some v \<Rightarrow> v
       | None \<Rightarrow> if n = ''sequence'' then PInt (the_Int (fld current ''sequence'') + 1) else fld current n)"
  using assms by (auto simp: journal_update_def fld_foldl fld_ddel fld_dset map_of_append map_add_def split: option.splits)

lemma journal_update_wf:
  assumes "is_Dict current" "wf_pyval current" "\<forall>kv \<in> set fs. wf_pyval (snd kv)"
  shows "wf_pyval (journal_update current fs)"
proof -
  have "wf_pyval (PDict (ddel (the_Dict current) (lit ''checksum'')))"
    using assms(1,2) distinct_ddel by (cases current) (auto simp: ddel_def)
  then show ?thesis unfolding journal_update_def by (rule wf_foldl) (use assms(3) in auto)
qed

lemma read_held:
  assumes "read_record j (jnow d) resource = Inr cur" "disk_ok d" "j_lim j = lim"
  obtains r where "resource = PStr r" "fld cur ''resourceId'' = PStr r" "is_Dict cur" "wf_pyval cur"
    "record_checks cur (Some (r @ lit ''.json''))" "opaque_id r"
    "ledger_of lim d r = Held (fld cur ''phase'') (the_Int (fld cur ''sequence''))"
proof -
  obtain r c s where r: "resource = PStr r" "opaque_id r" "map_of (jnow d) (r @ lit ''.json'') = Some (JFile c s)" "length c \<le> max_record_bytes"
    "decode_record (j_lim j) c (r @ lit ''.json'') = Inr cur"
    by (rule read_record_Inr [OF assms(1)])
  have b: "byte_string c" using assms(2) r(2,3) by (auto simp: disk_ok_def)
  note dec = decode_record_Inr [OF r(5) b]
  have "ledger_of lim d r = Held (fld cur ''phase'') (the_Int (fld cur ''sequence''))"
    using r assms(3) by (simp add: ledger_of_def slot_of_def)
  then show ?thesis using that r(1,2) record_resource dec by blast
qed

lemma update_refines:
  assumes cur: "read_record j (jnow d0) resource = Inr cur" and ok: "disk_ok d0" and lim: "j_lim j = lim" "3 \<le> lim"
    and fs: "\<forall>kv \<in> set fs. wf_pyval (snd kv) \<and> fst kv \<noteq> ''resourceId'' \<and> fst kv \<noteq> ''sequence''"
    and step: "phase_step (fld cur ''phase'') (case map_of (rev fs) ''phase'' of Some v \<Rightarrow> v | None \<Rightarrow> fld cur ''phase'')"
  shows "valid (\<lambda>d. d = d0) (bindIO (publish j h (journal_update cur fs) False) (\<lambda>_. journal_read j resource)) (\<lambda>_ _. True) (refining lim d0)"
proof -
  obtain r where r: "resource = PStr r" "fld cur ''resourceId'' = PStr r" "is_Dict cur" "wf_pyval cur"
    and held: "ledger_of lim d0 r = Held (fld cur ''phase'') (the_Int (fld cur ''sequence''))"
    by (rule read_held [OF cur ok lim(1)])
  have none: "map_of (rev fs) ''resourceId'' = None" "map_of (rev fs) ''sequence'' = None"
    using fs by (auto simp: map_of_eq_None_iff)
  note upd = journal_update_simps [OF r(3), where fs = fs]
  have id: "fld (journal_update cur fs) ''resourceId'' = PStr r" using upd(2) none by (simp add: r(2))
  have sq: "fld (journal_update cur fs) ''sequence'' = PInt (the_Int (fld cur ''sequence'') + 1)" using upd(2) none by simp
  have wf: "wf_pyval (journal_update cur fs)" using journal_update_wf [OF r(3,4)] fs by blast
  have "valid (\<lambda>d. d = d0) (publish j h (journal_update cur fs) False) (\<lambda>_ _. True) (refining lim d0)"
    by (rule publish_refines [OF upd(1) wf id lim(2) ok])
      (use step held upd(2) [of "''phase''"] in \<open>auto simp: sq intro: ledger_step.advance\<close>)
  then show ?thesis by (rule valid_publish_read)
qed

definition wf_change :: "change \<Rightarrow> bool" where
  "wf_change c \<longleftrightarrow> wf_pystr (ch_phase c) \<and> (\<forall>i. ch_identity c = Some i \<longrightarrow> wf_pyval (PDict i)) \<and> wf_pyval (ch_retained c) \<and>
     (\<forall>ob. ch_observation c = Some ob \<longrightarrow> wf_pyval (PDict ob)) \<and> wf_pyval (ch_target c) \<and> wf_pyval (ch_evidence c)"

lemma transition_fields_wf:
  assumes "wf_change c" "wf_pyval cur" "is_List (fld cur ''observations'')"
  shows "\<forall>kv \<in> set (transition_fields cur c). wf_pyval (snd kv) \<and> fst kv \<noteq> ''resourceId'' \<and> fst kv \<noteq> ''sequence''"
proof -
  have "\<forall>x \<in> set (the_List (fld cur ''observations'')). wf_pyval x"
    using wf_fld [OF assms(2), of "''observations''"] assms(3) by (cases "fld cur ''observations''") auto
  then show ?thesis
    using assms(1) unfolding transition_fields_def wf_change_def
    by (cases "ch_identity c"; cases "ch_observation c") (auto simp del: wf_pyval.simps(3) simp: wf_pyval.simps(2))
qed

lemma transition_phase: "map_of (rev (transition_fields cur c)) ''phase'' = Some (PStr (ch_phase c))"
  unfolding transition_fields_def
  by (cases "ch_identity c"; cases "ch_observation c") (simp_all add: map_add_def)

lemma transition_refines:
  assumes "disk_ok d0" "j_lim j = lim" "3 \<le> lim" "wf_change c"
  shows "valid (\<lambda>d. d = d0) (transition j h resource c) (\<lambda>_ _. True) (refining lim d0)"
proof -
  have x0: "refining lim d0 d0" using assms(1) by (simp add: ledger_step.stay)
  have "valid (\<lambda>d. d = d0) (bindIO (liftIO (transition_checks cur c)) (\<lambda>_.
      bindIO (publish j h (journal_update cur (transition_fields cur c)) False) (\<lambda>_. journal_read j resource))) (\<lambda>_ _. True) (refining lim d0)"
    if cur: "read_record j (jnow d0) resource = Inr cur" for cur
  proof (cases "transition_checks cur c")
    case (Inl e)
    then show ?thesis using x0 by (auto simp: bind_lift_Inl intro: valid_fail)
  next
    case (Inr u)
    then have ph: "phase_step (fld cur ''phase'') (PStr (ch_phase c))"
      by (auto simp: transition_checks_def Let_def phase_step_def)
    have "is_List (fld cur ''observations'')" "wf_pyval cur"
      using read_held [OF cur assms(1,2)] by (auto simp: record_checks_def validate_observations_def bindE_eq_Inr)
    then show ?thesis
      unfolding Inr bind_lift_Inr
      using update_refines [OF cur assms(1-3) transition_fields_wf [OF assms(4)]] ph by (simp add: transition_phase)
  qed
  then show ?thesis
    unfolding transition_def by (intro valid_bind [OF valid_read [where X = "refining lim d0", OF x0]] valid_pure)
qed

lemma target_refines:
  assumes "disk_ok d0" "j_lim j = lim" "3 \<le> lim" "wf_pyval target"
  shows "valid (\<lambda>d. d = d0) (set_cleanup_target j h resource target) (\<lambda>_ _. True) (refining lim d0)"
proof -
  have x0: "refining lim d0 d0" using assms(1) by (simp add: ledger_step.stay)
  have "valid (\<lambda>d. d = d0) (bindIO (liftIO (guardE (fld cur ''phase'' = pyl ''cleanup_intent'' \<and> fld cur ''cleanupTarget'' = PNone)
       (JournalError ''cleanup target can only be fixed once during cleanup intent''))) (\<lambda>_.
     bindIO (liftIO (journal_relative_path target)) (\<lambda>checked.
     bindIO (publish j h (journal_update cur [(''cleanupTarget'', checked)]) False) (\<lambda>_.
     journal_read j resource)))) (\<lambda>_ _. True) (refining lim d0)"
    if cur: "read_record j (jnow d0) resource = Inr cur" for cur
  proof (cases "fld cur ''phase'' = pyl ''cleanup_intent'' \<and> fld cur ''cleanupTarget'' = PNone")
    case True
    show ?thesis
    proof (cases "journal_relative_path target")
      case (Inl e)
      then show ?thesis using True x0 by (auto simp: bind_lift_Inl bind_lift_Inr intro: valid_fail)
    next
      case (Inr w)
      then have "w = target" by (simp add: journal_relative_path_Inr)
      then show ?thesis
        using update_refines [OF cur assms(1-3), of "[(''cleanupTarget'', w)]" h] True assms(4)
        by (simp add: Inr bind_lift_Inr phase_step_def)
    qed
  next
    case False
    then have "guardE (fld cur ''phase'' = pyl ''cleanup_intent'' \<and> fld cur ''cleanupTarget'' = PNone) e = Inl e" for e :: pyexc
      by (simp only: guardE_simps)
    then show ?thesis using x0 by (simp only: bind_lift_Inl) (auto intro: valid_fail)
  qed
  then show ?thesis
    unfolding set_cleanup_target_def by (intro valid_bind [OF valid_read [where X = "refining lim d0", OF x0]] valid_pure)
qed

lemma wf_plain_change [simp]: "wf_change (plain_change p)"
  by (simp add: wf_change_def plain_change_def wf_pyl_text)

lemma begin_refines:
  assumes "disk_ok d0" "j_lim j = lim" "3 \<le> lim"
  shows "valid (\<lambda>d. d = d0) (begin_cleanup j h resource) (\<lambda>_ _. True) (refining lim d0)"
proof -
  have x0: "refining lim d0 d0" using assms(1) by (simp add: ledger_step.stay)
  note t = transition_refines [OF assms wf_plain_change]
  show ?thesis
    unfolding begin_cleanup_def
    by (rule valid_bind [OF valid_read [where X = "refining lim d0", OF x0]], rule valid_pure)
      (use x0 in \<open>auto intro: valid_ret valid_fail t\<close>)
qed

lemma finish_refines:
  assumes "disk_ok d0" "j_lim j = lim" "3 \<le> lim"
  shows "valid (\<lambda>d. d = d0) (finish_cleanup j h resource complete) (\<lambda>_ _. True) (refining lim d0)"
proof -
  have x0: "refining lim d0 d0" using assms(1) by (simp add: ledger_step.stay)
  note t = transition_refines [OF assms wf_plain_change]
  show ?thesis
    unfolding finish_cleanup_def Let_def
    by (rule valid_bind [OF valid_read [where X = "refining lim d0", OF x0]], rule valid_pure)
      (use x0 in \<open>auto intro: valid_ret valid_fail t\<close>)
qed

definition wf_journal :: "journal \<Rightarrow> bool" where
  "wf_journal j \<longleftrightarrow> wf_pystr (j_controller j) \<and> wf_pystr (j_boot j) \<and> wf_pyval (j_root j)"

lemma wf_claim_record:
  assumes "wf_journal j" "wf_pyval session" "wf_pyval resource" "wf_pyval kind" "wf_pyval stage" "wf_pyval retained" "wf_pystr schema"
    "\<forall>i. identity = Some i \<longrightarrow> wf_pyval (PDict i)"
  shows "wf_pyval (claim_record j session resource kind stage retained schema identity)"
  using assms unfolding wf_journal_def claim_record_def
  by (cases identity) (simp_all add: wf_pyl_text)

lemma claim_refines:
  assumes ok: "disk_ok d0" and lim: "j_lim j = lim" "3 \<le> lim" and wf: "wf_journal j" "wf_pyval session" "wf_pyval resource"
    "wf_pyval kind" "wf_pyval stage" "wf_pyval retained" "wf_pystr schema" "\<forall>i. identity = Some i \<longrightarrow> wf_pyval (PDict i)"
  shows "valid (\<lambda>d. d = d0) (claim_intent j h session resource kind stage retained schema identity) (\<lambda>_ _. True) (refining lim d0)"
proof -
  let ?rec = "claim_record j session resource kind stage retained schema identity"
  have x0: "refining lim d0 d0" using ok by (simp add: ledger_step.stay)
  have insp: "valid (\<lambda>d. d = d0) (journal_inspect j) (\<lambda>_ d. d = d0) (refining lim d0)"
    unfolding journal_inspect_def by (rule valid_ask) (use x0 in \<open>auto intro!: valid_lift\<close>)
  have chk: "valid (\<lambda>d. d = d0) (liftIO m) (\<lambda>_ d. d = d0) (refining lim d0)" for m :: "unit res"
    by (rule valid_lift) (use x0 in auto)
  have abs: "valid (\<lambda>d. d = d0) (absentIO (record_name resource)) (\<lambda>_ d. d = d0 \<and> map_of (jnow d0) (record_name resource) = None) (refining lim d0)"
    unfolding absentIO_def by (rule valid_ask) (use x0 in \<open>auto intro!: valid_lift\<close>)
  have pub: "valid (\<lambda>d. d = d0) (bindIO (publish j h ?rec True) (\<lambda>_. journal_read j resource)) (\<lambda>_ _. True) (refining lim d0)"
    if o: "journal_opaque resource ''resource ID'' = Inr ()" and a: "map_of (jnow d0) (record_name resource) = None"
  proof -
    obtain r where r: "resource = PStr r" using o by (cases resource) (auto simp: journal_opaque_Inr)
    have "opaque_id r" using o by (simp add: opaque_id_def r)
    then have absent: "ledger_of lim d0 r = Absent" using a by (simp add: ledger_of_def slot_of_def r record_name_def)
    have f: "is_Dict ?rec" "fld ?rec ''resourceId'' = PStr r" "fld ?rec ''phase'' = pyl ''allocation_intent''" "fld ?rec ''sequence'' = PInt 1"
      by (simp_all add: claim_record_def r)
    show ?thesis
      by (rule valid_publish_read, rule publish_refines [OF f(1) wf_claim_record [OF wf] f(2) lim(2) ok])
        (use absent in \<open>auto simp: f intro: ledger_step.claim\<close>)
  qed
  have rest: "valid (\<lambda>d. d = d0) (bindIO (journal_inspect j) (\<lambda>snap.
     bindIO (liftIO (seqE
       [guardE (sn_invalid snap = []) (JournalError ''invalid journal record blocks allocation''),
        guardE (length (sn_records snap) < max_records) (JournalError ''journal record count exceeds limit'')])) (\<lambda>_.
     bindIO (absentIO (record_name resource)) (\<lambda>_. bindIO (publish j h ?rec True) (\<lambda>_. journal_read j resource))))) (\<lambda>_ _. True) (refining lim d0)"
    if o: "journal_opaque resource ''resource ID'' = Inr ()"
    by (rule valid_bind [OF insp], rule valid_bind [OF chk], rule valid_bind [OF abs], rule valid_pure, rule pub [OF o])
  show ?thesis
    unfolding claim_intent_def
    by (cases "journal_opaque resource ''resource ID''", rule valid_bind [where R = "\<lambda>_ _. False"])
      (use x0 in \<open>auto intro!: valid_lift rest valid_bind [OF chk] simp: valid_def [of "\<lambda>_. False"]\<close>)
qed

section \<open>Every operation, at every point\<close>

datatype jop =
    Claim pyval pyval pyval pyval pyval pystr "(pystr \<times> pyval) list option"
  | Transition pyval change
  | SetTarget pyval pyval
  | BeginCleanup pyval
  | FinishCleanup pyval bool

fun run_op :: "journal \<Rightarrow> host_io \<Rightarrow> jop \<Rightarrow> pyval io" where
  "run_op j h (Claim session resource kind stage retained schema identity) = claim_intent j h session resource kind stage retained schema identity"
| "run_op j h (Transition resource c) = transition j h resource c"
| "run_op j h (SetTarget resource target) = set_cleanup_target j h resource target"
| "run_op j h (BeginCleanup resource) = begin_cleanup j h resource"
| "run_op j h (FinishCleanup resource complete) = finish_cleanup j h resource complete"

fun wf_op :: "jop \<Rightarrow> bool" where
  "wf_op (Claim session resource kind stage retained schema identity) \<longleftrightarrow> wf_pyval session \<and> wf_pyval resource \<and> wf_pyval kind \<and>
     wf_pyval stage \<and> wf_pyval retained \<and> wf_pystr schema \<and> (case identity of None \<Rightarrow> True | Some i \<Rightarrow> wf_pyval (PDict i))"
| "wf_op (Transition resource c) \<longleftrightarrow> wf_change c"
| "wf_op (SetTarget resource target) \<longleftrightarrow> wf_pyval target"
| "wf_op _ \<longleftrightarrow> True"

lemma op_refines:
  assumes "disk_ok d0" "j_lim j = lim" "3 \<le> lim" "wf_journal j" "wf_op op"
  shows "valid (\<lambda>d. d = d0) (run_op j h op) (\<lambda>_ _. True) (refining lim d0)"
  using assms
  by (cases op) (auto intro!: claim_refines transition_refines target_refines begin_refines finish_refines split: option.splits)


section \<open>Life cycles\<close>

text \<open>One operation, stopped at any cut point or completed.\<close>

inductive journal_step :: "nat \<Rightarrow> disk \<Rightarrow> disk \<Rightarrow> bool" for lim where
  run: "j_lim j = lim \<Longrightarrow> wf_journal j \<Longrightarrow> wf_op op \<Longrightarrow> run_op j h op d = (r, t, d') \<Longrightarrow> D \<in> set (t @ [d']) \<Longrightarrow> journal_step lim d D"

lemma journal_step_refines:
  "journal_step lim d D \<Longrightarrow> disk_ok d \<Longrightarrow> 3 \<le> lim \<Longrightarrow> ledger_step (ledger_of lim d) (ledger_of lim D) \<and> disk_ok D"
proof (induction rule: journal_step.induct)
  case (run j op h d r t d' D)
  then show ?case using validD(1,2) [OF op_refines [OF run(6,1,7,2,3)] refl run(4)] by auto
qed

interpretation jsim: simulation "journal_step lim" "\<lambda>d. disk_ok d \<and> 3 \<le> lim" ledger_step "ledger_of lim" for lim
  by unfold_locales (use journal_step_refines in blast)+

interpretation ledger: guarded_steps ledger_step "\<lambda>_. True"
  by unfold_locales

lemma ledger_held:
  assumes "ledger_step\<^sup>*\<^sup>* L L'" "L r = Held p s"
  shows "L' r = Unreadable \<or> (\<exists>q u. L' r = Held q u \<and> s \<le> u \<and> (u = s \<longrightarrow> q = p) \<and> phase_step\<^sup>*\<^sup>* p q)" (is "?P L'")
proof (rule ledger.steps_keep [OF assms(1), where P = ?P])
  fix L1 L2
  assume "ledger_step L1 L2" "?P L1"
  then show "?P L2" by (elim ledger_stepE) (auto split: if_splits intro: rtranclp.rtrancl_into_rtrancl)
qed (use assms(2) in auto)

lemma terminal_phase: "is_name p [''reclaimed'', ''ambiguous''] \<Longrightarrow> \<not> phase_step p q"
  by (auto simp: phase_step_def table_get_def journal_transitions_def)

lemma ledger_terminal:
  assumes "ledger_step\<^sup>*\<^sup>* L L'" "L r = Held p s" "is_name p [''reclaimed'', ''ambiguous'']"
  shows "L' r = Held p s"
proof (rule ledger.steps_keep [OF assms(1), where P = "\<lambda>L. L r = Held p s"])
  fix L1 L2
  assume "ledger_step L1 L2" "L1 r = Held p s"
  then show "L2 r = Held p s" using terminal_phase [OF assms(3)] by (elim ledger_stepE) (auto split: if_splits)
qed (use assms(2) in auto)


end
