(* ===== verification/RecoveryWitness.thy ===== *)
theory RecoveryWitness
  imports RecoveryLedger
begin

text \<open>
  The journal in operation: publication returns when the host cooperates, and a concrete claimed cgroup shows
  that the hypotheses of the crash, refinement and life-cycle theorems hold together.
\<close>

section \<open>Publication returns\<close>

definition returns :: "(disk \<Rightarrow> bool) \<Rightarrow> 'a io \<Rightarrow> (disk \<Rightarrow> bool) \<Rightarrow> bool" where
  "returns P m Q \<longleftrightarrow> (\<forall>d. P d \<longrightarrow> (\<exists>x t d'. m d = (Inr x, t, d') \<and> Q d'))"

lemma returns_ret: "(\<And>d. P d \<Longrightarrow> Q d) \<Longrightarrow> returns P (retIO x) Q"
  by (simp add: returns_def retIO_def)

lemma returns_lift: "r = Inr x \<Longrightarrow> (\<And>d. P d \<Longrightarrow> Q d) \<Longrightarrow> returns P (liftIO r) Q"
  by (simp add: returns_def liftIO_def)

lemma returns_step: "(\<And>d. P d \<Longrightarrow> Q (f d)) \<Longrightarrow> returns P (stepIO f) Q"
  by (simp add: returns_def stepIO_def)

lemma returns_ask: "(\<And>d. P d \<Longrightarrow> returns (\<lambda>d'. d' = d) (f d) Q) \<Longrightarrow> returns P (askIO f) Q"
  by (simp add: returns_def askIO_def)

lemma returns_bind: "returns P m R \<Longrightarrow> (\<And>x. returns R (f x) Q) \<Longrightarrow> returns P (bindIO m f) Q"
  unfolding returns_def
proof (intro allI impI)
  fix d assume a: "\<forall>d. P d \<longrightarrow> (\<exists>x t d'. m d = (Inr x, t, d') \<and> R d')" "\<And>x. \<forall>d. R d \<longrightarrow> (\<exists>y t d'. f x d = (Inr y, t, d') \<and> Q d')" "P d"
  then obtain x t d1 where m: "m d = (Inr x, t, d1)" "R d1" by blast
  then obtain y t' d2 where "f x d1 = (Inr y, t', d2)" "Q d2" using a(2) by blast
  with m show "\<exists>y t d'. bindIO m f d = (Inr y, t, d') \<and> Q d'" by (simp add: bindIO_def)
qed

lemma returns_finally: "returns P m R \<Longrightarrow> returns R fin Q \<Longrightarrow> returns P (finallyIO m fin) Q"
  unfolding returns_def
proof (intro allI impI)
  fix d assume a: "\<forall>d. P d \<longrightarrow> (\<exists>x t d'. m d = (Inr x, t, d') \<and> R d')" "\<forall>d. R d \<longrightarrow> (\<exists>y t d'. fin d = (Inr y, t, d') \<and> Q d')" "P d"
  then obtain x t d1 where m: "m d = (Inr x, t, d1)" "R d1" by blast
  then obtain y t' d2 where "fin d1 = (Inr y, t', d2)" "Q d2" using a(2) by blast
  with m show "\<exists>y t d'. finallyIO m fin d = (Inr y, t, d') \<and> Q d'" by (simp add: finallyIO_def)
qed

lemma returns_pre: "returns P m Q \<Longrightarrow> (\<And>d. P' d \<Longrightarrow> P d) \<Longrightarrow> returns P' m Q"
  by (simp add: returns_def)

lemma returns_cut: "(\<And>s n. io_fault h s n = None) \<Longrightarrow> returns P (cutIO h name n) P"
  unfolding cutIO_def by (simp add: returns_ret)

lemma write_loop_returns:
  assumes "\<And>s n. io_fault h s n = None" "\<And>n. 0 < io_count h n" "temp \<noteq> final"
  shows "returns (\<lambda>d. map_of (jnow d) final = x) (write_loop h temp encoded offset) (\<lambda>d. map_of (jnow d) final = x)"
  using assms
proof (induction h temp encoded offset rule: write_loop.induct)
  case (1 h temp encoded offset)
  let ?c = "min (io_count h offset) (length encoded - offset)"
  show ?case
  proof (cases "length encoded \<le> offset")
    case True
    then show ?thesis by (subst write_loop.simps) (simp add: returns_ret)
  next
    case False
    then have c: "?c \<noteq> 0" using 1(3) [of offset] by auto
    have a: "returns (\<lambda>d. map_of (jnow d) final = x) (stepIO (jput temp (JFile (take (offset + ?c) encoded) False))) (\<lambda>d. map_of (jnow d) final = x)"
      using 1(4) by (auto intro!: returns_step simp: jput_def update_conv')
    show ?thesis
      unfolding write_loop.simps [of h temp encoded offset] Let_def if_not_P [OF False] if_not_P [OF c]
      by (rule returns_bind [OF a returns_bind [OF returns_cut [OF 1(2)] 1(1) [OF False refl c 1(2-4)]]])
  qed
qed

lemma publish_completes:
  assumes "\<not> j_closed j" "encode_record payload = Inr data" "is_Dict payload"
    and "\<And>s n. io_fault h s n = None" "\<And>n. 0 < io_count h n" "map_of (jnow d) (temp_name h) = None"
    and "map_of (jnow d) (record_name (fld payload ''resourceId'')) = x" "create \<Longrightarrow> x = None" "x \<noteq> Some JDir"
  shows "\<exists>t d'. publish j h payload create d = (Inr (), t, d')"
proof -
  let ?f = "record_name (fld payload ''resourceId'')" and ?t = "temp_name h"
  let ?P = "\<lambda>d. map_of (jnow d) ?f = x"
  have ne: "?t \<noteq> ?f" using temp_not_record [OF encode_opaque [OF assms(2,3)]] by blast
  have op: "returns (\<lambda>d. ?P d \<and> map_of (jnow d) ?t = None) (open_temp ?t) ?P"
    unfolding open_temp_def by (rule returns_ask) (use ne in \<open>auto intro!: returns_step simp: jput_def update_conv'\<close>)
  have sy: "returns ?P (stepIO (jsync_file ?t)) ?P"
    using ne by (auto intro!: returns_step simp: jsync_file_def jput_def update_conv' split: option.splits fentry.splits)
  have re: "returns ?P (replace_file ?t ?f) (\<lambda>_. True)"
    unfolding replace_file_def by (rule returns_ask) (use assms(9) in \<open>auto intro!: returns_step\<close>)
  have dy: "returns (\<lambda>_. True) (stepIO jsync_dir) (\<lambda>_. True)" by (rule returns_step)
  have ul: "returns (\<lambda>_. True) (unlink_temp ?t) (\<lambda>_. True)"
    unfolding unlink_temp_def by (rule returns_ask) (auto intro: returns_ret returns_step)
  note cut = returns_cut [OF assms(4)]
  have body: "returns (\<lambda>d. ?P d \<and> map_of (jnow d) ?t = None) (publish_body h ?t ?f data) (\<lambda>_. True)"
    unfolding publish_body_def
    by (rule returns_bind [OF cut], rule returns_bind [OF op], rule returns_bind [OF cut],
        rule returns_bind [OF write_loop_returns [OF assms(4,5) ne]], rule returns_bind [OF sy], rule returns_bind [OF cut],
        rule returns_bind [OF re], rule returns_bind [OF cut], rule returns_bind [OF dy], rule cut)
  have ab: "returns (\<lambda>d. ?P d \<and> map_of (jnow d) ?t = None) (if create then absentIO ?f else retIO ()) (\<lambda>d. ?P d \<and> map_of (jnow d) ?t = None)"
    using assms(8) unfolding absentIO_def by (cases create) (auto intro!: returns_ask returns_lift returns_ret)
  have "returns (\<lambda>d. ?P d \<and> map_of (jnow d) ?t = None) (publish j h payload create) (\<lambda>_. True)"
    using returns_bind [OF ab returns_finally [OF body ul]] assms(1)
    unfolding publish_def Let_def assms(2) by (simp only: not_False_eq_True guardE_simps bind_lift_Inr)
  then show ?thesis using assms(6,7) by (simp add: returns_def)
qed

text \<open>C15 Publication makes progress: with the lease open, a record that encodes, a fresh temporary name, a host that
  takes at least one byte per write and no fault, \<^verbatim>\<open>_publish\<close> returns normally, however the writes are cut up,
  and the record is on the disk, flushed, with no temporary file left.\<close>

theorem publish_returns:
  assumes "\<not> j_closed j" "encode_record payload = Inr data" "is_Dict payload"
    and "\<And>s n. io_fault h s n = None" "\<And>n. 0 < io_count h n" "map_of (jnow d) (temp_name h) = None"
    and "map_of (jnow d) (record_name (fld payload ''resourceId'')) = x" "create \<Longrightarrow> x = None" "x \<noteq> Some JDir"
  shows "\<exists>t d'. publish j h payload create d = (Inr (), t, d') \<and> jhist d' = [] \<and>
    map_of (jnow d') (record_name (fld payload ''resourceId'')) = Some (JFile data True) \<and> map_of (jnow d') (temp_name h) = None"
proof -
  obtain t d' where run: "publish j h payload create d = (Inr (), t, d')" using publish_completes [OF assms] by blast
  have ne: "temp_name h \<noteq> record_name (fld payload ''resourceId'')" using temp_not_record [OF encode_opaque [OF assms(2,3)]] by blast
  from validD(3) [OF publish_valid [OF assms(2) refl ne] refl run refl] run show ?thesis by blast
qed

section \<open>The length of a record\<close>

fun jlen :: "pyval \<Rightarrow> nat" where
  "jlen (PStr s) = 2 + length (concat (map ascii_char s))"
| "jlen (PList xs) = 2 + sum_list (map jlen xs) + (length xs - 1)"
| "jlen (PDict d) = 2 + sum_list (map (\<lambda>(k, v). length (concat (map ascii_char k)) + 3 + jlen v) d) + (length d - 1)"
| "jlen v = length (json_print ascii_char v)"

lemma length_pjoin: "length (pjoin c ps) = sum_list (map length ps) + (length ps - 1)"
  by (induction c ps rule: pjoin.induct) auto

lemma length_json_print: "length (json_print ascii_char v) = jlen v"
proof (induction v rule: pyval_induct)
  case (PList xs)
  then show ?case by (simp add: length_pjoin comp_def cong: map_cong)
next
  case (PDict d)
  have "map length (map (\<lambda>(k, v). jprint_with ascii_char k @ [58] @ json_print ascii_char v) d) =
      map (\<lambda>(k, v). length (concat (map ascii_char k)) + 3 + jlen v) d"
    using PDict by (auto simp: jprint_with_def)
  then show ?case by (simp only: json_print.simps length_append length_pjoin length_map jlen.simps list.size)
qed (simp_all add: jprint_with_def)

lemma jlen_sort_keys: "jlen (sort_keys v) = jlen v"
proof (induction v rule: pyval_induct)
  case (PList xs)
  then show ?case by (simp add: comp_def cong: map_cong)
next
  case (PDict d)
  let ?f = "\<lambda>(k, v). length (concat (map ascii_char k)) + 3 + jlen v"
  have "mset (map ?f (sort_items d)) = mset (map ?f d)"
    using PDict by (auto simp: image_mset.compositionality comp_def case_prod_unfold intro!: image_mset_cong)
  then have "sum_list (map ?f (sort_items d)) = sum_list (map ?f d)" by (metis sum_mset_sum_list)
  moreover have "length (sort_items d) = length d" by simp
  ultimately show ?case by (simp only: sort_keys.simps jlen.simps)
qed auto

lemma length_canonical: "length (canonical_text v) = jlen v"
  by (simp add: canonical_text_def length_json_print jlen_sort_keys)

lemma hex_spelling: "list_all is_hex s \<Longrightarrow> length (concat (map ascii_char s)) = length s"
  by (induction s) (auto simp: ascii_char_def jprint_char_def is_hex_def is_digit_def)

section \<open>A claimed cgroup\<close>

definition example_journal :: journal where
  "example_journal = \<lparr>j_closed = False, j_controller = lit ''c0'', j_boot = lit ''b0'', j_uid = 1000,
     j_root = PDict [(lit ''device'', PInt 1), (lit ''inode'', PInt 2), (lit ''uid'', PInt 1000)], j_lim = 900\<rparr>"

definition example_host :: host_io where
  "example_host = \<lparr>io_token = lit ''00ff'', io_count = (\<lambda>n. 4096), io_fault = (\<lambda>s n. None)\<rparr>"

definition example_disk :: disk where
  "example_disk = \<lparr>jnow = [], jhist = [], qnow = []\<rparr>"

definition example_claim :: jop where
  "example_claim = Claim (pyl ''s1'') (pyl ''g1'') (pyl ''cgroup'') (pyl ''worker'') (PBool False) (lit journal_schema) None"

definition example_payload :: pyval where
  "example_payload = claim_record example_journal (pyl ''s1'') (pyl ''g1'') (pyl ''cgroup'') (pyl ''worker'') (PBool False) (lit journal_schema) None"

definition unsigned_checks :: "pyval \<Rightarrow> bool" where
  "unsigned_checks v \<longleftrightarrow>
     validate_head v None = Inr () \<and>
     validate_identity (fld v ''kind'') (fld v ''phase'') (fld v ''identity'') (fld v ''schema'') = Inr (fld v ''identity'') \<and>
     (fld v ''schema'' = pyl group_schema \<and> fld v ''cleanupEvidence'' \<noteq> PNone \<longrightarrow>
        validate_evidence (fld v ''kind'') (fld v ''phase'') (fld v ''cleanupEvidence'') = Inr ()) \<and>
     is_Bool (fld v ''retainedRecoverable'') \<and>
     exact_fields (fld v ''stateRoot'') root_identity_fields \<and>
     list_all (\<lambda>k. natural (fld (fld v ''stateRoot'') k)) root_identity_fields \<and>
     validate_target (fld v ''cleanupTarget'') = Inr (fld v ''cleanupTarget'') \<and>
     (fld v ''kind'' = pyl ''retained_source'' \<and> is_name (fld v ''phase'') [''cleanup_intent'', ''cleanup_failed'', ''reclaimed''] \<longrightarrow>
        the_Bool (fld v ''retainedRecoverable'')) \<and>
     validate_observations (fld v ''observations'') = Inr ()"

lemma example_unsigned: "unsigned_checks (PDict (dset (the_Dict example_payload) (lit ''checksum'') (PStr x)))"
  by code_simp

lemma encode_ok:
  assumes "is_Dict p" "lit ''checksum'' \<notin> set (keys p)" "unsigned_checks (with_checksum p (canonical_text p))" "jints plain_int p"
    "jlen p + 100 \<le> max_record_bytes"
  shows "encode_record p = Inr (canonical_text (with_checksum p (canonical_text p)) @ [10])"
proof -
  let ?x = "sha256_hex (canonical_text p)" and ?v = "with_checksum p (canonical_text p)"
  obtain d where d: "p = PDict d" using assms(1) by (cases p) auto
  have v: "?v = PDict (d @ [(lit ''checksum'', PStr ?x)])" using assms(2) by (simp add: d dset_fresh)
  have hex: "length ?x = 64" "list_all is_hex ?x" using sha256_hex_digest [of "canonical_text p"] by (auto simp: re_hex_def)
  have del: "PDict (ddel (the_Dict ?v) (lit ''checksum'')) = p"
    using assms(2) unfolding v by (auto simp: ddel_def d filter_id_conv rev_image_eqI)
  have dumps: "dumps_canonical p = Inr (canonical_text p)" "dumps_canonical ?v = Inr (canonical_text ?v)"
    using assms(4) unfolding v by (auto simp: dumps_canonical_def d)
  have "fld ?v ''checksum'' = PStr ?x" by (simp add: fld_dset)
  then have "validate_checksum ?v = Inr ()"
    unfolding validate_checksum_def del dumps(1) using hex by (simp add: hex_digest_def)
  then have "record_checks ?v None" using assms(3) unfolding record_checks_def unsigned_checks_def by blast
  then have val: "validate_record ?v None = Inr ?v" by (rule record_checksI)
  have "jlen (PDict (d @ [(lit ''checksum'', PStr ?x)])) \<le> jlen (PDict d) + 80" using hex_spelling [OF hex(2)] hex(1) by (simp add: lit_def ascii_char_def jprint_char_def)
  then have "jlen ?v \<le> jlen p + 80" unfolding v by (simp only: d)
  then have "length (canonical_text ?v) + 1 \<le> max_record_bytes" using assms(5) by (simp only: length_canonical)
  then show ?thesis unfolding encode_record_def dumps(1) Let_def by (simp add: val dumps(2))
qed

lemma example_payload_props:
  "is_Dict example_payload" "lit ''checksum'' \<notin> set (keys example_payload)" "jints plain_int example_payload"
  "jlen example_payload + 100 \<le> max_record_bytes" "wf_pyval example_payload" "jints journal_int example_payload"
  by code_simp+

lemma example_encodes:
  "encode_record example_payload = Inr (canonical_text (with_checksum example_payload (canonical_text example_payload)) @ [10])"
  by (rule encode_ok [OF example_payload_props(1,2) example_unsigned example_payload_props(3,4)])

theorem publish_returns_witness:
  "\<exists>t d' data. publish example_journal example_host example_payload True example_disk = (Inr (), t, d') \<and> jhist d' = [] \<and>
    map_of (jnow d') (lit ''g1.json'') = Some (JFile data True) \<and> map_of (jnow d') (temp_name example_host) = None"
proof -
  have n: "record_name (fld example_payload ''resourceId'') = lit ''g1.json''" by code_simp
  have "\<not> j_closed example_journal" "\<And>s n. io_fault example_host s n = None" "\<And>n. 0 < io_count example_host n"
    by (simp_all add: example_journal_def example_host_def)
  from publish_returns [OF this(1) example_encodes example_payload_props(1) this(2,3), of example_disk None True] show ?thesis
    unfolding n by (auto simp: example_disk_def)
qed

theorem publish_crash_consistent_witness:
  "case publish example_journal example_host example_payload True example_disk of (r, t, d') \<Rightarrow>
    \<forall>D \<in> set (t @ [d']). \<forall>e. survives D (lit ''g1.json'') e \<longrightarrow> e = None \<or>
      (\<exists>data. encode_record example_payload = Inr data \<and> e = Some (JFile data True))"
proof -
  obtain r t d' where run: "publish example_journal example_host example_payload True example_disk = (r, t, d')" by (metis prod_cases3)
  have n: "record_name (fld example_payload ''resourceId'') = lit ''g1.json''" by code_simp
  have ne: "lit ''g1.json'' \<noteq> temp_name example_host" by code_simp
  have none: "survives example_disk m e \<longleftrightarrow> e = None" for m e by (simp add: survives_def settles_def example_disk_def)
  show ?thesis
    using publish_crash_consistent [OF run example_payload_props(1), THEN conjunct1] ne unfolding run n none prod.case by metis
qed

theorem record_roundtrip_witness:
  "decode_record 900 (canonical_text (with_checksum example_payload (canonical_text example_payload)) @ [10]) (lit ''g1.json'') =
    Inr (sort_keys (with_checksum example_payload (canonical_text example_payload)))"
proof -
  have n: "the_Str (fld example_payload ''resourceId'') @ lit ''.json'' = lit ''g1.json''" by code_simp
  show ?thesis
    using record_roundtrip [OF example_encodes example_payload_props(1,5,6), of 900] unfolding n by simp
qed

lemma example_wf: "wf_journal example_journal" "3 \<le> j_lim example_journal" "disk_ok example_disk" "wf_op example_claim"
  by (simp_all add: wf_journal_def example_journal_def disk_ok_def example_disk_def example_claim_def wf_pyl_text)


definition example_claimed :: disk where
  "example_claimed = \<lparr>jnow = [(lit ''g1.json'', JFile (canonical_text (with_checksum example_payload (canonical_text example_payload)) @ [10]) True)],
     jhist = [], qnow = []\<rparr>"

lemma example_claimed_ledger: "ledger_of 900 example_claimed (lit ''g1'') = Held (pyl ''allocation_intent'') 1" "disk_ok example_claimed"
proof -
  let ?v = "with_checksum example_payload (canonical_text example_payload)"
  have r: "fld example_payload ''resourceId'' = pyl ''g1''" "fld example_payload ''phase'' = pyl ''allocation_intent''"
    "the_Int (fld example_payload ''sequence'') = 1" "opaque_id (lit ''g1'')" "lit ''g1'' @ lit ''.json'' = lit ''g1.json''"
    by code_simp+
  obtain v where v: "v = ?v" "validate_record v None = Inr v" "wf_pyval v" "jints plain_int v" "length (canonical_text v) + 1 \<le> max_record_bytes"
    "fld v ''resourceId'' = fld example_payload ''resourceId''"
    by (rule encode_record_Inr [OF example_encodes example_payload_props(1,5)])
  have "jints journal_int (PDict (the_Dict example_payload))" using example_payload_props(1,6) by (cases example_payload) auto
  then have "jints journal_int v" unfolding v(1) by (rule jints_dset) simp
  then obtain b where b: "bounded_json 0 (sort_keys v) 0 = Inr b" using bounded_record [OF v(2,3)] by blast
  have dec: "decode_record 900 (canonical_text v @ [10]) (lit ''g1.json'') = Inr (sort_keys v)"
    using decode_canonical [OF v(2-5), of 900] b by (simp add: v(6) r(1,5))
  note sl = slot_encoded [OF example_encodes example_payload_props(1,5) r(1), of 900]
  have "slot_of 900 (lit ''g1'') (Some (JFile (canonical_text ?v @ [10]) True)) \<noteq> Unreadable"
    using dec v(5) by (simp add: slot_of_def r(5) v(1) [symmetric])
  then have "slot_of 900 (lit ''g1'') (Some (JFile (canonical_text ?v @ [10]) True)) = Held (pyl ''allocation_intent'') 1"
    using sl(1) [of True] by (simp add: r(2,3))
  then show "ledger_of 900 example_claimed (lit ''g1'') = Held (pyl ''allocation_intent'') 1"
    using r(4,5) by (simp add: ledger_of_def example_claimed_def)
  show "disk_ok example_claimed" using sl(2) by (simp add: disk_ok_def example_claimed_def)
qed


section \<open>Identities that do not read back\<close>

lemma bounded_json_ints:
  "bounded_json d v b = Inr b' \<Longrightarrow> jints journal_int v"
  "bounded_list d xs b = Inr b' \<Longrightarrow> list_all (jints journal_int) xs"
  "bounded_dict d kvs b = Inr b' \<Longrightarrow> list_all (\<lambda>(k, v). jints journal_int v) kvs"
proof (induction d v b and d xs b and d kvs b arbitrary: b' and b' and b' rule: bounded_json_bounded_list_bounded_dict.induct)
  case (1 depth v budget)
  then show ?case by (cases v) (auto simp: bindE_eq_Inr simp del: power_numeral)
qed (auto simp: bindE_eq_Inr)

text \<open>
  \<^verbatim>\<open>encode_record\<close> accepts any non-negative integer, but \<^verbatim>\<open>_bounded_json\<close> refuses one of 64 bits: the record of a state
  root with such an inode is written and can never be read again, and as an invalid record it blocks allocation.
\<close>

definition example_wide_payload :: pyval where
  "example_wide_payload = claim_record (example_journal\<lparr>j_root := PDict [(lit ''device'', PInt 1), (lit ''inode'', PInt 9223372036854775808),
     (lit ''uid'', PInt 1000)]\<rparr>) (pyl ''s1'') (pyl ''g1'') (pyl ''cgroup'') (pyl ''worker'') (PBool False) (lit journal_schema) None"

lemma example_wide_props:
  "is_Dict example_wide_payload" "lit ''checksum'' \<notin> set (keys example_wide_payload)" "jints plain_int example_wide_payload"
  "jlen example_wide_payload + 100 \<le> max_record_bytes" "wf_pyval example_wide_payload"
  "unsigned_checks (PDict (dset (the_Dict example_wide_payload) (lit ''checksum'') (PStr x)))"
  by code_simp+

lemma wide_inode_unreadable:
  "\<exists>data. encode_record example_wide_payload = Inr data \<and> (\<forall>v. decode_record 900 data (lit ''g1.json'') \<noteq> Inr v)"
proof -
  note e = encode_ok [OF example_wide_props(1,2) example_wide_props(6) example_wide_props(3,4)]
  obtain v where v: "v = with_checksum example_wide_payload (canonical_text example_wide_payload)" "validate_record v None = Inr v"
    "wf_pyval v" "jints plain_int v" "length (canonical_text v) + 1 \<le> max_record_bytes"
    "fld v ''resourceId'' = fld example_wide_payload ''resourceId''"
    by (rule encode_record_Inr [OF e example_wide_props(1,5)])
  have r: "the_Str (fld example_wide_payload ''resourceId'') @ lit ''.json'' = lit ''g1.json''" by code_simp
  have "\<not> jints journal_int v"
    by (simp add: v(1) example_wide_payload_def claim_record_def example_journal_def journal_schema_def group_schema_def)
  then have "bounded_json 0 (sort_keys v) 0 \<noteq> Inr b" for b using bounded_json_ints(1) [of 0 "sort_keys v" 0 b] by auto
  then have "decode_record 900 (canonical_text v @ [10]) (lit ''g1.json'') \<noteq> Inr w" for w
    using decode_canonical [OF v(2-5), of 900] by (auto simp: v(6) r bindE_eq_Inr)
  then show ?thesis using e v(1) by blast
qed

end
