(* ===== verification/WorkerFlow.thy ===== *)
theory WorkerFlow
  imports PortProtocol "HOL-Library.AList"
begin

text \<open>
  The relay between a worker's client and the worker (\<^verbatim>\<open>WorkerFlow\<close> and \<^verbatim>\<open>_frames\<close> of
  \<^verbatim>\<open>supervisor/mirrorgate/worker_broker.py\<close>).  \<open>flow\<close> is the correlation state.  A frame handler returns its
  exception or success together with the state it leaves, because the source updates \<^verbatim>\<open>last_id\<close>, the pending
  identifiers and the request table before some of its checks; \<open>worker_response\<close> also returns the events it
  emits.  \<open>flow_trace\<close> takes frames and \<^verbatim>\<open>begin_closing\<close> in any order, as the two relay threads and the
  control plane interleave them under \<^verbatim>\<open>self.lock\<close>.
\<close>

section \<open>State\<close>

datatype lifecycle_state = AwaitHello | AwaitCreate | Created | Ready | Disposed | Poisoned

datatype cleanup = DisposeThenTerminate | TerminateOnly

record flow =
  last_id :: int
  requests :: "(int \<times> pyval) list"
  ordinary_pending :: "int option"
  cancel_pending :: "int option"
  lifecycle :: lifecycle_state
  closing :: bool
  cancelled_ever :: bool
  dispose_sent :: bool
  cooperative_failure :: "pystr option"

definition flow_init :: flow where
  "flow_init = \<lparr>last_id = 0, requests = [], ordinary_pending = None, cancel_pending = None, lifecycle = AwaitHello,
     closing = False, cancelled_ever = False, dispose_sent = False, cooperative_failure = None\<rparr>"

definition flow_cleanup_mode :: "flow \<Rightarrow> cleanup" where
  "flow_cleanup_mode w =
     (if ordinary_pending w = None \<and> cancel_pending w = None \<and> \<not> cancelled_ever w \<and> \<not> dispose_sent w \<and>
         lifecycle w \<in> {Created, Ready}
      then DisposeThenTerminate else TerminateOnly)"

definition begin_closing :: "flow \<Rightarrow> cleanup \<times> flow" where
  "begin_closing w = (let w' = w\<lparr>closing := True\<rparr> in (flow_cleanup_mode w', w'))"

section \<open>Client requests\<close>

definition cancels_pending :: "flow \<Rightarrow> pyval \<Rightarrow> bool" where
  "cancels_pending w request \<longleftrightarrow>
     ordinary_pending w = Some (the_Int (fld request ''requestId'')) \<and> cancel_pending w = None"

definition closing_gate :: "flow \<Rightarrow> pyval \<Rightarrow> unit res" where
  "closing_gate w request =
     whenE (closing w)
       (if fld request ''op'' = pyl ''cancel'' then
          guardE (cancels_pending w request)
            (ProtocolError ''LIFECYCLE'' ''closing permits only cancellation of the pending call'')
        else if fld request ''op'' = pyl ''dispose'' then
          guardE (flow_cleanup_mode w = DisposeThenTerminate)
            (ProtocolError ''LIFECYCLE'' ''worker is not quiescent for cooperative disposal'')
        else Inl (ProtocolError ''LIFECYCLE'' ''worker is closing''))"

definition ordinary_gate :: "flow \<Rightarrow> pyval \<Rightarrow> unit res" where
  "ordinary_gate w op = seqE
     [guardE (ordinary_pending w = None) (ProtocolError ''SCHEMA'' ''worker request pipelining is forbidden''),
      guardE (op = pyl ''hello'' \<longrightarrow> lifecycle w = AwaitHello) (ProtocolError ''LIFECYCLE'' ''unexpected worker hello''),
      guardE (op = pyl ''create'' \<longrightarrow> lifecycle w = AwaitCreate)
        (ProtocolError ''LIFECYCLE'' ''create requires a successful hello''),
      guardE (op \<notin> {pyl ''hello'', pyl ''create''} \<longrightarrow> lifecycle w \<in> {Created, Ready})
        (ProtocolError ''LIFECYCLE'' ''worker is not ready''),
      guardE (op = pyl ''dispose'' \<longrightarrow> \<not> dispose_sent w) (ProtocolError ''LIFECYCLE'' ''dispose is at most once'')]"

definition admit_request :: "flow \<Rightarrow> pyval \<Rightarrow> flow res" where
  "admit_request w request =
     (let request_id = the_Int (fld request ''id''); op = fld request ''op'' in
      if op = pyl ''cancel'' then
        retE [guardE (cancels_pending w request) (ProtocolError ''SCHEMA'' ''invalid worker cancellation'')]
          (w\<lparr>cancel_pending := Some request_id, cancelled_ever := True\<rparr>)
      else
        retE [ordinary_gate w op]
          (w\<lparr>dispose_sent := (dispose_sent w \<or> op = pyl ''dispose''), ordinary_pending := Some request_id\<rparr>))"

definition client_request :: "flow \<Rightarrow> pyval \<Rightarrow> unit res \<times> flow" where
  "client_request w request =
     (let request_id = the_Int (fld request ''id'') in
      if request_id \<le> last_id w then (Inl (ProtocolError ''SCHEMA'' ''request IDs must increase''), w)
      else
        let w = w\<lparr>last_id := request_id\<rparr> in
        case bindE (closing_gate w request) (\<lambda>_. admit_request w request) of
          Inl e \<Rightarrow> (Inl e, w)
        | Inr w' \<Rightarrow> (Inr (), w'\<lparr>requests := AList.update request_id request (requests w')\<rparr>))"

definition client_frame :: "nat \<Rightarrow> flow \<Rightarrow> bytes \<Rightarrow> unit res \<times> flow" where
  "client_frame lim w frame =
     (case bindE (port_parse_frame lim frame) port_validate_request of
        Inl e \<Rightarrow> (Inl e, w)
      | Inr request \<Rightarrow> client_request w request)"

section \<open>Worker responses\<close>

datatype event = WorkerReady

definition settle_pending :: "flow \<Rightarrow> int \<Rightarrow> flow res" where
  "settle_pending w request_id =
     (if cancel_pending w = Some request_id then
        retE [guardE (ordinary_pending w = None)
                (ProtocolError ''SCHEMA'' ''cancel response preceded cancelled operation response'')]
          (w\<lparr>cancel_pending := None\<rparr>)
      else if ordinary_pending w = Some request_id then Inr (w\<lparr>ordinary_pending := None\<rparr>)
      else Inl (ProtocolError ''SCHEMA'' ''worker response order is invalid''))"

definition hello_matches :: "pyval \<Rightarrow> pyval \<Rightarrow> bool" where
  "hello_matches request result \<longleftrightarrow>
     is_Dict result \<and> set (keys result) = names [''interfaceDigest'', ''runtime''] \<and>
     fld result ''interfaceDigest'' = fld request ''interfaceDigest'' \<and>
     fld result ''runtime'' = fld request ''runtime''"

definition dispose_message :: "pyval \<Rightarrow> pystr" where
  "dispose_message response = take 1024 (the_Str (fld (fld response ''error'') ''message''))"

definition response_effect :: "flow \<Rightarrow> pyval \<Rightarrow> pyval \<Rightarrow> (flow \<times> event list) res" where
  "response_effect w request response =
     (let op = fld request ''op''; ok = the_Bool (fld response ''ok''); result = fld response ''result'' in
      if op = pyl ''hello'' then
        retE [guardE ok (ProtocolError ''HANDSHAKE'' ''worker rejected hello''),
              guardE (hello_matches request result) (ProtocolError ''HANDSHAKE'' ''worker hello identity mismatch'')]
          (w\<lparr>lifecycle := AwaitCreate\<rparr>, [])
      else if op = pyl ''create'' then
        retE [guardE (ok \<and> result = PNone) (ProtocolError ''HANDSHAKE'' ''worker create failed'')]
          (w\<lparr>lifecycle := Created\<rparr>, [WorkerReady])
      else if op = pyl ''dispose'' then
        (if ok then
           retE [guardE (result = PNone) (ProtocolError ''SCHEMA'' ''dispose result must be null'')]
             (w\<lparr>lifecycle := Disposed\<rparr>, [])
         else Inr (w\<lparr>lifecycle := Poisoned, cooperative_failure := Some (dispose_message response)\<rparr>, []))
      else if \<not> ok then Inr (w\<lparr>lifecycle := Poisoned\<rparr>, [])
      else Inr (w\<lparr>lifecycle := Ready\<rparr>, []))"

definition worker_response :: "flow \<Rightarrow> pyval \<Rightarrow> unit res \<times> flow \<times> event list" where
  "worker_response w response =
     (let request_id = the_Int (fld response ''id'') in
      case map_of (requests w) request_id of
        None \<Rightarrow> (Inl (ProtocolError ''SCHEMA'' ''uncorrelated worker response''), w, [])
      | Some request \<Rightarrow>
          (case settle_pending w request_id of
             Inl e \<Rightarrow> (Inl e, w, [])
           | Inr w' \<Rightarrow>
               let w'' = w'\<lparr>requests := AList.delete request_id (requests w')\<rparr> in
               (case response_effect w'' request response of
                  Inl e \<Rightarrow> (Inl e, w'', [])
                | Inr (w''', events) \<Rightarrow> (Inr (), w''', events))))"

definition worker_frame :: "nat \<Rightarrow> flow \<Rightarrow> bytes \<Rightarrow> unit res \<times> flow \<times> event list" where
  "worker_frame lim w frame =
     (case bindE (port_parse_frame lim frame) port_validate_response of
        Inl e \<Rightarrow> (Inl e, w, [])
      | Inr response \<Rightarrow> worker_response w response)"

section \<open>Cutting the byte stream into frames\<close>

definition line_end :: "bytes \<Rightarrow> nat" where
  "line_end buffer = length (takeWhile (\<lambda>b. b \<noteq> 10) buffer) + 1"

function frames_loop :: "bytes \<Rightarrow> bytes list \<Rightarrow> (bytes list \<times> bytes) res" where
  "frames_loop buffer frames =
     (if 10 \<in> set buffer then
        (let split = line_end buffer in
         if port_max_frame_bytes + 1 < split then Inl (ProtocolError ''LIMIT'' ''worker frame exceeds limit'')
         else frames_loop (drop split buffer) (frames @ [take split buffer]))
      else Inr (frames, buffer))"
  by pat_completeness auto
termination
  by (relation "measure (\<lambda>(buffer, frames). length buffer)")
    (auto simp: line_end_def dest: length_pos_if_in_set intro!: diff_less)

declare frames_loop.simps [simp del]

definition frames_of :: "bytes \<Rightarrow> bytes \<Rightarrow> (bytes list \<times> bytes) res" where
  "frames_of buffer chunk =
     (let buffer = buffer @ chunk in
      if port_max_frame_bytes + 1 < length buffer \<and> 10 \<notin> set buffer
      then Inl (ProtocolError ''LIMIT'' ''unterminated worker frame exceeds limit'')
      else frames_loop buffer [])"

section \<open>The two relay loops\<close>

text \<open>
  \<open>client_frames\<close> and \<open>worker_frames\<close> are the inner loops of \<^verbatim>\<open>_client_to_worker\<close> and \<^verbatim>\<open>_worker_to_client\<close>: each
  frame is checked and then written on, and the first failing one ends the loop.  The outer loops run over
  the chunks read until end of file; they return the bytes passed on.  A write is taken to succeed; one that
  raises ends the loop like a failing check.
\<close>

fun client_frames :: "nat \<Rightarrow> flow \<Rightarrow> bytes list \<Rightarrow> unit res \<times> flow \<times> bytes list" where
  "client_frames lim w [] = (Inr (), w, [])"
| "client_frames lim w (frame # frames) =
     (case client_frame lim w frame of
        (Inl e, w') \<Rightarrow> (Inl e, w', [])
      | (Inr _, w') \<Rightarrow> (case client_frames lim w' frames of (r, w'', out) \<Rightarrow> (r, w'', frame # out)))"

fun client_to_worker :: "nat \<Rightarrow> flow \<Rightarrow> bytes \<Rightarrow> bytes list \<Rightarrow> unit res \<times> flow \<times> bytes list" where
  "client_to_worker lim w buffer [] =
     (guardE (buffer = []) (ProtocolError ''FRAME'' ''unterminated worker request''), w, [])"
| "client_to_worker lim w buffer (chunk # chunks) =
     (case frames_of buffer chunk of
        Inl e \<Rightarrow> (Inl e, w, [])
      | Inr (frames, rest) \<Rightarrow>
          (case client_frames lim w frames of
             (Inl e, w', out) \<Rightarrow> (Inl e, w', out)
           | (Inr _, w', out) \<Rightarrow>
               (case client_to_worker lim w' rest chunks of (r, w'', out') \<Rightarrow> (r, w'', out @ out'))))"

fun worker_frames :: "nat \<Rightarrow> flow \<Rightarrow> bytes list \<Rightarrow> unit res \<times> flow \<times> bytes list \<times> event list" where
  "worker_frames lim w [] = (Inr (), w, [], [])"
| "worker_frames lim w (frame # frames) =
     (case worker_frame lim w frame of
        (Inl e, w', events) \<Rightarrow> (Inl e, w', [], events)
      | (Inr _, w', events) \<Rightarrow>
          (case worker_frames lim w' frames of (r, w'', out, events') \<Rightarrow> (r, w'', frame # out, events @ events')))"

fun worker_to_client :: "nat \<Rightarrow> flow \<Rightarrow> bytes \<Rightarrow> bytes list \<Rightarrow> unit res \<times> flow \<times> bytes list \<times> event list" where
  "worker_to_client lim w buffer [] =
     (guardE (buffer = []) (ProtocolError ''FRAME'' ''unterminated worker response''), w, [], [])"
| "worker_to_client lim w buffer (chunk # chunks) =
     (case frames_of buffer chunk of
        Inl e \<Rightarrow> (Inl e, w, [], [])
      | Inr (frames, rest) \<Rightarrow>
          (case worker_frames lim w frames of
             (Inl e, w', out, events) \<Rightarrow> (Inl e, w', out, events)
           | (Inr _, w', out, events) \<Rightarrow>
               (case worker_to_client lim w' rest chunks of
                  (r, w'', out', events') \<Rightarrow> (r, w'', out @ out', events @ events'))))"

section \<open>Histories\<close>

text \<open>
  What passes through the relay, newest first: requests handed to the worker, responses handed to the client
  together with the request they answer, and the start of closing.  Refused frames leave a state but no entry.
\<close>

datatype flow_act = Forwarded pyval | Answered pyval pyval | Closing

inductive flow_trace :: "nat \<Rightarrow> flow_act list \<Rightarrow> flow \<Rightarrow> bool" for lim where
  start: "flow_trace lim [] flow_init"
| request: "flow_trace lim (Forwarded q # h) w'"
    if "flow_trace lim h w" "port_parse_frame lim f = Inr q" "client_frame lim w f = (Inr (), w')"
| refused_request: "flow_trace lim h w'"
    if "flow_trace lim h w" "client_frame lim w f = (Inl e, w')"
| response: "flow_trace lim (Answered q p # h) w'"
    if "flow_trace lim h w" "port_parse_frame lim f = Inr p" "map_of (requests w) (the_Int (fld p ''id'')) = Some q"
       "worker_frame lim w f = (Inr (), w', ev)"
| refused_response: "flow_trace lim h w'"
    if "flow_trace lim h w" "worker_frame lim w f = (Inl e, w', ev)"
| closes: "flow_trace lim (Closing # h) (snd (begin_closing w))"
    if "flow_trace lim h w"

abbreviation req_id :: "pyval \<Rightarrow> int" where
  "req_id q \<equiv> the_Int (fld q ''id'')"

fun forwarded :: "flow_act list \<Rightarrow> pyval list" where
  "forwarded [] = []"
| "forwarded (Forwarded q # h) = q # forwarded h"
| "forwarded (_ # h) = forwarded h"

fun answered :: "flow_act list \<Rightarrow> (pyval \<times> pyval) list" where
  "answered [] = []"
| "answered (Answered q p # h) = (q, p) # answered h"
| "answered (_ # h) = answered h"

lemma client_requestE:
  assumes "client_request w q = (r, w')"
  obtains (refused) e where "r = Inl e" "w' = w \<or> w' = w\<lparr>last_id := req_id q\<rparr> \<and> last_id w < req_id q"
  | (accepted) v where "r = Inr ()" "last_id w < req_id q" "closing_gate (w\<lparr>last_id := req_id q\<rparr>) q = Inr ()"
      "admit_request (w\<lparr>last_id := req_id q\<rparr>) q = Inr v"
      "w' = v\<lparr>requests := AList.update (req_id q) q (requests v)\<rparr>"
  using assms unfolding client_request_def Let_def
  by (auto split: if_splits sum.splits simp: bindE_eq_Inr bindE_eq_Inl)

lemma client_frameE:
  assumes "client_frame lim w f = (r, w')"
  obtains (invalid) e where "r = Inl e" "w' = w"
  | (valid) q where "port_parse_frame lim f = Inr q" "port_validate_request q = Inr q" "client_request w q = (r, w')"
proof (cases "bindE (port_parse_frame lim f) port_validate_request")
  case (Inr q)
  then obtain v where v: "port_parse_frame lim f = Inr v" "port_validate_request v = Inr q" by (auto simp: bindE_eq_Inr)
  then have "q = v" by (auto simp: port_validate_request_def bindE_eq_Inr split: option.splits prod.splits)
  then show ?thesis using that(2) v Inr assms by (simp add: client_frame_def)
qed (use assms that(1) in \<open>auto simp: client_frame_def\<close>)

lemma worker_responseE:
  assumes "worker_response w p = (r, w', ev)"
  obtains (refused) e where "r = Inl e" "w' = w"
  | (settled) q v e where "map_of (requests w) (req_id p) = Some q" "settle_pending w (req_id p) = Inr v"
      "r = Inl e" "w' = v\<lparr>requests := AList.delete (req_id p) (requests v)\<rparr>"
  | (answered) q v where "map_of (requests w) (req_id p) = Some q" "settle_pending w (req_id p) = Inr v"
      "r = Inr ()" "response_effect (v\<lparr>requests := AList.delete (req_id p) (requests v)\<rparr>) q p = Inr (w', ev)"
  using assms unfolding worker_response_def Let_def
  by (auto split: option.splits sum.splits prod.splits)

lemma worker_frameE:
  assumes "worker_frame lim w f = (r, w', ev)"
  obtains (invalid) e where "r = Inl e" "w' = w"
  | (valid) p where "port_parse_frame lim f = Inr p" "worker_response w p = (r, w', ev)"
proof (cases "bindE (port_parse_frame lim f) port_validate_response")
  case (Inr q)
  then have "port_parse_frame lim f = Inr q" by (auto simp: bindE_eq_Inr port_validate_response_def)
  then show ?thesis using that(2) Inr assms by (simp add: worker_frame_def)
qed (use assms that(1) in \<open>auto simp: worker_frame_def\<close>)

lemma admit_request_Inr:
  "admit_request w q = Inr v \<longleftrightarrow>
     (if fld q ''op'' = pyl ''cancel'' then
        cancels_pending w q \<and> v = w\<lparr>cancel_pending := Some (req_id q), cancelled_ever := True\<rparr>
      else ordinary_gate w (fld q ''op'') = Inr () \<and>
        v = w\<lparr>dispose_sent := (dispose_sent w \<or> fld q ''op'' = pyl ''dispose''), ordinary_pending := Some (req_id q)\<rparr>)"
  by (simp add: admit_request_def Let_def)

lemma settle_pending_Inr:
  "settle_pending w i = Inr v \<longleftrightarrow>
     cancel_pending w = Some i \<and> ordinary_pending w = None \<and> v = w\<lparr>cancel_pending := None\<rparr> \<or>
     cancel_pending w \<noteq> Some i \<and> ordinary_pending w = Some i \<and> v = w\<lparr>ordinary_pending := None\<rparr>"
  by (auto simp: settle_pending_def)

lemma response_effect_Inr:
  assumes "response_effect w q p = Inr (v, ev)"
  obtains l c where "v = w\<lparr>lifecycle := l, cooperative_failure := c\<rparr>"
proof -
  have "\<exists>l c. v = w\<lparr>lifecycle := l, cooperative_failure := c\<rparr>"
    using assms unfolding response_effect_def Let_def
    by (cases w) (auto split: if_splits)
  then show ?thesis using that by blast
qed

section \<open>The relay invariant\<close>

text \<open>
  The request table holds exactly the pending requests, each under its own identifier, not yet answered;
  identifiers grow; a dispose that went out and the start of closing are remembered.
\<close>

definition pending_ok :: "flow \<Rightarrow> bool" where
  "pending_ok w \<longleftrightarrow> distinct (map fst (requests w)) \<and>
     fst ` set (requests w) = set_option (ordinary_pending w) \<union> set_option (cancel_pending w)"

definition table_ok :: "flow_act list \<Rightarrow> (int \<times> pyval) list \<Rightarrow> bool" where
  "table_ok h table \<longleftrightarrow>
     (\<forall>(i, q) \<in> set table. q \<in> set (forwarded h) \<and> req_id q = i) \<and>
     (\<forall>(q, p) \<in> set (answered h). q \<in> set (forwarded h) \<and> req_id q = req_id p \<and> req_id q \<notin> fst ` set table) \<and>
     distinct (map (\<lambda>(q, p). req_id q) (answered h))"

definition ids_ok :: "flow_act list \<Rightarrow> int \<Rightarrow> bool" where
  "ids_ok h n \<longleftrightarrow> (\<forall>q \<in> set (forwarded h). req_id q \<le> n)"

definition flags_ok :: "flow_act list \<Rightarrow> flow \<Rightarrow> bool" where
  "flags_ok h w \<longleftrightarrow>
     ((\<exists>q \<in> set (forwarded h). fld q ''op'' = pyl ''dispose'') \<longrightarrow> dispose_sent w) \<and>
     ((\<exists>q \<in> set (forwarded h). fld q ''op'' = pyl ''cancel'') \<longrightarrow> cancelled_ever w) \<and>
     (Closing \<in> set h \<longrightarrow> closing w)"

definition flow_ok :: "flow_act list \<Rightarrow> flow \<Rightarrow> bool" where
  "flow_ok h w \<longleftrightarrow> pending_ok w \<and> table_ok h (requests w) \<and> ids_ok h (last_id w) \<and> flags_ok h w"

lemma flow_ok_start: "flow_ok [] flow_init"
  by (simp add: flow_ok_def pending_ok_def table_ok_def ids_ok_def flags_ok_def flow_init_def)

lemma flow_ok_closing: "flow_ok h w \<Longrightarrow> flow_ok (Closing # h) (snd (begin_closing w))"
proof -
  assume "flow_ok h w"
  moreover have "table_ok (Closing # h) t = table_ok h t" for t by (simp add: table_ok_def)
  moreover have "ids_ok (Closing # h) n = ids_ok h n" for n by (simp add: ids_ok_def)
  ultimately show ?thesis by (simp add: flow_ok_def begin_closing_def Let_def pending_ok_def flags_ok_def)
qed

lemma ids_ok_mono: "ids_ok h n \<Longrightarrow> n \<le> m \<Longrightarrow> ids_ok h m"
  by (auto simp: ids_ok_def)

lemma flow_ok_last_id: "flow_ok h w \<Longrightarrow> last_id w < i \<Longrightarrow> flow_ok h (w\<lparr>last_id := i\<rparr>)"
  by (auto simp: flow_ok_def pending_ok_def flags_ok_def elim: ids_ok_mono)

lemma set_update: "distinct (map fst al) \<Longrightarrow> k \<notin> fst ` set al \<Longrightarrow> set (AList.update k v al) = insert (k, v) (set al)"
  by (induction al) auto

lemma set_delete: "set (AList.delete k al) = {x \<in> set al. fst x \<noteq> k}"
  by (auto simp: AList.delete_eq)

lemma table_key_le: "table_ok h t \<Longrightarrow> ids_ok h n \<Longrightarrow> i \<in> fst ` set t \<Longrightarrow> i \<le> n"
  unfolding table_ok_def ids_ok_def by force

lemma table_ok_update:
  assumes "table_ok h t" "ids_ok h n" "n < req_id q" "distinct (map fst t)"
  shows "table_ok (Forwarded q # h) (AList.update (req_id q) q t)"
proof -
  have fresh: "req_id q \<notin> fst ` set t" using table_key_le [OF assms(1,2)] assms(3) by fastforce
  have "req_id r \<noteq> req_id q" if "(r, p) \<in> set (answered h)" for r p
    using assms(1-3) that unfolding table_ok_def ids_ok_def by fastforce
  then show ?thesis using assms(1) unfolding table_ok_def set_update [OF assms(4) fresh] by auto
qed

lemma table_ok_delete: "table_ok h t \<Longrightarrow> table_ok h (AList.delete i t)"
  unfolding table_ok_def set_delete by fastforce

lemma table_ok_answer:
  assumes "table_ok h t" "map_of t (req_id p) = Some q"
  shows "table_ok (Answered q p # h) (AList.delete (req_id p) t)"
proof -
  have mem: "(req_id p, q) \<in> set t" using assms(2) by (rule map_of_SomeD)
  have "req_id q = req_id p" "q \<in> set (forwarded h)" using assms(1) mem by (auto simp: table_ok_def)
  moreover have "req_id r \<noteq> req_id p" if "(r, s) \<in> set (answered h)" for r s
  proof -
    have "req_id p \<in> fst ` set t" using mem by force
    moreover have "req_id r \<notin> fst ` set t" using assms(1) that by (auto simp: table_ok_def)
    ultimately show ?thesis by metis
  qed
  ultimately show ?thesis using assms(1) unfolding table_ok_def set_delete by auto
qed

lemma pending_ok_request:
  assumes "pending_ok w" "admit_request w q = Inr v" "req_id q \<notin> fst ` set (requests w)"
  shows "pending_ok (v\<lparr>requests := AList.update (req_id q) q (requests v)\<rparr>)"
proof -
  have dist: "distinct (map fst (requests w))" and
    keys: "fst ` set (requests w) = set_option (ordinary_pending w) \<union> set_option (cancel_pending w)"
    using assms(1) by (simp_all add: pending_ok_def)
  note upd = set_update [OF dist assms(3)] distinct_update [OF dist]
  show ?thesis
  proof (cases "fld q ''op'' = pyl ''cancel''")
    case True
    then have v: "v = w\<lparr>cancel_pending := Some (req_id q), cancelled_ever := True\<rparr>" and "cancel_pending w = None"
      using assms(2) by (simp_all add: admit_request_Inr cancels_pending_def)
    then show ?thesis using keys by (simp add: pending_ok_def upd v)
  next
    case False
    then have "ordinary_pending w = None" "requests v = requests w" "ordinary_pending v = Some (req_id q)"
      "cancel_pending v = cancel_pending w"
      using assms(2) by (simp_all add: admit_request_Inr ordinary_gate_def)
    then show ?thesis using keys by (simp add: pending_ok_def upd)
  qed
qed

lemma pending_ok_settle:
  assumes "pending_ok w" "settle_pending w i = Inr v"
  shows "pending_ok (v\<lparr>requests := AList.delete i (requests v)\<rparr>)"
proof -
  have "requests v = requests w" using assms(2) by (auto simp: settle_pending_Inr)
  moreover have "fst ` {x \<in> set (requests w). fst x \<noteq> i} = fst ` set (requests w) - {i}" by auto
  ultimately show ?thesis using assms
    by (auto simp: pending_ok_def settle_pending_Inr set_delete distinct_delete)
qed

lemma flow_ok_request:
  assumes ok: "flow_ok h w" and new: "last_id w < req_id q" and v: "admit_request (w\<lparr>last_id := req_id q\<rparr>) q = Inr v"
  shows "flow_ok (Forwarded q # h) (v\<lparr>requests := AList.update (req_id q) q (requests v)\<rparr>)"
proof -
  let ?w = "w\<lparr>last_id := req_id q\<rparr>"
  have parts: "pending_ok ?w" "table_ok h (requests w)" "ids_ok h (last_id w)" "flags_ok h w"
    using ok by (auto simp: flow_ok_def pending_ok_def)
  have fresh: "req_id q \<notin> fst ` set (requests ?w)" using table_key_le [OF parts(2,3)] new by fastforce
  have req: "requests v = requests w" "last_id v = req_id q" using v by (auto simp: admit_request_Inr split: if_splits)
  have dist: "distinct (map fst (requests w))" using parts(1) by (simp add: pending_ok_def)
  have "ids_ok (Forwarded q # h) (req_id q)" using parts(3) new by (auto simp: ids_ok_def)
  moreover have "flags_ok (Forwarded q # h) (v\<lparr>requests := AList.update (req_id q) q (requests v)\<rparr>)"
    using parts(4) v by (auto simp: flags_ok_def admit_request_Inr split: if_splits)
  ultimately show ?thesis
    using pending_ok_request [OF parts(1) v fresh] table_ok_update [OF parts(2,3) new dist] by (simp add: flow_ok_def req)
qed

lemma flags_ok_settle: "flags_ok h w \<Longrightarrow> settle_pending w i = Inr v \<Longrightarrow> flags_ok h (v\<lparr>requests := t\<rparr>)"
  by (auto simp: flags_ok_def settle_pending_Inr)

lemma settle_kept: "settle_pending w i = Inr v \<Longrightarrow> requests v = requests w \<and> last_id v = last_id w"
  by (auto simp: settle_pending_Inr)

lemma flow_ok_settle:
  assumes ok: "flow_ok h w" and v: "settle_pending w i = Inr v"
  shows "flow_ok h (v\<lparr>requests := AList.delete i (requests v)\<rparr>)"
  using ok pending_ok_settle [OF _ v] flags_ok_settle [OF _ v] table_ok_delete settle_kept [OF v] by (simp add: flow_ok_def)

lemma flow_ok_answer:
  assumes ok: "flow_ok h w" and q: "map_of (requests w) (req_id p) = Some q"
    and v: "settle_pending w (req_id p) = Inr v"
    and e: "response_effect (v\<lparr>requests := AList.delete (req_id p) (requests v)\<rparr>) q p = Inr (w', ev)"
  shows "flow_ok (Answered q p # h) w'"
proof -
  let ?v = "v\<lparr>requests := AList.delete (req_id p) (requests v)\<rparr>"
  have parts: "pending_ok ?v" "flags_ok h ?v" "ids_ok h (last_id ?v)"
    using flow_ok_settle [OF ok v] by (auto simp: flow_ok_def)
  have "table_ok (Answered q p # h) (requests ?v)"
    using table_ok_answer [OF _ q] ok settle_kept [OF v] by (simp add: flow_ok_def)
  then have "flow_ok (Answered q p # h) ?v" using parts by (simp add: flow_ok_def flags_ok_def ids_ok_def)
  then show ?thesis using e
    by (elim response_effect_Inr) (simp add: flow_ok_def pending_ok_def flags_ok_def)
qed

lemma flow_trace_ok: "flow_trace lim h w \<Longrightarrow> flow_ok h w"
proof (induction rule: flow_trace.induct)
  case (request h w f q w')
  from request(3) show ?case
  proof (cases rule: client_frameE)
    case (valid q')
    from valid(3) show ?thesis
    proof (cases rule: client_requestE)
      case (accepted v)
      then show ?thesis using flow_ok_request [OF request.IH] valid(1) request(2) by auto
    qed simp
  qed simp
next
  case (refused_request h w f e w')
  from refused_request(2) show ?case
  proof (cases rule: client_frameE)
    case (valid q)
    from valid(3) show ?thesis
      by (cases rule: client_requestE) (use refused_request.IH flow_ok_last_id in auto)
  qed (use refused_request.IH in simp)
next
  case (response h w f p q w' ev)
  from response(4) show ?case
  proof (cases rule: worker_frameE)
    case (valid p')
    from valid(2) show ?thesis
    proof (cases rule: worker_responseE)
      case (answered q' v)
      then show ?thesis using flow_ok_answer [OF response.IH] valid(1) response(2,3) by auto
    qed simp_all
  qed simp
next
  case (refused_response h w f e w' ev)
  from refused_response(2) show ?case
  proof (cases rule: worker_frameE)
    case (valid p)
    from valid(2) show ?thesis
      by (cases rule: worker_responseE) (use refused_response.IH flow_ok_settle in auto)
  qed (use refused_response.IH in simp)
qed (simp_all add: flow_ok_start flow_ok_closing)

end
