(* ===== verification/WorkerRelay.thy ===== *)
theory WorkerRelay
  imports WorkerFlow Machines "HOL-Library.Sublist"
begin

text \<open>
  What the relay guarantees: the order of requests and answers over any interleaving of frames, the life cycle
  of a worker nobody cancels, and that the bytes passed on are exactly the checked frames of the stream.
\<close>

section \<open>Order of requests and answers\<close>

lemma flow_trace_Forwarded:
  "flow_trace lim g w \<Longrightarrow> g = Forwarded q # h \<Longrightarrow>
     \<exists>w0 f w1. flow_trace lim h w0 \<and> port_parse_frame lim f = Inr q \<and> client_frame lim w0 f = (Inr (), w1)"
  by (induction rule: flow_trace.induct) auto

lemma flow_trace_Answered:
  "flow_trace lim g w \<Longrightarrow> g = Answered q p # h \<Longrightarrow>
     \<exists>w0. flow_trace lim h w0 \<and> map_of (requests w0) (req_id p) = Some q"
  by (induction rule: flow_trace.induct) auto

lemma flow_trace_Closing: "flow_trace lim g w \<Longrightarrow> g = Closing # h \<Longrightarrow> \<exists>w0. flow_trace lim h w0"
  by (induction rule: flow_trace.induct) auto

fun relays :: "nat \<Rightarrow> flow \<Rightarrow> flow_act \<Rightarrow> bool" where
  "relays lim w (Forwarded q) \<longleftrightarrow> (\<exists>f w'. port_parse_frame lim f = Inr q \<and> client_frame lim w f = (Inr (), w'))"
| "relays lim w (Answered q p) \<longleftrightarrow> map_of (requests w) (req_id p) = Some q"
| "relays lim w Closing \<longleftrightarrow> True"

interpretation relay_log: history "flow_trace lim" "relays lim" for lim
proof
  fix e h w
  assume "flow_trace lim (e # h) w"
  then show "\<exists>w0. flow_trace lim h w0 \<and> relays lim w0 e"
  proof (cases e)
    case (Forwarded q)
    then show ?thesis using flow_trace_Forwarded [OF \<open>flow_trace lim (e # h) w\<close>, of q h] by auto
  next
    case (Answered q p)
    then show ?thesis using flow_trace_Answered [OF \<open>flow_trace lim (e # h) w\<close>, of q p h] by auto
  next
    case Closing
    then show ?thesis using flow_trace_Closing [OF \<open>flow_trace lim (e # h) w\<close>, of h] by auto
  qed
qed

lemma forwarded_gate:
  assumes "flow_trace lim (h1 @ Forwarded q # h2) w"
  obtains w0 v where "flow_trace lim h2 w0" "flow_ok h2 w0" "last_id w0 < req_id q"
    "closing_gate (w0\<lparr>last_id := req_id q\<rparr>) q = Inr ()" "admit_request (w0\<lparr>last_id := req_id q\<rparr>) q = Inr v"
proof -
  obtain w0 f w1 where w0: "flow_trace lim h2 w0" "port_parse_frame lim f = Inr q" "client_frame lim w0 f = (Inr (), w1)"
    using assms by (rule relay_log.admitted) auto
  from w0(3) show ?thesis
  proof (cases rule: client_frameE)
    case (valid q')
    then have "client_request w0 q = (Inr (), w1)" using w0(2) by simp
    then show ?thesis by (cases rule: client_requestE) (use w0(1) flow_trace_ok that in auto)
  qed simp
qed

lemma forwarded_split: "q \<in> set (forwarded h) \<Longrightarrow> \<exists>h1 h2. h = h1 @ Forwarded q # h2"
proof (induction h rule: forwarded.induct)
  case (2 q' h)
  then show ?case by (metis append_Cons append_Nil forwarded.simps(2) set_ConsD)
qed (simp, (metis append_Cons forwarded.simps)+)

lemma forwarded_append: "forwarded (g @ h) = forwarded g @ forwarded h"
  by (induction g rule: forwarded.induct) auto

lemma forwarded_increasing: "flow_trace lim h w \<Longrightarrow> sorted_wrt (\<lambda>q r. req_id r < req_id q) (forwarded h)"
proof (induction h arbitrary: w)
  case (Cons a h)
  obtain w2 where w2: "flow_trace lim h w2" using relay_log.suffix [of lim "[a]" h w] Cons.prems by auto
  show ?case
  proof (cases a)
    case (Forwarded q)
    then obtain w0 where "flow_ok h w0" "last_id w0 < req_id q"
      using forwarded_gate [of lim "[]" q h w] Cons.prems by auto
    then show ?thesis using Cons.IH [OF w2] Forwarded by (auto simp: flow_ok_def ids_ok_def)
  qed (use Cons.IH [OF w2] in simp_all)
qed simp

abbreviation disposes :: "flow_act list \<Rightarrow> pyval list" where
  "disposes h \<equiv> filter (\<lambda>q. fld q ''op'' = pyl ''dispose'') (forwarded h)"

lemma dispose_gate:
  "admit_request w q = Inr v \<Longrightarrow> fld q ''op'' = pyl ''dispose'' \<Longrightarrow> \<not> dispose_sent w"
  by (simp add: admit_request_Inr ordinary_gate_def)

lemma dispose_once: "flow_trace lim h w \<Longrightarrow> length (disposes h) \<le> 1"
proof (induction h arbitrary: w)
  case (Cons a h)
  obtain w2 where w2: "flow_trace lim h w2" using relay_log.suffix [of lim "[a]" h w] Cons.prems by auto
  show ?case
  proof (cases a)
    case (Forwarded q)
    then have "flow_trace lim ([] @ Forwarded q # h) w" using Cons.prems by simp
    then obtain w0 v where "flow_ok h w0" "admit_request (w0\<lparr>last_id := req_id q\<rparr>) q = Inr v"
      by (rule forwarded_gate)
    then have "disposes h = []" if "fld q ''op'' = pyl ''dispose''"
      using dispose_gate that by (fastforce simp: flow_ok_def flags_ok_def filter_empty_conv)
    then show ?thesis using Cons.IH [OF w2] Forwarded by auto
  qed (use Cons.IH [OF w2] in simp_all)
qed simp

lemma closing_gate_ops: "closing_gate w q = Inr () \<Longrightarrow> closing w \<Longrightarrow> fld q ''op'' \<in> {pyl ''cancel'', pyl ''dispose''}"
  by (auto simp: closing_gate_def split: if_splits)

section \<open>A worker nobody cancels\<close>

abbreviation answer_ok :: "pyval \<Rightarrow> bool" where
  "answer_ok p \<equiv> the_Bool (fld p ''ok'')"

definition greeted :: "flow_act list \<Rightarrow> bool" where
  "greeted h \<longleftrightarrow> (\<exists>(q, p) \<in> set (answered h).
     fld q ''op'' = pyl ''hello'' \<and> answer_ok p \<and> hello_matches q (fld p ''result''))"

definition created :: "flow_act list \<Rightarrow> bool" where
  "created h \<longleftrightarrow> (\<exists>(q, p) \<in> set (answered h). fld q ''op'' = pyl ''create'' \<and> answer_ok p \<and> fld p ''result'' = PNone)"

definition unfailed :: "flow_act list \<Rightarrow> bool" where
  "unfailed h \<longleftrightarrow> (\<forall>(q, p) \<in> set (answered h). answer_ok p \<and> fld q ''op'' \<noteq> pyl ''dispose'')"

definition op_gate :: "lifecycle_state \<Rightarrow> pyval \<Rightarrow> bool" where
  "op_gate l op \<longleftrightarrow> (if op = pyl ''hello'' then l = AwaitHello else if op = pyl ''create'' then l = AwaitCreate
     else l \<in> {Created, Ready})"

definition stage_ok :: "flow_act list \<Rightarrow> lifecycle_state \<Rightarrow> bool" where
  "stage_ok h l \<longleftrightarrow> (case l of
     AwaitHello \<Rightarrow> answered h = []
   | AwaitCreate \<Rightarrow> greeted h \<and> unfailed h
   | Created \<Rightarrow> greeted h \<and> created h \<and> unfailed h
   | Ready \<Rightarrow> greeted h \<and> created h \<and> unfailed h
   | _ \<Rightarrow> True)"

definition life_ok :: "flow_act list \<Rightarrow> flow \<Rightarrow> bool" where
  "life_ok h w \<longleftrightarrow> cancel_pending w = None \<and> stage_ok h (lifecycle w) \<and>
     (\<forall>(i, q) \<in> set (requests w). op_gate (lifecycle w) (fld q ''op''))"

lemma ordinary_gate_op: "ordinary_gate w op = Inr () \<Longrightarrow> ordinary_pending w = None \<and> op_gate (lifecycle w) op"
  by (auto simp: ordinary_gate_def op_gate_def)

lemma stage_ok_skip [simp]: "stage_ok (Forwarded q # h) l = stage_ok h l" "stage_ok (Closing # h) l = stage_ok h l"
  by (simp_all add: stage_ok_def greeted_def created_def unfailed_def split: lifecycle_state.split)

lemma life_ok_request:
  assumes "life_ok h w" "pending_ok w" "admit_request (w\<lparr>last_id := i\<rparr>) q = Inr v" "\<not> cancelled_ever v"
  shows "life_ok (Forwarded q # h) (v\<lparr>requests := AList.update (req_id q) q (requests v)\<rparr>)"
proof -
  have op: "fld q ''op'' \<noteq> pyl ''cancel''" using assms(3,4) by (auto simp: admit_request_Inr)
  then have gate: "ordinary_gate (w\<lparr>last_id := i\<rparr>) (fld q ''op'') = Inr ()" and
    v: "requests v = requests w" "lifecycle v = lifecycle w" "cancel_pending v = cancel_pending w"
    using assms(3) by (simp_all add: admit_request_Inr)
  have "ordinary_pending w = None" "op_gate (lifecycle w) (fld q ''op'')" using ordinary_gate_op [OF gate] by simp_all
  moreover have "requests w = []" using assms(1,2) \<open>ordinary_pending w = None\<close> by (simp add: pending_ok_def life_ok_def)
  ultimately show ?thesis using assms(1) by (simp add: life_ok_def v)
qed

lemma settle_empty:
  assumes "life_ok h w" "pending_ok w" "settle_pending w i = Inr v"
  shows "AList.delete i (requests v) = []" "lifecycle v = lifecycle w" "cancel_pending v = None"
proof -
  have "ordinary_pending w = Some i" using assms(1,3) by (auto simp: settle_pending_Inr life_ok_def)
  then have "fst ` set (requests w) = {i}" using assms(1,2) by (simp add: pending_ok_def life_ok_def)
  then have "fst x = i" if "x \<in> set (requests w)" for x using that by blast
  then have "set (AList.delete i (requests w)) = {}" unfolding set_delete by auto
  then show "AList.delete i (requests v) = []" using settle_kept [OF assms(3)] by simp
  show "lifecycle v = lifecycle w" "cancel_pending v = None" using assms(1,3) by (auto simp: settle_pending_Inr life_ok_def)
qed

lemma effect_stage:
  assumes "response_effect w q p = Inr (w', ev)" "op_gate (lifecycle w) (fld q ''op'')" "stage_ok h (lifecycle w)"
  shows "stage_ok (Answered q p # h) (lifecycle w')"
  using assms unfolding response_effect_def Let_def
  by (auto simp: op_gate_def stage_ok_def greeted_def created_def unfailed_def split: if_splits)

lemma life_ok_answer:
  assumes "life_ok h w" "pending_ok w" "map_of (requests w) (req_id p) = Some q" "settle_pending w (req_id p) = Inr v"
    and e: "response_effect (v\<lparr>requests := AList.delete (req_id p) (requests v)\<rparr>) q p = Inr (w', ev)"
  shows "life_ok (Answered q p # h) w'"
proof -
  note empty = settle_empty [OF assms(1,2,4)]
  have "op_gate (lifecycle w) (fld q ''op'')" using assms(1) map_of_SomeD [OF assms(3)] by (auto simp: life_ok_def)
  then have "stage_ok (Answered q p # h) (lifecycle w')"
    using effect_stage [OF e, of h] assms(1) empty by (simp add: life_ok_def)
  moreover have "requests w' = []" "cancel_pending w' = None"
    using e empty by (elim response_effect_Inr, simp)+
  ultimately show ?thesis by (simp add: life_ok_def)
qed

lemma begin_closing_kept: "snd (begin_closing w) = w\<lparr>closing := True\<rparr>"
  by (simp add: begin_closing_def Let_def)

lemma cancelled_settle: "settle_pending w i = Inr v \<Longrightarrow> cancelled_ever v = cancelled_ever w"
  by (auto simp: settle_pending_Inr)

lemma cancelled_effect: "response_effect w q p = Inr (v, ev) \<Longrightarrow> cancelled_ever v = cancelled_ever w"
  by (elim response_effect_Inr) simp

lemma flow_trace_life: "flow_trace lim h w \<Longrightarrow> \<not> cancelled_ever w \<Longrightarrow> life_ok h w"
proof (induction rule: flow_trace.induct)
  case start
  show ?case by (simp add: life_ok_def flow_init_def stage_ok_def)
next
  case (request h w f q w')
  have pend: "pending_ok w" using flow_trace_ok [OF request(1)] by (simp add: flow_ok_def)
  from request(3) show ?case
  proof (cases rule: client_frameE)
    case (valid q')
    from valid(3) show ?thesis
    proof (cases rule: client_requestE)
      case (accepted v)
      then have "\<not> cancelled_ever v" "\<not> cancelled_ever w"
        using request.prems by (auto simp: admit_request_Inr split: if_splits)
      then show ?thesis using life_ok_request [OF _ pend accepted(4)] request.IH accepted valid(1) request(2) by simp
    qed simp
  qed simp
next
  case (refused_request h w f e w')
  from refused_request(2) show ?case
  proof (cases rule: client_frameE)
    case (valid q)
    from valid(3) show ?thesis
      by (cases rule: client_requestE) (use refused_request.IH refused_request.prems in \<open>auto simp: life_ok_def\<close>)
  qed (use refused_request in simp)
next
  case (response h w f p q w' ev)
  have pend: "pending_ok w" using flow_trace_ok [OF response(1)] by (simp add: flow_ok_def)
  from response(4) show ?case
  proof (cases rule: worker_frameE)
    case (valid p')
    from valid(2) show ?thesis
    proof (cases rule: worker_responseE)
      case (answered q' v)
      then have "\<not> cancelled_ever w"
        using response.prems cancelled_settle cancelled_effect by fastforce
      then show ?thesis using life_ok_answer [OF _ pend] response.IH answered valid(1) response(2,3) by auto
    qed simp_all
  qed simp
next
  case (refused_response h w f e w' ev)
  have pend: "pending_ok w" using flow_trace_ok [OF refused_response(1)] by (simp add: flow_ok_def)
  from refused_response(2) show ?case
  proof (cases rule: worker_frameE)
    case (valid p)
    from valid(2) show ?thesis
    proof (cases rule: worker_responseE)
      case (settled q v e)
      then have life: "life_ok h w" using refused_response cancelled_settle by fastforce
      show ?thesis using settle_empty [OF life pend settled(2)] life settled(4) by (simp add: life_ok_def)
    qed (use refused_response in simp_all)
  qed (use refused_response in simp)
next
  case (closes h w)
  then show ?case by (simp add: begin_closing_kept life_ok_def)
qed

lemma cancelled_forwarded:
  "flow_trace lim h w \<Longrightarrow> cancelled_ever w \<Longrightarrow> \<exists>q \<in> set (forwarded h). fld q ''op'' = pyl ''cancel''"
proof (induction rule: flow_trace.induct)
  case (request h w f q w')
  from request(3) show ?case
  proof (cases rule: client_frameE)
    case (valid q')
    from valid(3) show ?thesis
      by (cases rule: client_requestE) (use request valid in \<open>auto simp: admit_request_Inr split: if_splits\<close>)
  qed simp
next
  case (refused_request h w f e w')
  from refused_request(2) show ?case
  proof (cases rule: client_frameE)
    case (valid q)
    from valid(3) show ?thesis by (cases rule: client_requestE) (use refused_request in auto)
  qed (use refused_request in simp)
next
  case (response h w f p q w' ev)
  from response(4) show ?case
  proof (cases rule: worker_frameE)
    case (valid p')
    from valid(2) show ?thesis
      by (cases rule: worker_responseE) (use response cancelled_settle cancelled_effect in fastforce)+
  qed simp
next
  case (refused_response h w f e w' ev)
  from refused_response(2) show ?case
  proof (cases rule: worker_frameE)
    case (valid p)
    from valid(2) show ?thesis
      by (cases rule: worker_responseE) (use refused_response cancelled_settle in fastforce)+
  qed (use refused_response in simp)
qed (simp_all add: flow_init_def begin_closing_kept)

section \<open>Frames\<close>

definition line :: "bytes \<Rightarrow> bool" where
  "line f \<longleftrightarrow> f \<noteq> [] \<and> last f = 10 \<and> 10 \<notin> set (butlast f) \<and> length f \<le> port_max_frame_bytes + 1"

lemma line_end_line: "10 \<notin> set b \<Longrightarrow> line_end (b @ 10 # r) = length b + 1"
  by (simp add: line_end_def takeWhile_append)

lemma line_end_split:
  assumes "10 \<in> set buffer"
  obtains b r where "buffer = b @ 10 # r" "10 \<notin> set b" "line_end buffer = length b + 1"
  using split_list_first [OF assms] line_end_line that by blast

lemma lineE:
  assumes "line f"
  obtains b where "f = b @ [10]" "10 \<notin> set b" "length b \<le> port_max_frame_bytes"
proof -
  have "f = butlast f @ [10]" using assms append_butlast_last_id [of f] by (simp add: line_def)
  then show ?thesis using that [of "butlast f"] assms by (auto simp: line_def le_diff_conv)
qed

lemma frames_loop_sound:
  "frames_loop buffer acc = Inr (fs, rest) \<Longrightarrow>
     \<exists>gs. fs = acc @ gs \<and> concat gs @ rest = buffer \<and> list_all line gs \<and> 10 \<notin> set rest"
proof (induction buffer acc rule: frames_loop.induct)
  case (1 buffer acc)
  show ?case
  proof (cases "10 \<in> set buffer")
    case True
    then obtain b r where b: "buffer = b @ 10 # r" "10 \<notin> set b" "line_end buffer = length b + 1" by (rule line_end_split)
    then have small: "length b \<le> port_max_frame_bytes" and loop: "frames_loop r (acc @ [b @ [10]]) = Inr (fs, rest)"
      using "1.prems" True by (simp_all add: frames_loop.simps [of "b @ 10 # r"] Let_def split: if_splits)
    obtain gs where "fs = (acc @ [b @ [10]]) @ gs" "concat gs @ rest = r" "list_all line gs" "10 \<notin> set rest"
      using "1.IH" [OF True refl] small loop b by auto
    moreover have "line (b @ [10])" using b(2) small by (simp add: line_def)
    ultimately show ?thesis using b(1) by (intro exI [of _ "(b @ [10]) # gs"]) simp
  next
    case False
    then show ?thesis using "1.prems" by (simp add: frames_loop.simps [of buffer])
  qed
qed

lemma frames_loop_complete:
  "list_all line gs \<Longrightarrow> 10 \<notin> set rest \<Longrightarrow> frames_loop (concat gs @ rest) acc = Inr (acc @ gs, rest)"
proof (induction gs arbitrary: acc)
  case (Cons f gs)
  then obtain b where b: "f = b @ [10]" "10 \<notin> set b" "length b \<le> port_max_frame_bytes" by (auto elim: lineE)
  then have e: "concat (f # gs) @ rest = b @ 10 # (concat gs @ rest)" by simp
  show ?case unfolding e using Cons.IH [of "acc @ [f]"] Cons.prems b
    by (simp add: frames_loop.simps [of "b @ 10 # _"] line_end_line Let_def)
qed (simp add: frames_loop.simps)

lemma frames_of_Inr:
  "frames_of buffer chunk = Inr (fs, rest) \<longleftrightarrow>
     concat fs @ rest = buffer @ chunk \<and> list_all line fs \<and> 10 \<notin> set rest \<and>
     (length rest \<le> port_max_frame_bytes + 1 \<or> fs \<noteq> [])" (is "_ \<longleftrightarrow> ?split")
proof
  assume f: "frames_of buffer chunk = Inr (fs, rest)"
  then have "frames_loop (buffer @ chunk) [] = Inr (fs, rest)" by (simp add: frames_of_def Let_def split: if_splits)
  from frames_loop_sound [OF this] f show ?split
    by (cases fs) (auto simp: frames_of_def Let_def split: if_splits)
next
  assume s: ?split
  have "10 \<in> set (buffer @ chunk)" if "fs \<noteq> []"
  proof -
    have "line (hd fs)" using s that by (cases fs) auto
    then have "10 \<in> set (hd fs)" by (elim lineE) simp
    then have "10 \<in> set (concat fs @ rest)" using that by (cases fs) auto
    then show ?thesis using s by simp
  qed
  moreover have "length (buffer @ chunk) = length rest" if "fs = []" using s that by simp
  ultimately have "\<not> (port_max_frame_bytes + 1 < length (buffer @ chunk) \<and> 10 \<notin> set (buffer @ chunk))"
    using s by (cases "fs = []") auto
  then show "frames_of buffer chunk = Inr (fs, rest)"
    using frames_loop_complete [of fs rest "[]"] s by (simp add: frames_of_def Let_def del: set_append length_append)
qed

section \<open>Bytes passed on\<close>

text \<open>A frame the relay passes on in either direction is one line that parses and satisfies the check of that direction.\<close>

definition checked_frame :: "nat \<Rightarrow> (pyval \<Rightarrow> pyval res) \<Rightarrow> bytes \<Rightarrow> bool" where
  "checked_frame lim check f \<longleftrightarrow> (\<exists>m. port_parse_frame lim f = Inr m \<and> check m = Inr m)"

lemma client_frame_checked: "client_frame lim w f = (Inr (), w') \<Longrightarrow> checked_frame lim port_validate_request f"
  by (elim client_frameE) (auto simp: checked_frame_def)

lemma worker_frame_checked:
  assumes "worker_frame lim w f = (Inr (), w', ev)"
  shows "checked_frame lim port_validate_response f"
  using assms
  by (auto simp: worker_frame_def checked_frame_def bindE_eq_Inr port_validate_response_def split: sum.splits)

lemma client_frames_out:
  "client_frames lim w fs = (r, w', out) \<Longrightarrow>
     prefix out fs \<and> (r = Inr () \<longrightarrow> out = fs) \<and> list_all (checked_frame lim port_validate_request) out"
proof (induction fs arbitrary: w r w' out)
  case (Cons f fs)
  then show ?case
    by (cases "client_frame lim w f"; cases "fst (client_frame lim w f)"; cases "client_frames lim (snd (client_frame lim w f)) fs")
      (auto dest: client_frame_checked)
qed simp

lemma worker_frames_out:
  "worker_frames lim w fs = (r, w', out, ev) \<Longrightarrow>
     prefix out fs \<and> (r = Inr () \<longrightarrow> out = fs) \<and> list_all (checked_frame lim port_validate_response) out"
proof (induction fs arbitrary: w r w' out ev)
  case (Cons f fs)
  obtain r1 w1 e1 where 1: "worker_frame lim w f = (r1, w1, e1)" by (cases "worker_frame lim w f")
  obtain r2 w2 o2 e2 where 2: "worker_frames lim w1 fs = (r2, w2, o2, e2)" by (cases "worker_frames lim w1 fs")
  show ?case using Cons.prems Cons.IH [OF 2] 1 2 worker_frame_checked [of lim w f w1 e1]
    by (cases r1) auto
qed simp

lemma prefix_concat: "prefix xs ys \<Longrightarrow> prefix (concat xs) (concat ys)"
  by (auto simp: prefix_def)

lemma relay_chunk:
  assumes "frames_of buffer chunk = Inr (fs, rest)" "prefix out fs" "prefix (concat out') (rest @ later)"
  shows "prefix (concat out) (buffer @ chunk @ later)" "prefix (concat (fs @ out')) (buffer @ chunk @ later)"
    "concat out' = rest @ later \<Longrightarrow> concat (fs @ out') = buffer @ chunk @ later"
proof -
  have s: "buffer @ chunk @ later = concat fs @ rest @ later" using assms(1) by (simp add: frames_of_Inr)
  show "prefix (concat out) (buffer @ chunk @ later)" unfolding s using prefix_concat [OF assms(2)] by (rule prefix_prefix)
  show "prefix (concat (fs @ out')) (buffer @ chunk @ later)" unfolding s using assms(3) by simp
  show "concat out' = rest @ later \<Longrightarrow> concat (fs @ out') = buffer @ chunk @ later" unfolding s by simp
qed

lemma client_to_worker_out:
  "client_to_worker lim w buffer chunks = (r, w', out) \<Longrightarrow>
     prefix (concat out) (buffer @ concat chunks) \<and> (r = Inr () \<longrightarrow> concat out = buffer @ concat chunks) \<and>
     list_all (checked_frame lim port_validate_request) out"
proof (induction chunks arbitrary: w buffer r w' out)
  case (Cons chunk chunks)
  show ?case
  proof (cases "frames_of buffer chunk")
    case (Inr fr)
    obtain fs rest where fr: "fr = (fs, rest)" by (cases fr)
    obtain r1 w1 o1 where 1: "client_frames lim w fs = (r1, w1, o1)" by (cases "client_frames lim w fs")
    obtain r2 w2 o2 where 2: "client_to_worker lim w1 rest chunks = (r2, w2, o2)"
      by (cases "client_to_worker lim w1 rest chunks")
    note out1 = client_frames_out [OF 1] and out2 = Cons.IH [OF 2]
    note chunk = relay_chunk [OF Inr [unfolded fr] conjunct1 [OF out1] conjunct1 [OF out2]]
    show ?thesis using Cons.prems out1 out2 chunk by (cases r1) (auto simp: Inr fr 1 2)
  qed (use Cons.prems in auto)
qed (auto simp: guardE_eq_Inr)

lemma worker_to_client_out:
  "worker_to_client lim w buffer chunks = (r, w', out, ev) \<Longrightarrow>
     prefix (concat out) (buffer @ concat chunks) \<and> (r = Inr () \<longrightarrow> concat out = buffer @ concat chunks) \<and>
     list_all (checked_frame lim port_validate_response) out"
proof (induction chunks arbitrary: w buffer r w' out ev)
  case (Cons chunk chunks)
  show ?case
  proof (cases "frames_of buffer chunk")
    case (Inr fr)
    obtain fs rest where fr: "fr = (fs, rest)" by (cases fr)
    obtain r1 w1 o1 e1 where 1: "worker_frames lim w fs = (r1, w1, o1, e1)" by (cases "worker_frames lim w fs")
    obtain r2 w2 o2 e2 where 2: "worker_to_client lim w1 rest chunks = (r2, w2, o2, e2)"
      by (cases "worker_to_client lim w1 rest chunks")
    note out1 = worker_frames_out [OF 1] and out2 = Cons.IH [OF 2]
    note chunk = relay_chunk [OF Inr [unfolded fr] conjunct1 [OF out1] conjunct1 [OF out2]]
    show ?thesis using Cons.prems out1 out2 chunk by (cases r1) (auto simp: Inr fr 1 2)
  qed (use Cons.prems in auto)
qed (auto simp: guardE_eq_Inr)

section \<open>Properties\<close>

text \<open>C3 However client frames, worker frames and the start of closing interleave, refused frames included:
  the requests that reach the worker have strictly increasing identifiers; at most one of them is a dispose;
  once closing has begun only cancel and dispose still pass; and every response that reaches the client
  answers a request that had gone out before under the same identifier, each request at most once.\<close>

theorem relay_order:
  assumes "flow_trace lim h w"
  shows "sorted_wrt (\<lambda>q r. req_id r < req_id q) (forwarded h) \<and> length (disposes h) \<le> 1 \<and>
    (\<forall>h1 q h2. h = h1 @ Forwarded q # h2 \<and> Closing \<in> set h2 \<longrightarrow> fld q ''op'' \<in> {pyl ''cancel'', pyl ''dispose''}) \<and>
    (\<forall>h1 q p h2. h = h1 @ Answered q p # h2 \<longrightarrow> q \<in> set (forwarded h2) \<and> req_id q = req_id p) \<and>
    distinct (map (\<lambda>(q, p). req_id q) (answered h))"
proof (intro conjI allI impI)
  fix h1 q h2 assume h: "h = h1 @ Forwarded q # h2 \<and> Closing \<in> set h2"
  obtain w0 where "flow_ok h2 w0" "closing_gate (w0\<lparr>last_id := req_id q\<rparr>) q = Inr ()"
    using forwarded_gate [of lim h1 q h2 w] assms h by metis
  then show "fld q ''op'' \<in> {pyl ''cancel'', pyl ''dispose''}"
    using h closing_gate_ops by (fastforce simp: flow_ok_def flags_ok_def)
next
  fix h1 q p h2 assume h: "h = h1 @ Answered q p # h2"
  from assms [unfolded this] obtain w0 where "flow_trace lim h2 w0" "map_of (requests w0) (req_id p) = Some q"
    by (rule relay_log.admitted) simp
  then have "table_ok h2 (requests w0)" "(req_id p, q) \<in> set (requests w0)"
    using flow_trace_ok by (auto simp: flow_ok_def dest: map_of_SomeD)
  then show "q \<in> set (forwarded h2)" "req_id q = req_id p" by (auto simp: table_ok_def)
qed (use assms forwarded_increasing dispose_once flow_trace_ok in \<open>auto simp: flow_ok_def table_ok_def\<close>)


text \<open>C29 \<^verbatim>\<open>_frames\<close> is determined by the bytes: it returns some frames and a remainder exactly when they concatenate
  to the buffered and new bytes, every frame is one line within the limit, the remainder has no line end, and a
  call that yields no frame keeps at most one frame's worth of bytes.\<close>

theorem frames_decided:
  "frames_of buffer chunk = Inr (fs, rest) \<longleftrightarrow>
     concat fs @ rest = buffer @ chunk \<and> list_all line fs \<and> 10 \<notin> set rest \<and>
     (length rest \<le> port_max_frame_bytes + 1 \<or> fs \<noteq> [])"
  by (rule frames_of_Inr)


section \<open>Witnesses and the effect of a cancel\<close>

definition example_hello :: bytes where
  \<open>example_hello = lit ''{"v":1,"id":1,"op":"hello","interfaceDigest":"'' @ replicate 64 97 @ lit ''","runtime":"node"}'' @ [10]\<close>

definition example_greeting :: bytes where
  \<open>example_greeting = lit ''{"v":1,"id":1,"ok":true,"result":{"interfaceDigest":"'' @ replicate 64 97 @ lit ''","runtime":"node"}}'' @ [10]\<close>

definition example_create_frame :: bytes where
  \<open>example_create_frame = lit ''{"v":1,"id":2,"op":"create"}'' @ [10]\<close>

definition hello_request :: pyval where
  "hello_request = PDict [(lit ''v'', PInt 1), (lit ''id'', PInt 1), (lit ''op'', pyl ''hello''),
     (lit ''interfaceDigest'', PStr (replicate 64 97)), (lit ''runtime'', pyl ''node'')]"

definition hello_answer :: pyval where
  "hello_answer = PDict [(lit ''v'', PInt 1), (lit ''id'', PInt 1), (lit ''ok'', PBool True),
     (lit ''result'', PDict [(lit ''interfaceDigest'', PStr (replicate 64 97)), (lit ''runtime'', pyl ''node'')])]"

definition create_request :: pyval where
  "create_request = PDict [(lit ''v'', PInt 1), (lit ''id'', PInt 2), (lit ''op'', pyl ''create'')]"

definition greeted_flow :: flow where
  "greeted_flow = fst (snd (worker_frame 97 (snd (client_frame 97 flow_init example_hello)) example_greeting))"

lemma example_parse:
  "port_parse_frame 97 example_hello = Inr hello_request"
  "port_parse_frame 97 example_greeting = Inr hello_answer"
  "port_parse_frame 97 example_create_frame = Inr create_request"
  by code_simp+

lemma example_frames:
  "fst (client_frame 97 flow_init example_hello) = Inr ()"
  "map_of (requests (snd (client_frame 97 flow_init example_hello))) 1 = Some hello_request"
  "fst (worker_frame 97 (snd (client_frame 97 flow_init example_hello)) example_greeting) = Inr ()"
  "fst (client_frame 97 greeted_flow example_create_frame) = Inr ()"
  by code_simp+

lemma trace_request:
  "flow_trace lim h w \<Longrightarrow> port_parse_frame lim f = Inr q \<Longrightarrow> fst (client_frame lim w f) = Inr () \<Longrightarrow>
     flow_trace lim (Forwarded q # h) (snd (client_frame lim w f))"
  by (rule flow_trace.request [where w = w and f = f]) (auto simp: prod_eq_iff)

lemma trace_response:
  "flow_trace lim h w \<Longrightarrow> port_parse_frame lim f = Inr p \<Longrightarrow> map_of (requests w) (req_id p) = Some q \<Longrightarrow>
     fst (worker_frame lim w f) = Inr () \<Longrightarrow> flow_trace lim (Answered q p # h) (fst (snd (worker_frame lim w f)))"
  by (rule flow_trace.response [where w = w and f = f and ev = "snd (snd (worker_frame lim w f))"]) (auto simp: prod_eq_iff)

lemma example_greeted: "flow_trace 97 [Answered hello_request hello_answer, Forwarded hello_request] greeted_flow"
  unfolding greeted_flow_def
  by (intro trace_response trace_request flow_trace.start example_parse example_frames)
    (simp add: hello_answer_def example_frames)

lemma example_trace:
  "flow_trace 97 [Forwarded create_request, Answered hello_request hello_answer, Forwarded hello_request]
     (snd (client_frame 97 greeted_flow example_create_frame))"
  by (intro trace_request example_greeted example_parse example_frames)

theorem relay_order_witness:
  "sorted_wrt (\<lambda>q r. req_id r < req_id q) [create_request, hello_request] \<and>
   hello_request \<in> set (forwarded [Forwarded hello_request]) \<and> req_id hello_request = req_id hello_answer"
proof -
  have "[Forwarded create_request, Answered hello_request hello_answer, Forwarded hello_request] =
    [Forwarded create_request] @ Answered hello_request hello_answer # [Forwarded hello_request]" by simp
  then show ?thesis using relay_order [OF example_trace] by (metis forwarded.simps)
qed


theorem frames_decided_witness:
  "frames_of [1] [2, 10, 3] = Inr ([[1, 2, 10]], [3])"
  unfolding frames_decided by (simp add: line_def port_max_frame_bytes_def)


text \<open>
  The exchange \<^verbatim>\<open>docs/protocol-v1.md\<close> describes for a cancelled call: the call answers \<^verbatim>\<open>CANCELLED\<close> and the cancel
  answers null.  The document says the worker is then poisoned; the relay records it as ready.
\<close>

definition example_created :: bytes where
  \<open>example_created = lit ''{"v":1,"id":2,"ok":true,"result":null}'' @ [10]\<close>

definition example_observe :: bytes where
  \<open>example_observe = lit ''{"v":1,"id":3,"op":"observe"}'' @ [10]\<close>

definition example_cancel :: bytes where
  \<open>example_cancel = lit ''{"v":1,"id":4,"op":"cancel","requestId":3}'' @ [10]\<close>

definition example_cancelled :: bytes where
  \<open>example_cancelled = lit ''{"v":1,"id":3,"ok":false,"error":{"code":"CANCELLED","message":""}}'' @ [10]\<close>

definition example_acknowledged :: bytes where
  \<open>example_acknowledged = lit ''{"v":1,"id":4,"ok":true,"result":null}'' @ [10]\<close>

definition example_again :: bytes where
  \<open>example_again = lit ''{"v":1,"id":5,"op":"observe"}'' @ [10]\<close>

definition observing_flow :: flow where
  "observing_flow = snd (client_frame 97 (snd (client_frame 97 (fst (snd (worker_frame 97
     (snd (client_frame 97 greeted_flow example_create_frame)) example_created))) example_observe)) example_cancel)"

definition cancelled_flow :: flow where
  "cancelled_flow = fst (snd (worker_frame 97 observing_flow example_cancelled))"

lemma cancelled_worker_ready:
  "fst (worker_frame 97 observing_flow example_cancelled) = Inr () \<and> lifecycle cancelled_flow = Poisoned"
  "fst (worker_frame 97 cancelled_flow example_acknowledged) = Inr ()"
  "lifecycle (fst (snd (worker_frame 97 cancelled_flow example_acknowledged))) = Ready"
  "fst (client_frame 97 (fst (snd (worker_frame 97 cancelled_flow example_acknowledged))) example_again) = Inr ()"
  by code_simp+

end
