(* ===== verification/WorkerAttach.thy ===== *)
theory WorkerAttach
  imports WorkerRelay JsonPlain
begin

text \<open>
  Attaching to a reserved worker and ending it (\<^verbatim>\<open>_strict_attach\<close> and \<^verbatim>\<open>WorkerReservation\<close> of
  \<^verbatim>\<open>supervisor/mirrorgate/worker_broker.py\<close>).  A connecting peer is a \<open>candidate\<close>: its credentials, the bytes it
  sends, how many of them each \<^verbatim>\<open>recv\<close> yields (or the exception it raises) and what the clock shows.  The
  arrivals are the list \<open>accept_loop\<close> runs over, with the \<^verbatim>\<open>_closing\<close> flag and the clock read before each.
  The launch guard, the launch itself and the flags read after it are arguments of \<open>accept_worker\<close>.
\<close>

section \<open>The attachment frame\<close>

definition attach_max_bytes :: nat where "attach_max_bytes = 4096"

abbreviation attach_failed :: "string \<Rightarrow> pyexc" where
  "attach_failed message \<equiv> BrokerError ''ATTACHMENT_FAILED'' message"

definition attach_number :: "bool \<Rightarrow> pystr \<Rightarrow> pyval res" where
  "attach_number fl tok =
     (if fl then Inl (attach_failed ''attachment numbers must be integral'') else plain_number False tok)"

definition attach_json :: "nat \<Rightarrow> bytes \<Rightarrow> pyval res" where
  "attach_json lim data =
     (case utf8_decode data of
        None \<Rightarrow> Inl (attach_failed ''invalid attachment JSON'')
      | Some text \<Rightarrow>
          (case json_loads attach_number (\<lambda>_. Inl (attach_failed ''invalid attachment number''))
              (hook_pairs (attach_failed ''duplicate attachment field'')) lim text of
             Inl JSONDecodeError \<Rightarrow> Inl (attach_failed ''invalid attachment JSON'')
           | r \<Rightarrow> r))"

definition attach_handle :: "nat \<Rightarrow> pyval \<Rightarrow> bool" where
  "attach_handle n v \<longleftrightarrow> is_Str v \<and> re_hex n (the_Str v)"

definition strict_attach :: "nat \<Rightarrow> bytes \<Rightarrow> pyval res" where
  "strict_attach lim frame =
     bindE (guardE (length frame \<le> attach_max_bytes + 1 \<and> endswith frame [10] \<and> 10 \<notin> set (butlast frame) \<and> 13 \<notin> set frame)
       (attach_failed ''invalid attachment framing'')) (\<lambda>_.
     bindE (attach_json lim (butlast frame)) (\<lambda>v.
     retE
       [guardE (is_Dict v \<and> set (keys v) = names [''v'', ''kind'', ''sessionId'', ''workerId'', ''attachmentToken''])
          (attach_failed ''attachment fields do not match contract''),
        guardE (fld v ''v'' = PInt 1 \<and> fld v ''kind'' = pyl ''attach'') (attach_failed ''unsupported attachment contract''),
        guardE (is_Str (fld v ''sessionId'') \<and> is_Str (fld v ''workerId'') \<and> is_Str (fld v ''attachmentToken''))
          (attach_failed ''attachment handles must be strings''),
        guardE (attach_handle 32 (fld v ''sessionId'') \<and> attach_handle 32 (fld v ''workerId'') \<and>
                attach_handle 64 (fld v ''attachmentToken''))
          (attach_failed ''attachment handles have invalid encoding'')] v))"

section \<open>Receiving it\<close>

record candidate =
  c_uid :: int
  c_stream :: bytes
  c_recv :: "nat \<Rightarrow> pyexc + nat"
  c_clock :: "nat \<Rightarrow> int"
  c_done :: int

definition recv_size :: "nat \<Rightarrow> nat \<Rightarrow> nat" where
  "recv_size n held = max 1 (min n (min 1024 (attach_max_bytes + 1 - held)))"

lemma recv_size_pos: "0 < recv_size n held"
  by (simp add: recv_size_def less_max_iff_disj)

function receive_attach :: "int \<Rightarrow> candidate \<Rightarrow> nat \<Rightarrow> bytes \<Rightarrow> bytes \<Rightarrow> bytes res" where
  "receive_attach expires c i data stream =
     (if 10 \<in> set data then
        retE [guardE (line_end data = length data)
          (attach_failed ''worker bytes cannot precede attachment acknowledgement'')] data
      else if expires \<le> c_clock c i then Inl (attach_failed ''worker attachment expired'')
      else case c_recv c i of
        Inl e \<Rightarrow> Inl e
      | Inr n \<Rightarrow>
          if stream = [] then Inl (attach_failed ''worker attachment ended before a frame'')
          else
            let k = recv_size n (length data); data' = data @ take k stream in
            if attach_max_bytes < length data' then Inl (attach_failed ''worker attachment exceeds 4 KiB'')
            else receive_attach expires c (Suc i) data' (drop k stream))"
  by pat_completeness auto
termination
  by (relation "measure (\<lambda>(expires, c, i, data, stream). length stream)") (auto simp: recv_size_pos)

declare receive_attach.simps [simp del]

section \<open>Accepting\<close>

record reservation_facts =
  f_owner_uid :: int
  f_uid :: int
  f_session :: pystr
  f_worker :: pystr
  f_token :: pystr
  f_expires :: int

definition authority :: "reservation_facts \<Rightarrow> pyval \<Rightarrow> bool" where
  "authority r attach \<longleftrightarrow> fld attach ''sessionId'' = PStr (f_session r) \<and> fld attach ''workerId'' = PStr (f_worker r) \<and>
     fld attach ''attachmentToken'' = PStr (f_token r)"

definition check_candidate :: "nat \<Rightarrow> reservation_facts \<Rightarrow> candidate \<Rightarrow> unit res" where
  "check_candidate lim r c =
     bindE (guardE (c_uid c = f_owner_uid r \<and> c_uid c = f_uid r) (attach_failed ''worker attachment principal mismatch'')) (\<lambda>_.
     bindE (receive_attach (f_expires r) c 0 [] (c_stream c)) (\<lambda>frame.
     bindE (strict_attach lim frame) (\<lambda>attach. seqE
       [guardE (authority r attach) (attach_failed ''worker attachment authority is invalid''),
        guardE (c_done c < f_expires r) (attach_failed ''worker attachment expired'')])))"

record arrival =
  a_closing :: bool
  a_now :: int
  a_candidate :: "candidate option"

datatype accepted = Waiting | Stopped | Failed pyexc | Connected candidate

definition is_broker_error :: "pyexc \<Rightarrow> bool" where
  "is_broker_error e \<longleftrightarrow> (case e of BrokerError _ _ \<Rightarrow> True | _ \<Rightarrow> False)"

text \<open>With no further arrival the loop is still blocked in \<^verbatim>\<open>accept\<close>; an arrival without a candidate is its timeout.\<close>

fun accept_loop :: "nat \<Rightarrow> reservation_facts \<Rightarrow> arrival list \<Rightarrow> accepted" where
  "accept_loop lim r [] = Waiting"
| "accept_loop lim r (a # arrivals) =
     (if a_closing a then Stopped
      else if f_expires r \<le> a_now a then Failed (attach_failed ''worker attachment expired'')
      else case a_candidate a of
        None \<Rightarrow> Failed (PyOSError ''timeout'')
      | Some c \<Rightarrow>
          (case check_candidate lim r c of
             Inr _ \<Rightarrow> Connected c
           | Inl e \<Rightarrow> if is_broker_error e then accept_loop lim r arrivals else Failed e))"

definition accept_worker :: "nat \<Rightarrow> reservation_facts \<Rightarrow> arrival list \<Rightarrow> bool \<Rightarrow> bool \<Rightarrow> unit res \<Rightarrow> bool \<Rightarrow> accepted" where
  "accept_worker lim r arrivals guard closing_before launch closing_after =
     (case accept_loop lim r arrivals of
        Connected c \<Rightarrow>
          if \<not> guard then Failed (attach_failed ''worker launch is no longer authorized'')
          else if closing_before then Stopped
          else (case launch of
                  Inl e \<Rightarrow> Failed e
                | Inr _ \<Rightarrow> if closing_after then Stopped else Connected c)
      | outcome \<Rightarrow> outcome)"

section \<open>Closing and failing\<close>

datatype reservation_event = ClosingEvent string cleanup | ExitedEvent string "int option"

record reservation =
  r_closing :: bool
  r_cleanup_mode :: "cleanup option"
  r_closing_reason :: "string option"
  r_failure :: "pystr option"
  r_exit_sent :: bool
  r_process :: bool
  r_flow :: flow
  r_closed :: bool

definition reservation_cleanup_mode :: "reservation \<Rightarrow> cleanup" where
  "reservation_cleanup_mode r = (if \<not> r_process r then TerminateOnly else flow_cleanup_mode (r_flow r))"

definition arm_closing :: "string \<Rightarrow> reservation \<Rightarrow> cleanup \<times> reservation \<times> reservation_event list" where
  "arm_closing reason r =
     (case r_cleanup_mode r of
        Some mode \<Rightarrow> (mode, r, [])
      | None \<Rightarrow>
          let (mode, w) = (if r_process r then begin_closing (r_flow r) else (TerminateOnly, r_flow r)) in
          (mode, r\<lparr>r_closing := True, r_closing_reason := Some reason, r_cleanup_mode := Some mode, r_flow := w\<rparr>,
           [ClosingEvent reason mode]))"

text \<open>\<open>code\<close> is the return code of the process, when there is one, after \<^verbatim>\<open>cancel\<close>.\<close>

definition fail_reservation :: "pystr \<Rightarrow> string \<Rightarrow> int option \<Rightarrow> reservation \<Rightarrow> reservation \<times> reservation_event list" where
  "fail_reservation message reason code r =
     (r\<lparr>r_failure := (case r_failure r of None \<Rightarrow> Some (take 1024 message) | Some f \<Rightarrow> Some f), r_closing := True,
        r_flow := snd (begin_closing (r_flow r)), r_exit_sent := True, r_closed := True\<rparr>,
      if r_exit_sent r then [] else [ExitedEvent reason (if r_process r then code else None)])"

text \<open>The end of \<^verbatim>\<open>_worker_to_client\<close>: the worker closed its output; \<open>ended\<close> is \<^verbatim>\<open>process.reason\<close>.\<close>

definition worker_eof :: "string \<Rightarrow> int option \<Rightarrow> reservation \<Rightarrow> reservation \<times> reservation_event list" where
  "worker_eof ended code r =
     (r\<lparr>r_exit_sent := True, r_closed := True\<rparr>,
      [ExitedEvent
         (case r_closing_reason r of
            Some reason \<Rightarrow> reason
          | None \<Rightarrow> if ended = ''exited'' then ''normal''
              else if ended = ''wall_timeout'' then ''deadline'' else ''worker-failure'')
         code])"

datatype reservation_op = Arm string | Fail pystr string "int option" | Eof string "int option"

fun reservation_run :: "reservation \<Rightarrow> reservation_op list \<Rightarrow> reservation \<times> reservation_event list" where
  "reservation_run r [] = (r, [])"
| "reservation_run r (p # ps) =
     (case (case p of
          Arm reason \<Rightarrow> snd (arm_closing reason r)
        | Fail message reason code \<Rightarrow> fail_reservation message reason code r
        | Eof ended code \<Rightarrow> worker_eof ended code r) of
        (r', events) \<Rightarrow> (case reservation_run r' ps of (r'', events') \<Rightarrow> (r'', events @ events')))"

section \<open>What an accepted attachment is\<close>

lemma receive_attach_Inr:
  "receive_attach expires c i data stream = Inr f \<Longrightarrow> length data \<le> attach_max_bytes \<Longrightarrow>
     prefix f (data @ stream) \<and> 10 \<in> set f \<and> line_end f = length f \<and> length f \<le> attach_max_bytes"
proof (induction expires c i data stream rule: receive_attach.induct)
  case (1 expires c i data stream)
  show ?case
  proof (cases "10 \<in> set data")
    case True
    then show ?thesis using "1.prems" by (auto simp: receive_attach.simps [of expires c i data])
  next
    case False
    then obtain n where n: "\<not> expires \<le> c_clock c i" "c_recv c i = Inr n" "stream \<noteq> []"
      using "1.prems"(1) by (auto simp: receive_attach.simps [of expires c i data] split: if_splits sum.splits)
    let ?k = "recv_size n (length data)" let ?d = "data @ take ?k stream"
    have small: "\<not> attach_max_bytes < length ?d" and rec: "receive_attach expires c (Suc i) ?d (drop ?k stream) = Inr f"
      using "1.prems"(1) False n by (simp_all add: receive_attach.simps [of expires c i data] Let_def split: if_splits)
    have "prefix f (?d @ drop ?k stream) \<and> 10 \<in> set f \<and> line_end f = length f \<and> length f \<le> attach_max_bytes"
      using "1.IH" [OF False n(1,2,3) refl refl small rec] small by simp
    then show ?thesis by simp
  qed
qed

lemma accept_loop_Connected:
  "accept_loop lim r arrivals = Connected c \<Longrightarrow>
     (\<exists>a \<in> set arrivals. a_candidate a = Some c \<and> \<not> a_closing a \<and> a_now a < f_expires r) \<and> check_candidate lim r c = Inr ()"
  by (induction lim r arrivals rule: accept_loop.induct) (auto split: if_splits option.splits sum.splits)

lemma accept_worker_Connected:
  "accept_worker lim r arrivals guard before launch after = Connected c \<longleftrightarrow>
     accept_loop lim r arrivals = Connected c \<and> guard \<and> \<not> before \<and> launch = Inr () \<and> \<not> after"
  by (auto simp: accept_worker_def split: accepted.splits sum.splits)

lemma check_candidate_Inr:
  assumes "check_candidate lim r c = Inr ()"
  obtains frame attach where "c_uid c = f_owner_uid r" "c_uid c = f_uid r" "prefix frame (c_stream c)"
    "length frame \<le> attach_max_bytes" "strict_attach lim frame = Inr attach" "authority r attach" "c_done c < f_expires r"
  using assms receive_attach_Inr [of "f_expires r" c 0 "[]" "c_stream c"]
  by (auto simp: check_candidate_def bindE_eq_Inr)

definition refusable :: "nat \<Rightarrow> reservation_facts \<Rightarrow> arrival \<Rightarrow> bool" where
  "refusable lim r a \<longleftrightarrow> \<not> a_closing a \<and> a_now a < f_expires r \<and>
     (case a_candidate a of None \<Rightarrow> False
      | Some c \<Rightarrow> (case check_candidate lim r c of Inr _ \<Rightarrow> False | Inl e \<Rightarrow> is_broker_error e))"

lemma accept_loop_refused:
  "list_all (refusable lim r) before \<Longrightarrow> accept_loop lim r (before @ arrivals) = accept_loop lim r arrivals"
  by (induction before) (auto simp: refusable_def split: option.splits sum.splits)

section \<open>Deep nesting\<close>

lemma jvalue_nested:
  "lim < k \<Longrightarrow> 2 * lim + 1 \<le> n \<Longrightarrow> jvalue num const pairs n lim (replicate k 91) = Inl PyRecursionError"
proof (induction lim arbitrary: k n)
  case 0
  then obtain n' k' where "n = Suc n'" "k = Suc k'" by (auto simp: gr0_conv_Suc Suc_le_eq)
  then show ?case by simp
next
  case (Suc lim)
  then obtain n' k' where n: "n = Suc (Suc n')" and k: "k = Suc (Suc k')"
    by (cases n; cases "n - 1"; cases k; cases "k - 1") auto
  have "jvalue num const pairs n' lim (replicate (Suc k') 91) = Inl PyRecursionError"
    using Suc by (intro Suc.IH) (auto simp: n k)
  then show ?case by (simp add: n k skip_ws.simps)
qed

lemma utf8_decode_nested: "utf8_decode (replicate k 91) = Some (replicate k 91)"
  by (induction k) simp_all

lemma attach_nested:
  assumes "lim < k" "k \<le> attach_max_bytes"
  shows "strict_attach lim (replicate k 91 @ [10]) = Inl PyRecursionError"
proof -
  have "startswith (replicate k 91) [65279] = False" using assms by (cases k) (auto simp: startswith_def)
  moreover have "skip_ws (replicate k 91) = replicate k 91" by (cases k) simp_all
  moreover have "jvalue num const pairs (2 * k + 2) lim (replicate k 91) = Inl PyRecursionError" for num const pairs
    using assms by (intro jvalue_nested) auto
  ultimately have "json_loads num const pairs lim (replicate k 91) = Inl PyRecursionError" for num const pairs
    by (simp add: json_loads_def)
  then show ?thesis using assms by (simp add: strict_attach_def attach_json_def utf8_decode_nested endswith_def)
qed

section \<open>Closing and failing\<close>

fun is_closing_event :: "reservation_event \<Rightarrow> bool" where
  "is_closing_event (ClosingEvent _ _) = True"
| "is_closing_event _ = False"

abbreviation exits :: "reservation_event list \<Rightarrow> reservation_event list" where
  "exits events \<equiv> filter (\<lambda>e. \<not> is_closing_event e) events"

fun is_eof :: "reservation_op \<Rightarrow> bool" where
  "is_eof (Eof _ _) = True"
| "is_eof _ = False"

lemma arm_closing_simps:
  assumes "snd (arm_closing reason r) = (r', events)"
  shows "r_cleanup_mode r' \<noteq> None" "r_failure r' = r_failure r" "r_exit_sent r' = r_exit_sent r"
    "r_closing r \<Longrightarrow> r_closing r'" "exits events = []"
    "length (filter is_closing_event events) = (if r_cleanup_mode r = None then 1 else 0)"
  using assms by (auto simp: arm_closing_def split: option.splits prod.splits)

lemma reservation_run_events:
  "reservation_run r ps = (r', events) \<Longrightarrow>
     length (filter is_closing_event events) \<le> (if r_cleanup_mode r = None then 1 else 0) \<and>
     length (exits events) \<le> (if r_exit_sent r then 0 else 1) + length (filter is_eof ps) \<and>
     (r_failure r \<noteq> None \<longrightarrow> r_failure r' = r_failure r) \<and> (r_closing r \<longrightarrow> r_closing r')"
proof (induction ps arbitrary: r r' events)
  case (Cons p ps)
  show ?case
  proof (cases p)
    case (Arm reason)
    obtain r1 e1 where 1: "snd (arm_closing reason r) = (r1, e1)" by (cases "snd (arm_closing reason r)")
    obtain r2 e2 where 2: "reservation_run r1 ps = (r2, e2)" by (cases "reservation_run r1 ps")
    show ?thesis using Cons.prems Cons.IH [OF 2] arm_closing_simps [OF 1] by (auto simp: Arm 1 2)
  next
    case (Fail message reason code)
    obtain r1 e1 where 1: "fail_reservation message reason code r = (r1, e1)" by (cases "fail_reservation message reason code r")
    obtain r2 e2 where 2: "reservation_run r1 ps = (r2, e2)" by (cases "reservation_run r1 ps")
    have "r_cleanup_mode r1 = r_cleanup_mode r" "r_exit_sent r1" "r_closing r1" "r_failure r1 \<noteq> None"
      "r_failure r \<noteq> None \<Longrightarrow> r_failure r1 = r_failure r" "filter is_closing_event e1 = []"
      "length (exits e1) = (if r_exit_sent r then 0 else 1)"
      using 1 by (auto simp: fail_reservation_def split: option.splits)
    then show ?thesis using Cons.prems Cons.IH [OF 2] by (auto simp: Fail 1 2)
  next
    case (Eof ended code)
    obtain r1 e1 where 1: "worker_eof ended code r = (r1, e1)" by (cases "worker_eof ended code r")
    obtain r2 e2 where 2: "reservation_run r1 ps = (r2, e2)" by (cases "reservation_run r1 ps")
    have "r_cleanup_mode r1 = r_cleanup_mode r" "r_exit_sent r1" "r_closing r1 = r_closing r" "r_failure r1 = r_failure r"
      "filter is_closing_event e1 = []" "length (exits e1) = 1"
      using 1 by (auto simp: worker_eof_def)
    then show ?thesis using Cons.prems Cons.IH [OF 2] by (auto simp: Eof 1 2)
  qed
qed simp

section \<open>Properties\<close>


text \<open>C21 Refused peers do not use up the reservation: after any number of arrivals that are refused with a broker
  error, a peer that passes the checks in time is connected.\<close>

theorem attach_not_consumed:
  assumes "list_all (refusable lim r) refused" "a_candidate a = Some c" "\<not> a_closing a" "a_now a < f_expires r"
    "check_candidate lim r c = Inr ()"
  shows "accept_worker lim r (refused @ a # later) True False (Inr ()) False = Connected c"
  using accept_loop_refused [OF assms(1)] assms(2-5) by (simp add: accept_worker_Connected)

text \<open>C28 However closing requests, failures and the end of the worker's output follow each other, the start of closing
  is announced at most once, the first failure message is kept, a closing reservation stays closing, and exits are
  announced at most once besides the end of output.\<close>

theorem reservation_announcements:
  assumes "reservation_run r ps = (r', events)"
  shows "length (filter is_closing_event events) \<le> 1 \<and> length (exits events) \<le> 1 + length (filter is_eof ps) \<and>
    (r_failure r \<noteq> None \<longrightarrow> r_failure r' = r_failure r) \<and> (r_closing r \<longrightarrow> r_closing r')"
  using reservation_run_events [OF assms] by (auto split: if_splits)

section \<open>Witnesses\<close>

definition example_facts :: reservation_facts where
  "example_facts = \<lparr>f_owner_uid = 1000, f_uid = 1000, f_session = replicate 32 97, f_worker = replicate 32 98,
     f_token = replicate 64 99, f_expires = 50\<rparr>"

definition example_attach :: "nat \<Rightarrow> bytes" where
  \<open>example_attach t = lit ''{"v":1,"kind":"attach","sessionId":"'' @ replicate 32 97 @ lit ''","workerId":"'' @ replicate 32 98 @
     lit ''","attachmentToken":"'' @ replicate 64 t @ lit ''"}'' @ [10]\<close>

definition example_peer :: "bytes \<Rightarrow> candidate" where
  "example_peer stream = \<lparr>c_uid = 1000, c_stream = stream, c_recv = (\<lambda>_. Inr 1024), c_clock = (\<lambda>_. 20), c_done = 30\<rparr>"

definition example_arrival :: "bytes \<Rightarrow> arrival" where
  "example_arrival stream = \<lparr>a_closing = False, a_now = 10, a_candidate = Some (example_peer stream)\<rparr>"

lemma example_sel:
  "f_expires example_facts = 50" "f_owner_uid example_facts = 1000" "f_uid example_facts = 1000"
  "\<not> a_closing (example_arrival s)" "a_now (example_arrival s) = 10" "a_candidate (example_arrival s) = Some (example_peer s)"
  "c_uid (example_peer s) = 1000" "c_stream (example_peer s) = s"
  by (simp_all add: example_facts_def example_arrival_def example_peer_def)

lemma example_checks:
  "check_candidate 97 example_facts (example_peer (example_attach 99)) = Inr ()"
  "check_candidate 97 example_facts (example_peer (example_attach 100)) =
     Inl (BrokerError ''ATTACHMENT_FAILED'' ''worker attachment authority is invalid'')"
  by code_simp+

lemma example_refusable: "refusable 97 example_facts (example_arrival (example_attach 100))"
  by (simp add: refusable_def example_sel example_checks is_broker_error_def)

lemma example_accepts:
  "accept_worker 97 example_facts [example_arrival (example_attach 100), example_arrival (example_attach 99)] True False (Inr ()) False
     = Connected (example_peer (example_attach 99))"
  by (simp add: accept_worker_Connected example_sel example_checks is_broker_error_def)


theorem attach_not_consumed_witness:
  "accept_worker 97 example_facts ([example_arrival (example_attach 100)] @ example_arrival (example_attach 99) # []) True False (Inr ()) False
     = Connected (example_peer (example_attach 99))"
  by (rule attach_not_consumed)
    (simp_all add: example_refusable example_checks example_sel)

definition example_reservation :: reservation where
  "example_reservation = \<lparr>r_closing = False, r_cleanup_mode = None, r_closing_reason = None, r_failure = None,
     r_exit_sent = False, r_process = True, r_flow = flow_init, r_closed = False\<rparr>"

theorem reservation_announcements_witness:
  "case reservation_run example_reservation [Arm ''normal'', Arm ''deadline'', Fail (lit ''x'') ''worker-failure'' None] of
     (r, events) \<Rightarrow> length (filter is_closing_event events) \<le> 1 \<and> length (exits events) \<le> 1"
proof -
  let ?ps = "[Arm ''normal'', Arm ''deadline'', Fail (lit ''x'') ''worker-failure'' None]"
  obtain r events where run: "reservation_run example_reservation ?ps = (r, events)"
    by (cases "reservation_run example_reservation ?ps")
  then show ?thesis using reservation_announcements [OF run] by (simp only: prod.case) simp
qed

text \<open>
  The exit of one worker is announced twice: a client that disconnects makes \<^verbatim>\<open>_fail\<close> announce it, and the end of the
  cancelled worker's output announces it again, since that branch sets \<^verbatim>\<open>_exit_event_sent\<close> without reading it.
\<close>

lemma exit_announced_twice:
  "snd (reservation_run example_reservation
     [Fail (lit ''worker client disconnected'') ''client-failure'' None, Eof ''cancelled'' (Some 137)]) =
   [ExitedEvent ''client-failure'' None, ExitedEvent ''worker-failure'' (Some 137)]"
  by code_simp

text \<open>
  A frame of opening brackets nested deeper than the JSON decoder allows raises \<^verbatim>\<open>RecursionError\<close>, which is not a
  broker error: the accept loop fails and the peer with the token is never heard.
\<close>

lemma nested_attach_consumes:
  assumes "lim < k" "k < 1024"
  shows "accept_loop lim example_facts (example_arrival (replicate k 91 @ [10]) # arrivals) = Failed PyRecursionError"
proof -
  let ?c = "example_peer (replicate k 91 @ [10])"
  have size: "recv_size 1024 0 = 1024" by (simp add: recv_size_def attach_max_bytes_def)
  have "receive_attach 50 ?c 0 [] (replicate k 91 @ [10]) = Inr (replicate k 91 @ [10])"
    using assms
    by (simp add: receive_attach.simps [of _ _ _ "[]"] receive_attach.simps [of _ _ _ "_ @ _"] example_peer_def size
        attach_max_bytes_def line_end_line)
  moreover have "strict_attach lim (replicate k 91 @ [10]) = Inl PyRecursionError"
    using assms by (intro attach_nested) (simp_all add: attach_max_bytes_def)
  ultimately have "check_candidate lim example_facts ?c = Inl PyRecursionError"
    by (simp add: check_candidate_def example_sel)
  then show ?thesis by (simp add: example_sel is_broker_error_def)
qed

end
