(* ===== verification/HostedRun.thy ===== *)
theory HostedRun
  imports ControlTheorems Machines
begin

text \<open>
  A managed hosting run (\<^verbatim>\<open>HostedRun\<close> and the \<^verbatim>\<open>_host\<close> methods of \<^verbatim>\<open>supervisor/mirrorgate/orchestration.py\<close>).  \<open>run\<close> is the run
  record, \<open>hosting\<close> what its methods read and write of the session.  A definition named \<open>..._locked\<close>, \<open>cancel_host\<close>,
  \<open>submit_failed\<close> and \<open>host_event\<close> are each one critical section under \<^verbatim>\<open>state.lock\<close>; the methods are built from them,
  and \<open>host_step\<close> interleaves them as the hosting thread, the broker thread and the control connection can.  The hosting thread runs \<open>host_begin\<close> once and first, and the broker it creates submits only
  after that: \<open>h_begun\<close> records this order.  What the backend and the runtime return are arguments.
\<close>

section \<open>State\<close>

datatype run_phase = Starting | Running | Submitting | Cleaning | Finished

record progress =
  p_first :: int
  p_next :: int
  p_truncated :: bool
  p_records :: "pyval list"

record run =
  run_id :: pystr
  run_limits :: pyval
  run_phase :: run_phase
  run_outcome :: "string option"
  run_submission :: "pyval option"
  run_error :: "pyval option"
  run_cleanup :: "string \<times> pyval list"
  run_progress :: progress
  run_cancel :: bool
  run_tool_cancel :: bool
  run_cancel_reason :: "string option"
  run_notified :: bool

record hosting =
  h_phase :: string
  h_run :: run
  h_submission :: "pyval option"
  h_snapshots :: nat
  h_cleanup_complete :: bool
  h_begun :: bool
  h_events :: "(string \<times> pyval) list"

record host_result =
  res_reason :: string
  res_complete :: bool
  res_remaining :: "pyval list"

definition phase_name :: "run_phase \<Rightarrow> string" where
  "phase_name p = (case p of Starting \<Rightarrow> ''starting'' | Running \<Rightarrow> ''running'' | Submitting \<Rightarrow> ''submitting''
     | Cleaning \<Rightarrow> ''cleaning'' | Finished \<Rightarrow> ''finished'')"

definition progress_value :: "progress \<Rightarrow> pyval" where
  "progress_value p = PDict [(lit ''firstSeq'', PInt (p_first p)), (lit ''nextSeq'', PInt (p_next p)),
     (lit ''truncated'', PBool (p_truncated p)), (lit ''records'', PList (p_records p))]"

definition optional_field :: "string \<Rightarrow> pyval option \<Rightarrow> (pystr \<times> pyval) list" where
  "optional_field k v = (case v of None \<Rightarrow> [] | Some x \<Rightarrow> [(lit k, x)])"

definition run_public :: "run \<Rightarrow> pyval" where
  "run_public r = PDict
     ([(lit ''runId'', PStr (run_id r)), (lit ''phase'', pyl (phase_name (run_phase r))),
       (lit ''cleanup'', PDict [(lit ''status'', pyl (fst (run_cleanup r))),
                                (lit ''remainingResources'', PList (snd (run_cleanup r)))]),
       (lit ''progress'', progress_value (run_progress r)), (lit ''limits'', run_limits r)] @
      optional_field ''outcome'' (map_option pyl (run_outcome r)) @
      optional_field ''submission'' (run_submission r) @ optional_field ''error'' (run_error r))"

definition new_run :: "pystr \<Rightarrow> pyval \<Rightarrow> run" where
  "new_run rid limits = \<lparr>run_id = rid, run_limits = limits, run_phase = Starting, run_outcome = None, run_submission = None,
     run_error = None, run_cleanup = (''notStarted'', []),
     run_progress = \<lparr>p_first = 1, p_next = 1, p_truncated = False, p_records = []\<rparr>,
     run_cancel = False, run_tool_cancel = False, run_cancel_reason = None, run_notified = False\<rparr>"

section \<open>Progress\<close>

definition record_size :: "pyval \<Rightarrow> int res" where
  "record_size item = bindE (control_encode_frame control_max_frame_bytes item) (\<lambda>bs. Inr (int (length bs) - 1))"

fun any_larger :: "int \<Rightarrow> pyval list \<Rightarrow> bool res" where
  "any_larger mx [] = Inr False"
| "any_larger mx (r # rs) = bindE (record_size r) (\<lambda>n. if mx < n then Inr True else any_larger mx rs)"

fun sizes :: "pyval list \<Rightarrow> int res" where
  "sizes [] = Inr 0"
| "sizes (r # rs) = bindE (record_size r) (\<lambda>n. bindE (sizes rs) (\<lambda>m. Inr (n + m)))"

definition over_budget :: "pyval \<Rightarrow> pyval list \<Rightarrow> bool res" where
  "over_budget limits records =
     (if the_Int (fld limits ''progressRecords'') < int (length records) then Inr True
      else bindE (any_larger (the_Int (fld limits ''progressRecordBytes'')) records) (\<lambda>larger.
        if larger then Inr True
        else bindE (sizes records) (\<lambda>n. Inr (the_Int (fld limits ''progressBytes'') < n))))"

text \<open>\<^verbatim>\<open>while over budget: records.pop(0)\<close>; popping an empty list is an \<^verbatim>\<open>IndexError\<close>.\<close>

fun trim_records :: "pyval \<Rightarrow> pyval list \<Rightarrow> pyval list res" where
  "trim_records limits [] = bindE (over_budget limits []) (\<lambda>over.
     if over then Inl (PyRuntimeError ''IndexError: pop from empty list'') else Inr [])"
| "trim_records limits (r # rs) = bindE (over_budget limits (r # rs)) (\<lambda>over.
     if over then trim_records limits rs else Inr (r # rs))"

definition progress_record :: "int \<Rightarrow> string \<Rightarrow> pyval" where
  "progress_record seq message = PDict [(lit ''seq'', PInt seq), (lit ''message'', pyl message)]"

definition host_progress :: "pyval \<Rightarrow> progress \<Rightarrow> string \<Rightarrow> progress res" where
  "host_progress limits p message =
     bindE (trim_records limits (p_records p @ [progress_record (p_next p) message])) (\<lambda>records.
       let following = p_next p + 1; first = following - int (length records) in
       Inr \<lparr>p_first = first, p_next = following, p_truncated = (1 < first), p_records = records\<rparr>)"

text \<open>The fixed texts the controller reports.\<close>

definition host_messages :: "string list" where
  "host_messages = [''Managed authoring accepted'', ''Starting approved agent runtime'', ''Sealing submission source'',
     ''Submission source committed'', ''Hosting cleanup completed'', ''Hosting cleanup unconfirmed'']"

definition run_progressed :: "run \<Rightarrow> string \<Rightarrow> run res" where
  "run_progressed r message =
     bindE (host_progress (run_limits r) (run_progress r) message) (\<lambda>p. Inr (r\<lparr>run_progress := p\<rparr>))"

section \<open>The critical sections\<close>

definition hosting_error_message :: "string \<Rightarrow> string" where
  "hosting_error_message code =
     (case map_of
        [(''STATE_INVALID'', ''hosting is unavailable in this session state''),
         (''HANDLE_INVALID'', ''invalid hosted run handle''), (''POLICY_DENIED'', ''hosting profile is not permitted''),
         (''AUDIT_UNAVAILABLE'', ''approved runtime audit is unavailable''),
         (''CAPABILITY_UNAVAILABLE'', ''required hosting capability is unavailable''),
         (''LIMIT_EXCEEDED'', ''hosting limit exceeded''), (''CANCELLED'', ''hosting cancelled''),
         (''DEADLINE_EXCEEDED'', ''hosting deadline exceeded'')] code of
        Some message \<Rightarrow> message | None \<Rightarrow> ''managed hosting failed'')"

definition hosting_error :: "string \<Rightarrow> string \<Rightarrow> pyval" where
  "hosting_error code message =
     PDict [(lit ''code'', pyl code), (lit ''stage'', pyl ''hosting''), (lit ''message'', pyl message)]"

definition host_event :: "hosting \<Rightarrow> hosting" where
  "host_event s =
     (let r = h_run s in
      if run_phase r = Finished then
        (if run_notified r then s
         else s\<lparr>h_run := r\<lparr>run_notified := True\<rparr>, h_events := (''agent.finished'', run_public r) # h_events s\<rparr>)
      else s\<lparr>h_events := (''agent.updated'', run_public r) # h_events s\<rparr>)"

definition adopt_submission :: "hosting \<Rightarrow> hosting" where
  "adopt_submission s =
     (case h_submission s of
        Some submission \<Rightarrow>
          if run_phase (h_run s) \<noteq> Finished then
            s\<lparr>h_run := (h_run s)\<lparr>run_submission := Some submission, run_outcome := Some ''submitted'', run_error := None,
                 run_phase := Cleaning, run_cleanup := (''pending'', [])\<rparr>,
              h_phase := (if h_phase s \<in> {''closing'', ''closed'', ''cleanupFailed''} then h_phase s else ''submitted''),
              h_snapshots := max 1 (h_snapshots s)\<rparr>
          else s
      | None \<Rightarrow> s)"

definition cancel_host :: "string \<Rightarrow> hosting \<Rightarrow> hosting" where
  "cancel_host reason s =
     (if run_phase (h_run s) = Finished then s
      else let s = adopt_submission s; r = h_run s in
        s\<lparr>h_run := r\<lparr>run_cancel_reason := (case run_cancel_reason r of None \<Rightarrow> Some reason | Some c \<Rightarrow> Some c),
            run_cancel := True, run_tool_cancel := True\<rparr>\<rparr>)"

definition terminal_outcome :: "run \<Rightarrow> string \<Rightarrow> string \<times> string" where
  "terminal_outcome r reason =
     (if run_cancel_reason r = Some ''deadline'' \<or> reason = ''wall_timeout'' then (''timedOut'', ''DEADLINE_EXCEEDED'')
      else if run_cancel_reason r \<noteq> None \<or> reason = ''cancelled'' then (''cancelled'', ''CANCELLED'')
      else if reason = ''stdout_limit'' \<or> reason = ''stderr_limit'' then (''failed'', ''LIMIT_EXCEEDED'')
      else (''failed'', if reason = ''start_failed'' then ''AGENT_START_FAILED'' else ''AGENT_EXITED''))"

definition settle_outcome :: "string \<Rightarrow> run \<Rightarrow> run" where
  "settle_outcome reason r =
     (if run_outcome r = None then
        (let (outcome, code) = terminal_outcome r reason in
         r\<lparr>run_outcome := Some outcome, run_error := Some (hosting_error code (hosting_error_message code))\<rparr>)
      else r)"

definition terminal_locked :: "host_result \<Rightarrow> hosting \<Rightarrow> hosting res" where
  "terminal_locked result s =
     (let s = adopt_submission s; r = settle_outcome (res_reason result) (h_run s);
          complete = (res_complete result \<and> res_remaining result = []) in
      bindE (run_progressed
          (r\<lparr>run_phase := Finished,
             run_cleanup := (if complete then ''succeeded'' else ''failed'', res_remaining result)\<rparr>)
          (if complete then ''Hosting cleanup completed'' else ''Hosting cleanup unconfirmed'')) (\<lambda>r'.
        Inr (s\<lparr>h_run := r', h_cleanup_complete := complete\<rparr>)))"

definition terminal_host :: "host_result \<Rightarrow> hosting \<Rightarrow> hosting res" where
  "terminal_host result s =
     (if run_phase (h_run s) = Finished then Inr s
      else bindE (terminal_locked result s) (\<lambda>s'. Inr (host_event s')))"

text \<open>\<^verbatim>\<open>_join_host\<close> when the wait times out.\<close>

definition join_timeout :: "hosting \<Rightarrow> hosting res" where
  "join_timeout s = terminal_host \<lparr>res_reason = ''cancelled'', res_complete = False, res_remaining = [pyl ''agent-host'']\<rparr>
     (cancel_host ''client-failure'' s)"

definition begin_locked :: "hosting \<Rightarrow> hosting res" where
  "begin_locked s =
     (if run_cancel (h_run s) then Inr s
      else bindE (run_progressed ((h_run s)\<lparr>run_phase := Running\<rparr>) ''Starting approved agent runtime'') (\<lambda>r.
        Inr (s\<lparr>h_run := r\<rparr>)))"

definition submit_locked :: "hosting \<Rightarrow> hosting res" where
  "submit_locked s =
     (let s = adopt_submission s; r = h_run s in
      if run_submission r \<noteq> None then Inr s
      else if run_phase r \<notin> {Starting, Running} \<or> run_cancel r \<or> h_phase s \<noteq> ''authoring'' then
        Inl (ControlProtocolError ''STATE_INVALID'' ''hosting'' ''submission unavailable'' False)
      else bindE (run_progressed (r\<lparr>run_phase := Submitting, run_tool_cancel := True\<rparr>) ''Sealing submission source'') (\<lambda>r'.
        Inr (s\<lparr>h_run := r'\<rparr>)))"

definition commit_locked :: "hosting \<Rightarrow> hosting res" where
  "commit_locked s =
     (let s = adopt_submission s; r = h_run s in
      if run_phase r = Finished then Inl (ControlProtocolError ''CANCELLED'' ''hosting'' ''hosting already ended'' False)
      else bindE (run_progressed (r\<lparr>run_cancel := True\<rparr>) ''Submission source committed'') (\<lambda>r'.
        Inr (s\<lparr>h_run := r'\<rparr>)))"

definition submit_failed :: "bool \<Rightarrow> hosting \<Rightarrow> hosting" where
  "submit_failed timed_out s =
     (let s = adopt_submission s; r = h_run s;
          r = (if run_outcome r = None \<and> timed_out then
                 r\<lparr>run_outcome := Some ''timedOut'', run_cancel_reason := Some ''deadline'',
                   run_error := Some (hosting_error ''DEADLINE_EXCEEDED'' ''hosting deadline exceeded''),
                   run_phase := Cleaning, run_cleanup := (''pending'', [])\<rparr>
               else if run_outcome r = None \<and> \<not> run_cancel r then
                 r\<lparr>run_outcome := Some ''failed'',
                   run_error := Some (hosting_error ''PREPARATION_FAILED'' ''submission could not be frozen''),
                   run_phase := Cleaning, run_cleanup := (''pending'', [])\<rparr>
               else r) in
      s\<lparr>h_run := r\<lparr>run_cancel := True\<rparr>\<rparr>)"

definition start_hosting :: "pystr \<Rightarrow> pyval \<Rightarrow> hosting res" where
  "start_hosting rid limits = bindE (run_progressed (new_run rid limits) ''Managed authoring accepted'') (\<lambda>r.
     Inr \<lparr>h_phase = ''authoring'', h_run = r, h_submission = None, h_snapshots = 0, h_cleanup_complete = False,
          h_begun = False, h_events = []\<rparr>)"

text \<open>
  \<^verbatim>\<open>_host_submit\<close> when nothing interleaves: \<open>frozen\<close> is what \<^verbatim>\<open>backend.submit_source\<close> installs and returns, or
  its exception and whether that was a deadline.
\<close>

definition host_submit :: "(bool + pyval) \<Rightarrow> hosting \<Rightarrow> pyval res \<times> hosting" where
  "host_submit frozen s =
     (case submit_locked s of
        Inl e \<Rightarrow> (Inl e, adopt_submission s)
      | Inr s1 \<Rightarrow>
          (case run_submission (h_run s1) of
             Some v \<Rightarrow> (Inr v, s1)
           | None \<Rightarrow>
               let s2 = host_event s1;
                   refused = (\<lambda>late s'. (Inl (if late
                       then ControlProtocolError ''DEADLINE_EXCEEDED'' ''hosting'' ''hosting deadline exceeded'' False
                       else ControlProtocolError ''PREPARATION_FAILED'' ''hosting'' ''submission could not be frozen'' False),
                     submit_failed late s')) in
               (case frozen of
                  Inl late \<Rightarrow> refused late s2
                | Inr v \<Rightarrow>
                    (let s3 = s2\<lparr>h_submission := Some v\<rparr> in
                     case commit_locked s3 of
                       Inl _ \<Rightarrow> refused False s3
                     | Inr s4 \<Rightarrow> (Inr v, host_event s4)))))"

inductive host_step :: "hosting \<Rightarrow> hosting \<Rightarrow> bool" where
  begins: "host_step s (s'\<lparr>h_begun := True\<rparr>)" if "\<not> h_begun s" "begin_locked s = Inr s'"
| submits: "host_step s s'" if "h_begun s" "submit_locked s = Inr s'"
| installs: "host_step s (s\<lparr>h_submission := Some v\<rparr>)" if "h_begun s"
| commits: "host_step s s'" if "h_begun s" "commit_locked s = Inr s'"
| submit_fails: "host_step s (submit_failed timed_out s)" if "h_begun s"
| cancels: "host_step s (cancel_host reason s)"
| ends: "host_step s s'"
    if "h_begun s \<or> run_cancel (h_run s)" "run_phase (h_run s) \<noteq> Finished" "terminal_locked result s = Inr s'"
| announces: "host_step s (host_event s)"
| session: "host_step s (s\<lparr>h_phase := p\<rparr>)"

section \<open>The run invariant\<close>

definition outcome_ok :: "run \<Rightarrow> bool" where
  "outcome_ok r \<longleftrightarrow>
     run_outcome r = Some ''submitted'' \<and> run_submission r \<noteq> None \<and> run_error r = None \<or>
     run_outcome r \<in> Some ` {''failed'', ''cancelled'', ''timedOut''} \<and> run_submission r = None \<and> run_error r \<noteq> None"

definition run_ok :: "run \<Rightarrow> bool" where
  "run_ok r \<longleftrightarrow> (case run_phase r of
     Cleaning \<Rightarrow> run_cleanup r = (''pending'', []) \<and> outcome_ok r
   | Finished \<Rightarrow> (run_cleanup r = (''succeeded'', []) \<or> fst (run_cleanup r) = ''failed'') \<and> outcome_ok r
   | _ \<Rightarrow> run_cleanup r = (''notStarted'', []) \<and> run_outcome r = None \<and> run_submission r = None \<and> run_error r = None)"

definition window :: "progress \<Rightarrow> bool" where
  "window p \<longleftrightarrow> 1 \<le> p_first p \<and> p_next p = p_first p + int (length (p_records p)) \<and>
     p_truncated p = (1 < p_first p) \<and> (\<forall>i < length (p_records p). \<exists>m \<in> set host_messages. p_records p ! i = progress_record (p_first p + int i) m)"

definition window_ok :: "pyval \<Rightarrow> progress \<Rightarrow> bool" where
  "window_ok limits p \<longleftrightarrow> window p \<and> over_budget limits (p_records p) = Inr False"

definition hosting_ok :: "hosting \<Rightarrow> bool" where
  "hosting_ok s \<longleftrightarrow> run_ok (h_run s) \<and>
     (\<not> h_begun s \<longrightarrow> h_submission s = None \<and>
        (run_phase (h_run s) = Starting \<or> run_phase (h_run s) = Finished \<and> run_cancel (h_run s)))"

lemma run_progressed_kept:
  assumes "run_progressed r m = Inr r'"
  obtains p where "r' = r\<lparr>run_progress := p\<rparr>" "host_progress (run_limits r) (run_progress r) m = Inr p"
  using assms by (auto simp: run_progressed_def bindE_eq_Inr)

lemma run_ok_kept [simp]:
  "run_ok (r\<lparr>run_progress := p\<rparr>) = run_ok r" "run_ok (r\<lparr>run_cancel := b\<rparr>) = run_ok r"
  "run_ok (r\<lparr>run_tool_cancel := b\<rparr>) = run_ok r" "run_ok (r\<lparr>run_cancel_reason := c\<rparr>) = run_ok r"
  "run_ok (r\<lparr>run_notified := b\<rparr>) = run_ok r"
  by (simp_all add: run_ok_def outcome_ok_def split: run_phase.split)

lemma trim_records_Inr:
  "trim_records limits rs = Inr rs' \<Longrightarrow> (\<exists>k \<le> length rs. rs' = drop k rs) \<and> over_budget limits rs' = Inr False"
proof (induction limits rs rule: trim_records.induct)
  case (2 limits r rs)
  obtain over where over: "over_budget limits (r # rs) = Inr over" using "2.prems" by (auto simp: bindE_eq_Inr)
  show ?case
  proof (cases over)
    case True
    then have "(\<exists>k \<le> length rs. rs' = drop k rs) \<and> over_budget limits rs' = Inr False" using "2.IH" "2.prems" over by simp
    then show ?thesis by (metis Suc_le_mono drop_Suc_Cons length_Cons)
  next
    case False
    then show ?thesis using "2.prems" over by (intro conjI exI [of _ 0]) auto
  qed
qed (auto simp: bindE_eq_Inr split: if_splits)

lemma host_progress_window:
  assumes "host_progress limits p m = Inr p'" "window p" "m \<in> set host_messages"
  shows "window_ok limits p'"
proof -
  let ?rs = "p_records p @ [progress_record (p_next p) m]"
  obtain rs where rs: "trim_records limits ?rs = Inr rs" and
    p': "p' = \<lparr>p_first = p_next p + 1 - int (length rs), p_next = p_next p + 1,
      p_truncated = (1 < p_next p + 1 - int (length rs)), p_records = rs\<rparr>"
    using assms(1) by (auto simp: host_progress_def bindE_eq_Inr Let_def)
  obtain k where k: "k \<le> length ?rs" "rs = drop k ?rs" and over: "over_budget limits rs = Inr False"
    using trim_records_Inr [OF rs] by blast
  have full: "\<exists>n \<in> set host_messages. ?rs ! i = progress_record (p_first p + int i) n" if "i < length ?rs" for i
    using assms(2,3) that by (cases "i < length (p_records p)") (auto simp: window_def nth_append less_Suc_eq)
  have first: "p_next p + 1 - int (length rs) = p_first p + int k" using assms(2) k by (auto simp: window_def)
  have "\<exists>n \<in> set host_messages. rs ! i = progress_record (p_first p + int k + int i) n" if "i < length rs" for i
  proof -
    have "rs ! i = ?rs ! (k + i)" unfolding k(2) using k(1) by (rule nth_drop)
    moreover have "k + i < length ?rs" using that k(1) unfolding k(2) length_drop by linarith
    ultimately show ?thesis using full [of "k + i"] by (simp only: of_nat_add add.assoc)
  qed
  moreover have "p' = \<lparr>p_first = p_first p + int k, p_next = p_first p + int k + int (length rs),
      p_truncated = (1 < p_first p + int k), p_records = rs\<rparr>"
    unfolding p' using first by (simp add: algebra_simps)
  ultimately show ?thesis using over assms(2) by (simp add: window_ok_def window_def)
qed

lemma record_size_Inr: "record_size r = Inr n \<Longrightarrow> n = int (utf8_size (json_dumps r))"
proof -
  assume "record_size r = Inr n"
  then obtain bs where bs: "control_encode_frame control_max_frame_bytes r = Inr bs" "n = int (length bs) - 1"
    by (auto simp: record_size_def bindE_eq_Inr)
  have "bs \<noteq> []" using bs(1) by (auto simp: control_encode_frame_def bindE_eq_Inr split: option.splits if_splits)
  then show ?thesis using control_encode_length [OF bs(1)] bs(2) by (cases bs) auto
qed

lemma sizes_Inr: "sizes rs = Inr n \<Longrightarrow> n = int (sum_list (map (\<lambda>r. utf8_size (json_dumps r)) rs))"
  by (induction rs arbitrary: n) (auto simp: bindE_eq_Inr dest: record_size_Inr)

lemma window_progress_ok:
  assumes "window_ok limits p"
  shows "progress_ok limits (progress_value p)"
proof -
  have "over_budget limits (p_records p) = Inr False" "window p" using assms by (simp_all add: window_ok_def)
  then obtain n where "sizes (p_records p) = Inr n" "n \<le> the_Int (fld limits ''progressBytes'')"
    "int (length (p_records p)) \<le> the_Int (fld limits ''progressRecords'')"
    by (auto simp: over_budget_def bindE_eq_Inr split: if_splits)
  moreover have "fld (p_records p ! i) ''seq'' = PInt (p_first p + int i)" if "i < length (p_records p)" for i
    using \<open>window p\<close> that by (force simp: window_def progress_record_def)
  ultimately show ?thesis using \<open>window p\<close> sizes_Inr unfolding progress_ok_def
    by (intro exI [of _ "p_first p"] exI [of _ "p_records p"]) (auto simp: progress_value_def window_def)
qed

lemma run_ok_coherent: "run_ok r \<Longrightarrow> run_coherent (run_public r)"
  unfolding run_ok_def outcome_ok_def run_coherent_def run_public_def Let_def
  by (cases "run_phase r"; cases "run_outcome r"; cases "run_submission r"; cases "run_error r")
    (auto simp: phase_name_def optional_field_def)

lemma adopt_ok: "run_ok (h_run s) \<Longrightarrow> run_ok (h_run (adopt_submission s))"
  by (auto simp: adopt_submission_def run_ok_def outcome_ok_def split: option.splits run_phase.splits)

lemma adopt_kept:
  "h_begun (adopt_submission s) = h_begun s" "h_submission (adopt_submission s) = h_submission s"
  "run_limits (h_run (adopt_submission s)) = run_limits (h_run s)" "run_progress (h_run (adopt_submission s)) = run_progress (h_run s)"
  "run_cancel (h_run (adopt_submission s)) = run_cancel (h_run s)" "h_events (adopt_submission s) = h_events s"
  "run_notified (h_run (adopt_submission s)) = run_notified (h_run s)"
  "h_submission s = None \<Longrightarrow> adopt_submission s = s" "run_phase (h_run s) = Finished \<Longrightarrow> adopt_submission s = s"
  "run_phase (h_run (adopt_submission s)) = Finished \<longleftrightarrow> run_phase (h_run s) = Finished"
  by (auto simp: adopt_submission_def split: option.splits)

lemma host_event_kept:
  "h_begun (host_event s) = h_begun s" "h_submission (host_event s) = h_submission s"
  "run_ok (h_run (host_event s)) = run_ok (h_run s)" "run_limits (h_run (host_event s)) = run_limits (h_run s)"
  "run_progress (h_run (host_event s)) = run_progress (h_run s)" "run_phase (h_run (host_event s)) = run_phase (h_run s)"
  "run_cancel (h_run (host_event s)) = run_cancel (h_run s)"
  by (simp_all add: host_event_def Let_def)

definition reach_ok :: "pyval \<Rightarrow> hosting \<Rightarrow> bool" where
  "reach_ok limits s \<longleftrightarrow> hosting_ok s \<and> run_limits (h_run s) = limits \<and> window_ok limits (run_progress (h_run s))"

lemma progressed_ok:
  assumes "run_progressed r m = Inr r'" "run_limits r = limits" "window_ok limits (run_progress r)" "run_ok r"
    "m \<in> set host_messages"
  shows "run_ok r'" "run_limits r' = limits" "window_ok limits (run_progress r')" "run_phase r' = run_phase r"
    "run_cancel r' = run_cancel r" "run_notified r' = run_notified r"
proof -
  obtain p where p: "r' = r\<lparr>run_progress := p\<rparr>" "host_progress (run_limits r) (run_progress r) m = Inr p"
    using assms(1) by (rule run_progressed_kept)
  have "window_ok limits p" using host_progress_window [OF p(2)] assms(2,3,5) by (simp add: window_ok_def)
  then show "run_ok r'" "run_limits r' = limits" "window_ok limits (run_progress r')" "run_phase r' = run_phase r"
    "run_cancel r' = run_cancel r" "run_notified r' = run_notified r"
    using assms(2,4) by (simp_all add: p(1))
qed

lemma settle_outcome_ok:
  assumes "run_ok r" "run_phase r \<noteq> Finished" "c = (''succeeded'', []) \<or> fst c = ''failed''"
  shows "run_ok ((settle_outcome reason r)\<lparr>run_phase := Finished, run_cleanup := c\<rparr>)"
proof -
  have "outcome_ok (settle_outcome reason r)"
  proof (cases "run_outcome r")
    case None
    then have "run_submission r = None" using assms(1) by (auto simp: run_ok_def outcome_ok_def split: run_phase.splits)
    moreover have "fst (terminal_outcome r reason) \<in> {''failed'', ''cancelled'', ''timedOut''}" by (simp add: terminal_outcome_def)
    ultimately show ?thesis using None by (simp add: settle_outcome_def outcome_ok_def split: prod.splits) force
  next
    case (Some out)
    then have "outcome_ok r" using assms(1) by (auto simp: run_ok_def split: run_phase.splits)
    then show ?thesis using Some by (simp add: settle_outcome_def)
  qed
  then show ?thesis using assms(3) by (simp add: run_ok_def outcome_ok_def)
qed

lemma settle_outcome_kept:
  "run_limits (settle_outcome reason r) = run_limits r" "run_progress (settle_outcome reason r) = run_progress r"
  "run_notified (settle_outcome reason r) = run_notified r" "run_cancel (settle_outcome reason r) = run_cancel r"
  by (simp_all add: settle_outcome_def split: prod.splits)

lemma adopt_reach: "reach_ok limits s \<Longrightarrow> reach_ok limits (adopt_submission s)"
  using adopt_ok [of s] adopt_kept(8) [of s] by (auto simp: reach_ok_def hosting_ok_def adopt_kept(1-5))

lemma terminal_locked_reach:
  assumes "reach_ok limits s" "run_phase (h_run s) \<noteq> Finished" "h_begun s \<or> run_cancel (h_run s)"
    "terminal_locked result s = Inr s'"
  shows "reach_ok limits s'"
proof -
  let ?s = "adopt_submission s" let ?complete = "res_complete result \<and> res_remaining result = []"
  let ?r = "(settle_outcome (res_reason result) (h_run ?s))\<lparr>run_phase := Finished,
    run_cleanup := (if ?complete then ''succeeded'' else ''failed'', res_remaining result)\<rparr>"
  let ?m = "if ?complete then ''Hosting cleanup completed'' else ''Hosting cleanup unconfirmed''"
  obtain r where r: "run_progressed ?r ?m = Inr r" and s': "s' = ?s\<lparr>h_run := r, h_cleanup_complete := ?complete\<rparr>"
    using assms(4) by (auto simp: terminal_locked_def Let_def bindE_eq_Inr)
  have ok: "reach_ok limits ?s" using adopt_reach [OF assms(1)] .
  have "run_ok ?r" using ok assms(2) by (intro settle_outcome_ok) (auto simp: reach_ok_def hosting_ok_def adopt_kept)
  then have "run_ok r" "run_limits r = limits" "window_ok limits (run_progress r)" "run_phase r = Finished"
    "run_cancel r = run_cancel (h_run s)"
    using progressed_ok [OF r, of limits] ok by (simp_all add: reach_ok_def settle_outcome_kept adopt_kept host_messages_def)
  then show ?thesis using assms(1,3) by (auto simp: reach_ok_def hosting_ok_def s' adopt_kept)
qed

lemma cancel_reach: "reach_ok limits s \<Longrightarrow> reach_ok limits (cancel_host reason s)"
  using adopt_reach [of limits s]
  by (auto simp: cancel_host_def Let_def reach_ok_def hosting_ok_def)

lemma submit_failed_reach:
  assumes "reach_ok limits s" "h_begun s"
  shows "reach_ok limits (submit_failed late s)"
proof -
  let ?s = "adopt_submission s"
  have ok: "run_ok (h_run ?s)" "run_limits (h_run ?s) = limits" "window_ok limits (run_progress (h_run ?s))" "h_begun ?s"
    using adopt_reach [OF assms(1)] assms(2) by (simp_all add: reach_ok_def hosting_ok_def adopt_kept)
  have unset: "run_submission (h_run ?s) = None" if "run_outcome (h_run ?s) = None"
    using ok(1) that by (auto simp: run_ok_def outcome_ok_def split: run_phase.splits)
  obtain r where r: "submit_failed late s = ?s\<lparr>h_run := r\<rparr>" "run_ok r" "run_limits r = limits" "run_progress r = run_progress (h_run ?s)"
  proof (cases "run_outcome (h_run ?s) = None \<and> (late \<or> \<not> run_cancel (h_run ?s))")
    case True
    then show ?thesis using that unset ok(1,2)
      by (cases late) (simp_all add: submit_failed_def Let_def run_ok_def outcome_ok_def)
  next
    case False
    then have "submit_failed late s = ?s\<lparr>h_run := (h_run ?s)\<lparr>run_cancel := True\<rparr>\<rparr>"
      by (auto simp: submit_failed_def Let_def)
    then show ?thesis using that ok by simp
  qed
  then show ?thesis using ok by (simp add: reach_ok_def hosting_ok_def)
qed

lemma begin_reach:
  assumes "reach_ok limits s" "\<not> h_begun s" "begin_locked s = Inr s'"
  shows "reach_ok limits (s'\<lparr>h_begun := True\<rparr>)"
proof (cases "run_cancel (h_run s)")
  case True
  then show ?thesis using assms by (auto simp: begin_locked_def reach_ok_def hosting_ok_def)
next
  case False
  then obtain r where r: "run_progressed ((h_run s)\<lparr>run_phase := Running\<rparr>) ''Starting approved agent runtime'' = Inr r"
    "s' = s\<lparr>h_run := r\<rparr>"
    using assms(3) by (auto simp: begin_locked_def bindE_eq_Inr)
  have "run_phase (h_run s) = Starting" using assms False by (auto simp: reach_ok_def hosting_ok_def)
  then have "run_ok ((h_run s)\<lparr>run_phase := Running\<rparr>)" using assms(1) by (simp add: reach_ok_def hosting_ok_def run_ok_def)
  from progressed_ok [OF r(1), of limits] this show ?thesis using assms(1) r(2)
    by (simp add: reach_ok_def hosting_ok_def host_messages_def)
qed

lemma submit_reach:
  assumes "reach_ok limits s" "h_begun s" "submit_locked s = Inr s'"
  shows "reach_ok limits s'"
proof -
  let ?s = "adopt_submission s"
  have ok: "reach_ok limits ?s" "h_begun ?s" using assms by (simp_all add: adopt_reach adopt_kept)
  show ?thesis
  proof (cases "run_submission (h_run ?s)")
    case None
    then obtain r where r: "run_progressed ((h_run ?s)\<lparr>run_phase := Submitting, run_tool_cancel := True\<rparr>) ''Sealing submission source'' = Inr r"
      "s' = ?s\<lparr>h_run := r\<rparr>" "run_phase (h_run ?s) \<in> {Starting, Running}"
      using assms(3) by (auto simp: submit_locked_def Let_def bindE_eq_Inr split: if_splits)
    have "run_ok ((h_run ?s)\<lparr>run_phase := Submitting, run_tool_cancel := True\<rparr>)"
      using ok(1) r(3) by (auto simp: reach_ok_def hosting_ok_def run_ok_def)
    from progressed_ok [OF r(1), of limits] this show ?thesis using ok r(2)
      by (simp add: reach_ok_def hosting_ok_def host_messages_def)
  next
    case (Some v)
    then show ?thesis using assms(3) ok by (simp add: submit_locked_def Let_def)
  qed
qed

lemma commit_reach:
  assumes "reach_ok limits s" "h_begun s" "commit_locked s = Inr s'"
  shows "reach_ok limits s'"
proof -
  let ?s = "adopt_submission s"
  have ok: "reach_ok limits ?s" "h_begun ?s" using assms by (simp_all add: adopt_reach adopt_kept)
  obtain r where r: "run_progressed ((h_run ?s)\<lparr>run_cancel := True\<rparr>) ''Submission source committed'' = Inr r" "s' = ?s\<lparr>h_run := r\<rparr>"
    using assms(3) by (auto simp: commit_locked_def Let_def bindE_eq_Inr split: if_splits)
  from progressed_ok [OF r(1), of limits] show ?thesis using ok r(2)
    by (simp add: reach_ok_def hosting_ok_def host_messages_def)
qed

lemma host_step_reach: "host_step s s' \<Longrightarrow> reach_ok limits s \<Longrightarrow> reach_ok limits s'"
proof (induction rule: host_step.induct)
  case (announces s) then show ?case by (simp add: reach_ok_def hosting_ok_def host_event_kept)
next
  case (installs s v) then show ?case by (simp add: reach_ok_def hosting_ok_def)
next
  case (session s p) then show ?case by (simp add: reach_ok_def hosting_ok_def)
qed (rule begin_reach submit_reach commit_reach submit_failed_reach cancel_reach terminal_locked_reach; assumption)+

lemma start_reach: "start_hosting rid limits = Inr s \<Longrightarrow> reach_ok limits s \<and> h_events s = [] \<and> run_phase (h_run s) = Starting"
proof -
  assume "start_hosting rid limits = Inr s"
  then obtain r where r: "run_progressed (new_run rid limits) ''Managed authoring accepted'' = Inr r" and
    s: "h_run s = r" "h_begun s = False" "h_submission s = None" "h_events s = []"
    by (auto simp: start_hosting_def bindE_eq_Inr)
  obtain p where p: "r = (new_run rid limits)\<lparr>run_progress := p\<rparr>"
    "host_progress limits (run_progress (new_run rid limits)) ''Managed authoring accepted'' = Inr p"
    using r by (elim run_progressed_kept) (simp add: new_run_def)
  have "window_ok limits p" using p(2) by (rule host_progress_window) (simp_all add: new_run_def window_def host_messages_def)
  then show ?thesis using s p(1) by (simp add: reach_ok_def hosting_ok_def new_run_def run_ok_def)
qed

section \<open>A finished run stays finished\<close>

definition run_core :: "run \<Rightarrow> run_phase \<times> string option \<times> pyval option \<times> pyval option \<times> (string \<times> pyval list) \<times> progress" where
  "run_core r = (run_phase r, run_outcome r, run_submission r, run_error r, run_cleanup r, run_progress r)"

lemma finished_step:
  "host_step s s' \<Longrightarrow> hosting_ok s \<Longrightarrow> run_phase (h_run s) = Finished \<Longrightarrow> run_core (h_run s') = run_core (h_run s)"
proof (induction rule: host_step.induct)
  case (begins s s')
  then show ?case by (simp add: begin_locked_def hosting_ok_def)
next
  case (submit_fails s late)
  then have "run_outcome (h_run s) \<noteq> None" by (auto simp: hosting_ok_def run_ok_def outcome_ok_def)
  then show ?case using submit_fails by (simp add: submit_failed_def Let_def adopt_kept run_core_def)
qed (auto simp: submit_locked_def commit_locked_def cancel_host_def host_event_def Let_def adopt_kept run_core_def split: if_splits)

definition events_ok :: "hosting \<Rightarrow> bool" where
  "events_ok s \<longleftrightarrow>
     (if run_notified (h_run s) then run_phase (h_run s) = Finished \<and>
        (\<exists>v rest. h_events s = (''agent.finished'', v) # rest \<and> list_all (\<lambda>e. fst e = ''agent.updated'') rest)
      else list_all (\<lambda>e. fst e = ''agent.updated'') (h_events s))"

lemma run_progressed_notified: "run_progressed r m = Inr r' \<Longrightarrow> run_notified r' = run_notified r"
  by (elim run_progressed_kept) simp

lemma silent_step:
  "host_step s s' \<Longrightarrow> s' \<noteq> host_event s \<Longrightarrow> h_events s' = h_events s \<and> run_notified (h_run s') = run_notified (h_run s)"
  by (induction rule: host_step.induct)
    (auto simp: begin_locked_def submit_locked_def commit_locked_def submit_failed_def cancel_host_def terminal_locked_def Let_def
       adopt_kept settle_outcome_kept bindE_eq_Inr dest!: run_progressed_notified split: if_splits)

lemma events_step:
  assumes "host_step s s'" "events_ok s" "hosting_ok s"
  shows "events_ok s'"
proof (cases "s' = host_event s")
  case True
  then show ?thesis using assms(2) by (auto simp: events_ok_def host_event_def Let_def)
next
  case False
  have "run_phase (h_run s') = Finished" if "run_notified (h_run s)"
    using finished_step [OF assms(1,3)] assms(2) that by (simp add: events_ok_def run_core_def)
  then show ?thesis using silent_step [OF assms(1) False] assms(2) by (auto simp: events_ok_def split: if_splits)
qed

interpretation hosting: guarded_steps host_step "reach_ok limits" for limits
  by unfold_locales (rule host_step_reach)

lemma host_steps_events: "host_step\<^sup>*\<^sup>* s t \<Longrightarrow> reach_ok limits s \<Longrightarrow> events_ok s \<Longrightarrow> events_ok t"
  by (erule hosting.steps_keep [where P = events_ok]) (auto intro: events_step simp: reach_ok_def)

lemma host_steps_finished:
  assumes "host_step\<^sup>*\<^sup>* s t" "reach_ok limits s" "run_phase (h_run s) = Finished"
  shows "run_core (h_run t) = run_core (h_run s)"
proof (rule hosting.steps_keep [OF assms(1,2), where P = "\<lambda>u. run_core (h_run u) = run_core (h_run s)"])
  fix u v
  assume "host_step u v" "reach_ok limits u" "run_core (h_run u) = run_core (h_run s)"
  moreover from this have "run_phase (h_run u) = Finished" using assms(3) by (simp add: run_core_def)
  ultimately show "run_core (h_run v) = run_core (h_run s)" by (simp add: finished_step reach_ok_def)
qed simp

section \<open>The codec accepts the progress window\<close>

lemma host_messages_plain:
  "m \<in> set host_messages \<Longrightarrow> concat (map jprint_char (lit m)) = lit m \<and> is_ascii (lit m) \<and> length m \<le> 40"
proof -
  have "list_all (\<lambda>m. concat (map jprint_char (lit m)) = lit m \<and> is_ascii (lit m) \<and> length m \<le> 40) host_messages"
    by code_simp
  then show "m \<in> set host_messages \<Longrightarrow> ?thesis" by (simp add: list_all_iff)
qed

lemma progress_record_text:
  assumes "m \<in> set host_messages"
  shows "json_dumps (progress_record seq m) = lit ''{\"seq\":'' @ print_int seq @ lit '',\"message\":\"'' @ lit m @ lit ''\"}''"
proof -
  have "jprint_str (lit ''seq'') = lit ''\"seq\"''" "jprint_str (lit ''message'') = lit ''\"message\"''" by code_simp+
  moreover have "jprint_str (lit m) = lit ''\"'' @ lit m @ lit ''\"''"
    using host_messages_plain [OF assms] by (simp add: jprint_with_def lit_def)
  ultimately show ?thesis by (simp add: progress_record_def lit_def)
qed

lemma is_ascii_append [simp]: "is_ascii (a @ b) \<longleftrightarrow> is_ascii a \<and> is_ascii b"
  by (simp add: is_ascii_def)

lemma print_nat_ascii: "is_ascii (print_nat n)"
  using print_nat_digits [of n] by (auto simp: is_ascii_def list_all_iff is_digit_def)

lemma progress_record_size:
  assumes "m \<in> set host_messages" "0 \<le> seq" "seq \<le> max_safe_integer"
  shows "\<exists>bs. control_encode_frame control_max_frame_bytes (progress_record seq m) = Inr bs \<and> length m \<le> length bs - 1"
proof -
  let ?t = "json_dumps (progress_record seq m)"
  note plain = host_messages_plain [OF assms(1)]
  have int: "print_int seq = print_nat (nat seq)" using assms(2) by (simp add: print_int_def)
  have lits: "is_ascii (lit ''{\"seq\":'')" "is_ascii (lit '',\"message\":\"'')" "is_ascii (lit ''\"}'')" by code_simp+
  have ascii: "is_ascii ?t" using plain lits by (simp add: progress_record_text [OF assms(1)] int print_nat_ascii)
  have "length (print_nat (nat seq)) \<le> 16" using assms(3) by (intro length_print_nat_le) (simp_all add: max_safe_integer_def)
  then have len: "length ?t \<le> 100" "length m \<le> length ?t" using plain by (simp_all add: progress_record_text [OF assms(1)] int)
  have strs: "control_text (lit m)" "control_text (lit ''seq'')" "control_text (lit ''message'')"
    using plain by (auto intro!: control_text_ascii is_ascii_lit simp: control_max_frame_bytes_def)
  have "control_bounds (progress_record seq m) = Inr ()"
    using strs assms(2,3)
    by (simp add: control_bounds_accepts progress_record_def control_max_json_depth_def control_max_json_nodes_def safe_int_def)
  moreover obtain bs where bs: "utf8 ?t = Some bs" "length bs = length ?t"
    using ascii ascii_encodable [OF ascii] ascii_utf8_size [OF ascii] utf8_len_eq [of ?t] by (auto simp: utf8_len_def)
  ultimately show ?thesis using len by (simp add: control_encode_frame_def control_max_frame_bytes_def)
qed

fun consecutive :: "int \<Rightarrow> pyval list \<Rightarrow> bool" where
  "consecutive seq [] = True"
| "consecutive seq (r # rs) = ((\<exists>m \<in> set host_messages. r = progress_record seq m) \<and> consecutive (seq + 1) rs)"

lemma consecutive_nth:
  "(\<forall>i < length rs. \<exists>m \<in> set host_messages. rs ! i = progress_record (seq + int i) m) \<Longrightarrow> consecutive seq rs"
proof (induction rs arbitrary: seq)
  case (Cons r rs)
  have "\<exists>m \<in> set host_messages. rs ! i = progress_record (seq + 1 + int i) m" if "i < length rs" for i
    using Cons.prems that by (auto dest!: spec [of _ "Suc i"] simp: algebra_simps)
  then show ?case using Cons by force
qed simp

lemma consecutive_sized:
  "consecutive seq rs \<Longrightarrow> 0 \<le> seq \<Longrightarrow> seq + int (length rs) \<le> max_safe_integer + 1 \<Longrightarrow>
     (\<exists>b. any_larger mx rs = Inr b) \<and> (\<exists>n. sizes rs = Inr n)"
proof (induction rs arbitrary: seq)
  case (Cons r rs)
  then obtain m where m: "m \<in> set host_messages" "r = progress_record seq m" by auto
  then obtain bs where "control_encode_frame control_max_frame_bytes r = Inr bs"
    using progress_record_size [OF m(1), of seq] Cons.prems by auto
  then have "record_size r = Inr (int (length bs) - 1)" by (simp add: record_size_def)
  then show ?case using Cons.IH [of "seq + 1"] Cons.prems by auto
qed (intro conjI exI, rule any_larger.simps, rule sizes.simps)

lemma over_budget_total:
  assumes "consecutive seq rs" "0 \<le> seq" "seq + int (length rs) \<le> max_safe_integer + 1"
  shows "\<exists>b. over_budget limits rs = Inr b"
proof -
  obtain b n where "any_larger (the_Int (fld limits ''progressRecordBytes'')) rs = Inr b" "sizes rs = Inr n"
    using consecutive_sized [OF assms] by blast
  then show ?thesis by (cases "over_budget limits rs") (auto simp: over_budget_def split: if_splits)
qed

definition progress_limits :: "pyval \<Rightarrow> bool" where
  "progress_limits limits \<longleftrightarrow> 0 \<le> the_Int (fld limits ''progressRecords'') \<and> 0 \<le> the_Int (fld limits ''progressBytes'')"

lemma trim_records_total:
  "consecutive seq rs \<Longrightarrow> 0 \<le> seq \<Longrightarrow> seq + int (length rs) \<le> max_safe_integer + 1 \<Longrightarrow> progress_limits limits \<Longrightarrow>
     \<exists>rs'. trim_records limits rs = Inr rs'"
proof (induction rs arbitrary: seq)
  case Nil
  then show ?case by (simp add: over_budget_def progress_limits_def)
next
  case (Cons r rs)
  obtain b where "over_budget limits (r # rs) = Inr b" using over_budget_total [OF Cons.prems(1-3)] by blast
  then show ?case using Cons.IH [of "seq + 1"] Cons.prems by (cases b) simp_all
qed

lemma v2_records_accept:
  "consecutive seq rs \<Longrightarrow> 0 \<le> seq \<Longrightarrow> seq + int (length rs) \<le> max_safe_integer + 1 \<Longrightarrow>
     any_larger mx rs = Inr False \<Longrightarrow> sizes rs = Inr n \<Longrightarrow> v2_progress_records mx tot seq rs = Inr (tot + nat n)"
proof (induction rs arbitrary: seq tot n)
  case (Cons r rs)
  then obtain m where m: "m \<in> set host_messages" "r = progress_record seq m" by auto
  obtain bs where bs: "control_encode_frame control_max_frame_bytes r = Inr bs" "length m \<le> length bs - 1"
    using progress_record_size [OF m(1), of seq] Cons.prems m(2) by auto
  have "bs \<noteq> []" using bs(1) by (auto simp: control_encode_frame_def bindE_eq_Inr split: option.splits if_splits)
  then have size: "record_size r = Inr (int (length bs - 1))" using bs(1) by (cases bs) (simp_all add: record_size_def)
  then obtain n' where n': "sizes rs = Inr n'" "n = int (length bs - 1) + n'" and small: "int (length bs - 1) \<le> mx"
    and rest: "any_larger mx rs = Inr False"
    using Cons.prems by (auto simp: bindE_eq_Inr split: if_splits)
  have "0 \<le> n'" using sizes_Inr [OF n'(1)] by simp
  have "length m \<le> nat mx" using bs(2) small by linarith
  then have "control_scalar_string (fld r ''message'') ''progress message'' (nat mx) False = Inr ()"
    using host_messages_plain [OF m(1)]
    by (simp add: m(2) progress_record_def control_scalar_accepts ascii_encodable ascii_utf8_size)
  moreover have "control_object r [''seq'', ''message''] [] ''progress record'' = Inr ()" "fld r ''seq'' = PInt seq"
    by (auto simp: m(2) progress_record_def control_object_obj obj_def)
  moreover have "v2_progress_records mx (tot + (length bs - 1)) (seq + 1) rs = Inr (tot + (length bs - 1) + nat n')"
    using Cons.prems rest n'(1) by (intro Cons.IH) auto
  ultimately show ?case using bs(1) small \<open>0 \<le> n'\<close> n'(2) by (simp add: Let_def nat_add_distrib)
qed simp

lemma window_accepted:
  assumes "window_ok limits p" "p_next p \<le> max_safe_integer"
  shows "v2_validate_progress limits (progress_value p) = Inr ()"
proof -
  let ?rs = "p_records p"
  have w: "1 \<le> p_first p" "p_next p = p_first p + int (length ?rs)" "p_truncated p = (1 < p_first p)"
    "consecutive (p_first p) ?rs" and over: "over_budget limits ?rs = Inr False"
    using assms(1) by (auto simp: window_ok_def window_def intro: consecutive_nth)
  obtain n where n: "int (length ?rs) \<le> the_Int (fld limits ''progressRecords'')" "sizes ?rs = Inr n"
    "any_larger (the_Int (fld limits ''progressRecordBytes'')) ?rs = Inr False" "n \<le> the_Int (fld limits ''progressBytes'')"
    using over by (auto simp: over_budget_def bindE_eq_Inr split: if_splits)
  have "0 \<le> n" using sizes_Inr [OF n(2)] by simp
  have "v2_progress_records (the_Int (fld limits ''progressRecordBytes'')) 0 (p_first p) ?rs = Inr (0 + nat n)"
    using w assms(2) n by (intro v2_records_accept) auto
  then show ?thesis using w assms(2) n \<open>0 \<le> n\<close>
    by (auto simp: v2_validate_progress_def progress_value_def Let_def bindE_eq_Inr control_object_obj obj_def control_safe_accepts)
qed

section \<open>Properties\<close>

text \<open>C17 Reporting progress always succeeds, and the control codec accepts what it leaves: from a window the codec
  accepts, for any non-negative operator limits, the trimming loop ends with a window of consecutive records within
  all three budgets that passes the codec's validation.\<close>

theorem progress_accepted:
  assumes "window_ok limits p" "p_next p < max_safe_integer" "progress_limits limits" "m \<in> set host_messages"
  shows "\<exists>p'. host_progress limits p m = Inr p' \<and> p_next p' = p_next p + 1 \<and>
    v2_validate_progress limits (progress_value p') = Inr ()"
proof -
  let ?rs = "p_records p @ [progress_record (p_next p) m]"
  have w: "window p" using assms(1) by (simp add: window_ok_def)
  have "\<exists>n \<in> set host_messages. ?rs ! i = progress_record (p_first p + int i) n" if "i < length ?rs" for i
    using w assms(4) that by (cases "i < length (p_records p)") (auto simp: window_def nth_append less_Suc_eq)
  then have "consecutive (p_first p) ?rs" by (intro consecutive_nth) blast
  then obtain rs where "trim_records limits ?rs = Inr rs"
    using trim_records_total [of "p_first p" ?rs limits] w assms(2,3) by (auto simp: window_def)
  then obtain p' where p': "host_progress limits p m = Inr p'" "p_next p' = p_next p + 1"
    by (simp add: host_progress_def Let_def)
  have "window_ok limits p'" by (rule host_progress_window [OF p'(1) w assms(4)])
  then show ?thesis using p' window_accepted [of limits p'] assms(2) by auto
qed

text \<open>C4 However the hosting thread, the submitting broker, cancellation and timeouts interleave, the public record of a
  run is one the control codec's coherence rules allow: phase, cleanup status, outcome, submission and error agree,
  and its progress window is contiguous and within the operator's limits.\<close>

theorem hosted_run_coherent:
  assumes "start_hosting rid limits = Inr s0" "host_step\<^sup>*\<^sup>* s0 s"
  shows "run_coherent (run_public (h_run s)) \<and> progress_ok limits (progress_value (run_progress (h_run s)))"
proof -
  have "reach_ok limits s" using start_reach [OF assms(1)] hosting.steps_inv [OF assms(2)] by blast
  then show ?thesis by (simp add: reach_ok_def hosting_ok_def run_ok_coherent window_progress_ok)
qed

text \<open>C13 A run finishes once: at most one finished event is emitted and no update follows it, and after the run has
  finished its phase, outcome, submission, error, cleanup and progress never change again.\<close>

theorem hosted_run_final:
  assumes "start_hosting rid limits = Inr s0" "host_step\<^sup>*\<^sup>* s0 s"
  shows "(\<exists>fin upd. h_events s = fin @ upd \<and> length fin \<le> 1 \<and> list_all (\<lambda>e. fst e = ''agent.finished'') fin \<and>
      list_all (\<lambda>e. fst e = ''agent.updated'') upd) \<and>
    (run_phase (h_run s) = Finished \<longrightarrow> (\<forall>t. host_step\<^sup>*\<^sup>* s t \<longrightarrow> run_core (h_run t) = run_core (h_run s)))"
proof -
  note start = start_reach [OF assms(1)]
  have "run_notified (h_run s0) = False"
    using assms(1) by (auto simp: start_hosting_def bindE_eq_Inr new_run_def dest!: run_progressed_notified)
  then have "events_ok s" using host_steps_events [OF assms(2), of limits] start by (simp add: events_ok_def)
  then have "\<exists>fin upd. h_events s = fin @ upd \<and> length fin \<le> 1 \<and> list_all (\<lambda>e. fst e = ''agent.finished'') fin \<and>
      list_all (\<lambda>e. fst e = ''agent.updated'') upd"
  proof (cases "run_notified (h_run s)")
    case True
    then obtain v rest where "h_events s = [(''agent.finished'', v)] @ rest" "list_all (\<lambda>e. fst e = ''agent.updated'') rest"
      using \<open>events_ok s\<close> by (auto simp: events_ok_def)
    then show ?thesis by (intro exI [of _ "[(''agent.finished'', v)]"] exI [of _ rest]) simp
  next
    case False
    then show ?thesis using \<open>events_ok s\<close> by (intro exI [of _ "[]"] exI [of _ "h_events s"]) (simp add: events_ok_def)
  qed
  moreover have "reach_ok limits s" using start hosting.steps_inv [OF assms(2)] by blast
  ultimately show ?thesis using host_steps_finished by blast
qed

section \<open>Witnesses\<close>

definition example_host_limits :: pyval where
  "example_host_limits = PDict [(lit ''progressRecords'', PInt 2), (lit ''progressRecordBytes'', PInt 200), (lit ''progressBytes'', PInt 300)]"

definition example_start :: hosting where
  "example_start = projr (start_hosting (replicate 32 97) example_host_limits)"

definition example_ended :: hosting where
  "example_ended = projr (join_timeout example_start)"

definition example_settled :: hosting where
  "example_settled = projr (terminal_locked \<lparr>res_reason = ''cancelled'', res_complete = False, res_remaining = [pyl ''agent-host'']\<rparr>
     (cancel_host ''client-failure'' example_start))"

lemma example_started: "start_hosting (replicate 32 97) example_host_limits = Inr example_start"
  by code_simp

lemma example_terminal:
  "run_cancel (h_run (cancel_host ''client-failure'' example_start))"
  "run_phase (h_run (cancel_host ''client-failure'' example_start)) \<noteq> Finished"
  "terminal_locked \<lparr>res_reason = ''cancelled'', res_complete = False, res_remaining = [pyl ''agent-host'']\<rparr>
     (cancel_host ''client-failure'' example_start) = Inr example_settled"
  "host_event example_settled = example_ended"
  "run_phase (h_run example_ended) = Finished"
  by code_simp+

lemma example_steps: "host_step\<^sup>*\<^sup>* example_start example_ended"
proof -
  have "host_step example_start (cancel_host ''client-failure'' example_start)" by (rule host_step.cancels)
  moreover have "host_step (cancel_host ''client-failure'' example_start) example_settled"
    using example_terminal by (intro host_step.ends [OF disjI2]) auto
  moreover have "host_step example_settled example_ended" using host_step.announces [of example_settled] example_terminal by simp
  ultimately show ?thesis by (meson rtranclp.rtrancl_into_rtrancl rtranclp.rtrancl_refl)
qed

theorem hosted_run_coherent_witness: "run_coherent (run_public (h_run example_ended))"
  using hosted_run_coherent [OF example_started example_steps] by simp

theorem hosted_run_final_witness:
  "run_core (h_run (host_event example_ended)) = run_core (h_run example_ended)"
  using hosted_run_final [OF example_started example_steps] example_terminal(5) host_step.announces by blast

theorem progress_accepted_witness:
  "\<exists>p'. host_progress example_host_limits (run_progress (h_run example_start)) ''Sealing submission source'' = Inr p' \<and>
     v2_validate_progress example_host_limits (progress_value p') = Inr ()"
proof -
  have "window_ok example_host_limits (run_progress (h_run example_start))"
    using start_reach [OF example_started] by (simp add: reach_ok_def)
  moreover have "p_next (run_progress (h_run example_start)) < max_safe_integer" by code_simp
  moreover have "progress_limits example_host_limits" "''Sealing submission source'' \<in> set host_messages" by code_simp+
  ultimately show ?thesis using progress_accepted by blast
qed

end
