(* ===== verification/AuthoringBroker.thy ===== *)
theory AuthoringBroker
  imports JsonAscii JsonBounds Machines
begin

text \<open>
  The private broker of one authoring run (\<^verbatim>\<open>supervisor/mirrorgate/authoring_broker.py\<close>).  \<open>dispatch_enter\<close> is the part of
  \<^verbatim>\<open>dispatch\<close> under \<^verbatim>\<open>self.lock\<close>: it refuses the request, answers it, or admits one callback.  What happens when a
  callback returns is \<open>exec_leave\<close> and \<open>submit_leave\<close>, with the callback's outcome as argument; \<open>broker_trace\<close>
  interleaves all of them with \<^verbatim>\<open>close\<close>, as the connection threads can.  The copies the constructor makes of the contract
  and the environment are the values themselves.
\<close>

section \<open>Reading requests\<close>

definition broker_max_frame :: nat where "broker_max_frame = 1048576"

fun visit :: "pyval \<Rightarrow> nat \<Rightarrow> nat \<Rightarrow> nat res"
  and visit_list :: "pyval list \<Rightarrow> nat \<Rightarrow> nat \<Rightarrow> nat res"
  and visit_items :: "(pystr \<times> pyval) list \<Rightarrow> nat \<Rightarrow> nat \<Rightarrow> nat res"
where
  "visit item depth seen =
     (if 32 < depth \<or> 20000 < Suc seen then Inl (PyValueError ''JSON structure exceeds limit'')
      else case item of
        PDict d \<Rightarrow> visit_items d (Suc depth) (Suc seen)
      | PList xs \<Rightarrow> visit_list xs (Suc depth) (Suc seen)
      | _ \<Rightarrow> Inr (Suc seen))"
| "visit_list [] depth seen = Inr seen"
| "visit_list (x # xs) depth seen = bindE (visit x depth seen) (\<lambda>n. visit_list xs depth n)"
| "visit_items [] depth seen = Inr seen"
| "visit_items ((k, x) # d) depth seen = bindE (visit x depth seen) (\<lambda>n. visit_items d depth n)"

declare visit.simps [simp del]

definition strict_json :: "nat \<Rightarrow> bytes \<Rightarrow> pyval res" where
  "strict_json lim data =
     (case utf8_decode data of
        None \<Rightarrow> Inl PyUnicodeError
      | Some text \<Rightarrow>
          bindE (strict_loads (PyValueError ''duplicate field'') (PyValueError ''invalid number'') lim text) (\<lambda>v.
          bindE (visit v 0 0) (\<lambda>_. Inr v)))"

section \<open>State\<close>

record broker =
  b_token :: pystr
  b_contract :: pyval
  b_tools :: "pystr list"
  b_closed :: bool
  b_tool_active :: bool
  b_submitting :: bool
  b_submission :: "pyval option"
  b_submit_done :: bool

definition tool_definitions :: pyval where
  "tool_definitions =
     (let empty = PDict [(lit ''type'', pyl ''object''), (lit ''properties'', PDict []), (lit ''additionalProperties'', PBool False)];
          str = PDict [(lit ''type'', pyl ''string'')] in
      PList
       [PDict [(lit ''name'', pyl ''public_contract''),
          (lit ''description'', pyl ''Read all approved implementation requirements and public files.''), (lit ''inputSchema'', empty)],
        PDict [(lit ''name'', pyl ''gate_exec''),
          (lit ''description'', pyl ''Execute an approved tool inside the fixed restricted authoring workspace. All source access and tests use this operation.''),
          (lit ''inputSchema'', PDict
            [(lit ''type'', pyl ''object''),
             (lit ''properties'', PDict [(lit ''toolId'', str),
                (lit ''args'', PDict [(lit ''type'', pyl ''array''), (lit ''items'', str), (lit ''maxItems'', PInt 128)])]),
             (lit ''required'', PList [pyl ''toolId'', pyl ''args'']), (lit ''additionalProperties'', PBool False)])],
        PDict [(lit ''name'', pyl ''submit''),
          (lit ''description'', pyl ''Irrevocably seal and submit source. Further authoring is denied.''), (lit ''inputSchema'', empty)]])"

definition broker_contract :: "pyval \<Rightarrow> pystr list \<Rightarrow> pyval option \<Rightarrow> pyval" where
  "broker_contract contract tools environment =
     (case environment of
        None \<Rightarrow> PDict (dset (the_Dict contract) (lit ''tools'') (PList (map PStr tools)))
      | Some e \<Rightarrow> PDict [(lit ''schema'', pyl ''mirrorgate.public-contract/v2''), (lit ''task'', contract),
                        (lit ''tools'', PList (map PStr tools)), (lit ''environment'', e)])"

section \<open>Dispatch\<close>

abbreviation denied :: "string \<Rightarrow> pyexc" where
  "denied message \<equiv> PyValueError message"

definition request_envelope :: "pyval \<Rightarrow> unit res" where
  "request_envelope r = guardE (is_Dict r \<and> is_Int (fld r ''id'') \<and> 1 \<le> the_Int (fld r ''id'') \<and> the_Int (fld r ''id'') \<le> 2 ^ 53 - 1)
     (denied ''invalid request'')"

text \<open>\<^verbatim>\<open>secrets.compare_digest\<close> raises \<^verbatim>\<open>TypeError\<close> on a string with non-ASCII characters.\<close>

definition request_owner :: "broker \<Rightarrow> pyval \<Rightarrow> unit res" where
  "request_owner b r =
     (let expected = (if fld r ''op'' = pyl ''exec'' then [''id'', ''token'', ''op'', ''toolId'', ''args''] else [''id'', ''token'', ''op'']) in
      if set (keys r) \<noteq> names expected \<or> \<not> is_Str (fld r ''token'') then Inl (denied ''invalid owner'')
      else if \<not> is_ascii (the_Str (fld r ''token'')) then Inl PyTypeError
      else guardE (the_Str (fld r ''token'') = b_token b) (denied ''invalid owner''))"

definition argument_ok :: "pyval \<Rightarrow> bool" where
  "argument_ok a \<longleftrightarrow> is_Str a \<and> the_Str a \<noteq> [] \<and> 0 \<notin> set (the_Str a)"

definition exec_gate :: "broker \<Rightarrow> pyval \<Rightarrow> unit res" where
  "exec_gate b r =
     (let tool = fld r ''toolId''; args = fld r ''args'' in seqE
       [guardE (hashable tool) PyTypeError,
        guardE (is_Str tool \<and> the_Str tool \<in> set (b_tools b) \<and> is_List args \<and> length (the_List args) \<le> 128 \<and>
                list_all argument_ok (the_List args)) (denied ''tool denied''),
        guardE (list_all (\<lambda>a. encodable (the_Str a)) (the_List args)) PyUnicodeError,
        guardE (sum_list (map (\<lambda>a. utf8_size (the_Str a)) (the_List args)) \<le> 60000 \<and> \<not> b_tool_active b) (denied ''tool denied'')])"

datatype admitted = Reply pyval | JoinSubmit | RunSubmit | RunExec pyval pyval

abbreviation submitted_reply :: pyval where
  "submitted_reply \<equiv> PDict [(lit ''submitted'', PBool True)]"

definition dispatch_locked :: "broker \<Rightarrow> pyval \<Rightarrow> (admitted \<times> broker) res" where
  "dispatch_locked b r =
     (let op = fld r ''op''; join = (op = pyl ''submit'' \<and> b_submitting b) in
      if b_closed b then Inl (denied ''broker closed'')
      else if op = pyl ''submit'' \<and> b_submission b \<noteq> None then Inr (Reply submitted_reply, b)
      else if b_submitting b \<and> \<not> join \<or> b_submission b \<noteq> None then Inl (denied ''authoring revoked'')
      else if op = pyl ''contract'' then Inr (Reply (PDict [(lit ''contract'', b_contract b)]), b)
      else if op = pyl ''submit'' then Inr (if join then JoinSubmit else RunSubmit, b\<lparr>b_submitting := True\<rparr>)
      else if op = pyl ''exec'' then
        bindE (exec_gate b r) (\<lambda>_. Inr (RunExec (fld r ''toolId'') (fld r ''args''), b\<lparr>b_tool_active := True\<rparr>))
      else Inl (denied ''unknown operation''))"

definition dispatch_enter :: "broker \<Rightarrow> pyval \<Rightarrow> (admitted \<times> broker) res" where
  "dispatch_enter b r = bindE (seqE [request_envelope r, request_owner b r]) (\<lambda>_. dispatch_locked b r)"

definition join_reply :: "bool \<Rightarrow> broker \<Rightarrow> pyval res" where
  "join_reply done b = retE [guardE (done \<and> b_submission b \<noteq> None) (denied ''submission unavailable'')] submitted_reply"

definition submit_leave :: "pyval res \<Rightarrow> broker \<Rightarrow> pyval res \<times> broker" where
  "submit_leave outcome b =
     (case outcome of
        Inl e \<Rightarrow> (Inl e, b\<lparr>b_submit_done := True\<rparr>)
      | Inr v \<Rightarrow> (Inr submitted_reply, b\<lparr>b_submission := Some v, b_submit_done := True\<rparr>))"

text \<open>\<^verbatim>\<open>json.dumps\<close> with its default separators.\<close>

fun join_spaced :: "pystr list \<Rightarrow> pystr" where
  "join_spaced [] = []"
| "join_spaced [x] = x"
| "join_spaced (x # y # ys) = x @ [44, 32] @ join_spaced (y # ys)"

fun json_spaced :: "pyval \<Rightarrow> pystr" where
  "json_spaced (PList xs) = [91] @ join_spaced (map json_spaced xs) @ [93]"
| "json_spaced (PDict d) = [123] @ join_spaced (map (\<lambda>(k, v). jprint_with ascii_char k @ [58, 32] @ json_spaced v) d) @ [125]"
| "json_spaced v = json_print ascii_char v"

definition exec_leave :: "pyval res \<Rightarrow> broker \<Rightarrow> pyval res \<times> broker" where
  "exec_leave outcome b =
     (bindE outcome (\<lambda>result. retE
        [guardE (jints plain_int result) (PyValueError ''integer string conversion limit''),
         guardE (length (json_spaced result) \<le> broker_max_frame - 256) (denied ''tool result exceeds limit'')] result),
      b\<lparr>b_tool_active := False\<rparr>)"

definition broker_close :: "broker \<Rightarrow> broker" where
  "broker_close b = b\<lparr>b_closed := True, b_submit_done := True\<rparr>"

section \<open>Histories\<close>

text \<open>The admissions of a broker, newest first, each with the request that obtained it.\<close>

inductive broker_trace :: "broker \<Rightarrow> (pyval \<times> admitted) list \<Rightarrow> broker \<Rightarrow> bool" for b0 where
  start: "broker_trace b0 [] b0"
| enter: "broker_trace b0 ((r, a) # h) b'" if "broker_trace b0 h b" "dispatch_enter b r = Inr (a, b')"
| exec_ends: "broker_trace b0 h (snd (exec_leave outcome b))" if "broker_trace b0 h b"
| submit_ends: "broker_trace b0 h (snd (submit_leave outcome b))" if "broker_trace b0 h b" "b_submitting b"
| closes: "broker_trace b0 h (broker_close b)" if "broker_trace b0 h b"

definition fresh_broker :: "broker \<Rightarrow> bool" where
  "fresh_broker b \<longleftrightarrow> \<not> b_submitting b \<and> b_submission b = None \<and> \<not> b_tool_active b"

definition is_exec :: "admitted \<Rightarrow> bool" where
  "is_exec a \<longleftrightarrow> (case a of RunExec _ _ \<Rightarrow> True | _ \<Rightarrow> False)"

definition broker_ok :: "broker \<Rightarrow> (pyval \<times> admitted) list \<Rightarrow> broker \<Rightarrow> bool" where
  "broker_ok b0 h b \<longleftrightarrow> b_token b = b_token b0 \<and> b_tools b = b_tools b0 \<and> b_contract b = b_contract b0 \<and>
     (b_submission b \<noteq> None \<longrightarrow> b_submitting b) \<and> (b_submitting b \<longleftrightarrow> RunSubmit \<in> snd ` set h)"

lemma dispatch_lockedE:
  assumes "dispatch_locked b r = Inr (a, b')"
  obtains (answered) "a = Reply submitted_reply" "b' = b" "b_submission b \<noteq> None" "fld r ''op'' = pyl ''submit''"
  | (contract) "a = Reply (PDict [(lit ''contract'', b_contract b)])" "b' = b" "\<not> b_submitting b" "fld r ''op'' = pyl ''contract''"
  | (joined) "a = JoinSubmit" "b' = b" "b_submitting b" "fld r ''op'' = pyl ''submit''"
  | (submit) "a = RunSubmit" "b' = b\<lparr>b_submitting := True\<rparr>" "\<not> b_submitting b" "fld r ''op'' = pyl ''submit''"
  | (exec) "a = RunExec (fld r ''toolId'') (fld r ''args'')" "b' = b\<lparr>b_tool_active := True\<rparr>" "\<not> b_submitting b"
      "exec_gate b r = Inr ()" "fld r ''op'' = pyl ''exec''"
proof -
  have same: "b\<lparr>b_submitting := True\<rparr> = b" if "b_submitting b" using that by (cases b) simp
  have open': "\<not> b_closed b" using assms by (simp add: dispatch_locked_def Let_def split: if_splits)
  consider "fld r ''op'' = pyl ''submit''" | "fld r ''op'' = pyl ''contract''" | "fld r ''op'' = pyl ''exec''"
    using assms by (simp add: dispatch_locked_def Let_def split: if_splits)
  then show ?thesis
  proof cases
    case 1
    show ?thesis
    proof (cases "b_submission b = None")
      case True
      then have a: "a = (if b_submitting b then JoinSubmit else RunSubmit)" and b': "b' = b\<lparr>b_submitting := True\<rparr>"
        using assms 1 open' by (simp_all add: dispatch_locked_def Let_def)
      show ?thesis
      proof (cases "b_submitting b")
        case True
        have "b' = b" using b' same [OF True] by (rule trans)
        then show ?thesis using that(3) a True 1 by simp
      next
        case False
        show ?thesis by (rule that(4) [OF _ b' False 1]) (simp add: a False)
      qed
    next
      case False
      then have "a = Reply submitted_reply" "b' = b" using assms 1 open' by (simp_all add: dispatch_locked_def Let_def)
      then show ?thesis using that(1) [OF _ _ False 1] by blast
    qed
  next
    case 2
    then have "a = Reply (PDict [(lit ''contract'', b_contract b)])" "b' = b" "\<not> b_submitting b"
      using assms open' by (auto simp: dispatch_locked_def Let_def split: if_splits)
    then show ?thesis using that(2) [OF _ _ _ 2] by blast
  next
    case 3
    then have "exec_gate b r = Inr ()" "a = RunExec (fld r ''toolId'') (fld r ''args'')" "b' = b\<lparr>b_tool_active := True\<rparr>"
      "\<not> b_submitting b"
      using assms open' by (simp_all add: dispatch_locked_def Let_def bindE_eq_Inr split: if_splits)
    then show ?thesis using that(5) 3 by blast
  qed
qed

lemma dispatch_enterD:
  assumes "dispatch_enter b r = Inr (a, b')"
  shows "dispatch_locked b r = Inr (a, b')" "fld r ''token'' = PStr (b_token b)"
  using assms
  by (auto simp: dispatch_enter_def bindE_eq_Inr request_owner_def Let_def is_Str_def split: if_splits)

lemma broker_trace_ok: "broker_trace b0 h b \<Longrightarrow> fresh_broker b0 \<Longrightarrow> broker_ok b0 h b"
proof (induction rule: broker_trace.induct)
  case (enter h b r a b')
  then have ok: "broker_ok b0 h b" by simp
  from dispatch_enterD(1) [OF enter(2)] show ?case
    by (cases rule: dispatch_lockedE) (use ok in \<open>auto simp: broker_ok_def\<close>)
qed (auto simp: broker_ok_def fresh_broker_def exec_leave_def submit_leave_def broker_close_def split: sum.splits)

lemma broker_trace_enter:
  "broker_trace b0 g b \<Longrightarrow> g = (r, a) # h \<Longrightarrow> \<exists>b1 b2. broker_trace b0 h b1 \<and> dispatch_enter b1 r = Inr (a, b2)"
  by (induction rule: broker_trace.induct) auto

interpretation broker_log: history "broker_trace b0" "\<lambda>b (r, a). \<exists>b'. dispatch_enter b r = Inr (a, b')" for b0
  by unfold_locales (use broker_trace_enter in fast)

section \<open>Structure limits\<close>

lemma visit_Inr:
  "(visit v depth seen = Inr n \<longleftrightarrow> depth + height v \<le> 32 \<and> seen + nodes v \<le> 20000 \<and> n = seen + nodes v)"
  "(depth \<le> 33 \<and> seen \<le> 20000 \<longrightarrow>
     (visit_list xs depth seen = Inr n \<longleftrightarrow>
       (\<forall>x \<in> set xs. depth + height x \<le> 32) \<and> seen + sum_list (map nodes xs) \<le> 20000 \<and> n = seen + sum_list (map nodes xs)))"
  "(depth \<le> 33 \<and> seen \<le> 20000 \<longrightarrow>
     (visit_items d depth seen = Inr n \<longleftrightarrow>
       (\<forall>x \<in> set d. depth + height (snd x) \<le> 32) \<and> seen + sum_list (map (nodes \<circ> snd) d) \<le> 20000 \<and>
       n = seen + sum_list (map (nodes \<circ> snd) d)))"
proof (induction v depth seen and xs depth seen and d depth seen arbitrary: n and n and n rule: visit_visit_list_visit_items.induct)
  case (1 item depth seen)
  show ?case
  proof (cases "32 < depth \<or> 20000 < Suc seen")
    case True
    then show ?thesis using nodes_pos [of item] by (auto simp: visit.simps simp del: nodes_pos)
  next
    case False
    then show ?thesis using 1 by (cases item) (auto simp: visit.simps maxl_le_iff add_maxl_le_iff comp_def)
  qed
next
  case (3 x xs depth seen)
  show ?case
  proof (cases "depth + height x \<le> 32 \<and> seen + nodes x \<le> 20000")
    case True
    then have "visit x depth seen = Inr (seen + nodes x)" using 3(1) by blast
    then show ?thesis using 3(2) [of "seen + nodes x"] True by (simp add: add.assoc)
  next
    case False
    then obtain e where "visit x depth seen = Inl e" using 3(1) by (cases "visit x depth seen") blast+
    then show ?thesis using False by auto
  qed
next
  case (5 k x d depth seen)
  show ?case
  proof (cases "depth + height x \<le> 32 \<and> seen + nodes x \<le> 20000")
    case True
    then have "visit x depth seen = Inr (seen + nodes x)" using 5(1) by blast
    then show ?thesis using 5(2) [of "seen + nodes x"] True by (simp add: add.assoc)
  next
    case False
    then obtain e where "visit x depth seen = Inl e" using 5(1) by (cases "visit x depth seen") blast+
    then show ?thesis using False by auto
  qed
qed auto

section \<open>Properties\<close>


text \<open>C40 The recursive structure check of the broker's reader decides exactly the documented bounds: a value passes when it
  is nested at most 32 deep and has at most 20000 nodes, and the count it returns is the number of nodes.\<close>

theorem visit_decides: "visit v 0 0 = Inr n \<longleftrightarrow> height v \<le> 32 \<and> nodes v \<le> 20000 \<and> n = nodes v"
  using visit_Inr(1) [of v 0 0 n] by simp

definition example_broker :: broker where
  "example_broker = \<lparr>b_token = lit ''abc'', b_contract = PDict [], b_tools = [lit ''test''], b_closed = False, b_tool_active = False,
     b_submitting = False, b_submission = None, b_submit_done = False\<rparr>"

definition example_submit :: pyval where
  "example_submit = PDict [(lit ''id'', PInt 1), (lit ''token'', pyl ''abc''), (lit ''op'', pyl ''submit'')]"

lemma example_dispatch:
  "dispatch_enter example_broker example_submit = Inr (RunSubmit, example_broker\<lparr>b_submitting := True\<rparr>)"
  "dispatch_enter (example_broker\<lparr>b_submitting := True\<rparr>) example_submit = Inr (JoinSubmit, example_broker\<lparr>b_submitting := True\<rparr>)"
  by code_simp+


end
