(* ===== verification/Spec2Isabelle.thy ===== *)
theory Spec2Isabelle
  imports PolicyTheorems RecoveryWitness WorkerAttach HostedRun AuthoringBroker
begin

text \<open>
  \<^bold>\<open>MirrorGate supervisor.\<close>  The trusted supervisor (\<^verbatim>\<open>src/supervisor/mirrorgate\<close>) admits submissions under operator
  policy, hosts their authoring, launches workers in a sandbox and relays the worker port to an evaluator.  This
  development models its codecs, policies, state machines and the recovery journal, and proves what they guarantee to
  each other.  Raised exceptions are values of \<open>pyexc\<close>, so every error path is a branch of the model.

  \<^bold>\<open>Vocabulary.\<close>
  \<^item> \<open>Prelude\<close>: Python strings as code points, JSON values (\<open>pyval\<close>), results \<open>pyexc + 'a\<close> and the check combinators
    (\<open>bindE\<close>, \<open>guardE\<close>, \<open>seqE\<close>); the collection \<open>accept_simps\<close> says when a check accepts.
  \<^item> \<open>Sha256\<close>: the digest, computed; proofs keep it symbolic and use only that it is 64 hexadecimal digits.
  \<^item> \<open>JsonText\<close>, \<open>JsonRoundTrip\<close>, \<open>JsonNumber\<close>, \<open>JsonBounds\<close>, \<open>JsonPlain\<close>, \<open>JsonAscii\<close>, \<open>JsonWellFormed\<close>:
    \<^verbatim>\<open>json.loads\<close> and \<^verbatim>\<open>json.dumps\<close> as the sources call them.  The locale \<open>json_codec\<close> states what a set of decoder hooks must
    satisfy for printed text to read back; each codec interprets it on its own hooks.  The scanner's fuel is twice
    the length of the text plus two, which is proved to be enough; \<open>lim\<close> is the interpreter's nesting limit.

  \<^item> \<open>Machines\<close>: the locales between step relations and theorems about runs.  \<open>guarded_steps\<close> and \<open>simulation\<close> are
    interpreted by the journal, its ledger and hosted runs, \<open>history\<close> by the relay and the authoring broker.

  \<^bold>\<open>Worker port\<close> (\<^verbatim>\<open>protocol.py\<close>).  \<open>PortCodec\<close> frames and bounds; \<open>PortValue\<close> typed values; \<open>PortTyping\<close> and
    \<open>PortSemantics\<close> the meaning of types and values as HOL data; \<open>PortTheorems\<close> and \<open>PortProtocol\<close> the validators.
    Shown: the value validator decides typing, manifests determine inputs and observations, accepted requests are
    characterised, frames round-trip.

  \<^bold>\<open>Control protocol\<close> (\<^verbatim>\<open>control_protocol.py\<close>, \<^verbatim>\<open>control_protocol_v2.py\<close>).  \<open>ControlCodec\<close>, \<open>ControlProtocol\<close>,
    \<open>ControlProtocolV2\<close>, \<open>ControlTheorems\<close>: frames round-trip, output events carry exactly one byte string, accepted runs
    are coherent, accepted public tasks are characterised, version selection picks the highest common version.

  \<^bold>\<open>Policy\<close> (\<^verbatim>\<open>policy.py\<close>, \<^verbatim>\<open>control_policy.py\<close>, \<^verbatim>\<open>agent_policy.py\<close>, \<^verbatim>\<open>source_view.py\<close>).  \<open>Policy\<close>, \<open>ControlPolicy\<close>,
    \<open>AgentPolicy\<close>, \<open>PolicyCatalog\<close>, \<open>SourceView\<close>, \<open>PolicyTheorems\<close>.  The host (user ids, \<^verbatim>\<open>lstat\<close>, directory listings) is
    the record \<open>host\<close>, an argument.  Shown: admitted trees are separate, inputs stay below their root, requests only
    tighten limits, launches are the operator's command, catalog lookups are total, selectors survive re-validation.

  \<^bold>\<open>Recovery\<close> (\<^verbatim>\<open>recovery_journal.py\<close>, \<^verbatim>\<open>recovery_receipt.py\<close>).  \<open>RecoveryReceipt\<close>; \<open>RecoveryRecord\<close> and
    \<open>RecoveryRoundTrip\<close> for one record; \<open>RecoveryJournal\<close> for the journal over a disk that remembers what was flushed;
    \<open>RecoveryCrash\<close> for interruption and power loss at every point; \<open>RecoveryLedger\<close> for the abstract ledger of phases
    the journal implements; \<open>RecoveryWitness\<close> for completion and concrete instances.

  \<^bold>\<open>Worker relay\<close> (\<^verbatim>\<open>worker_broker.py\<close>).  \<open>WorkerFlow\<close> is the correlation state, its two frame handlers, frame cutting
    and the relay loops; \<open>flow_trace\<close> interleaves them.  \<open>WorkerRelay\<close> proves order, life cycle and conservation of
    bytes.  \<open>WorkerAttach\<close> is the attachment frame, the accept loop over arriving peers and the closing flags.

  \<^bold>\<open>Hosting\<close> (\<^verbatim>\<open>orchestration.py\<close>, \<^verbatim>\<open>authoring_broker.py\<close>).  \<open>HostedRun\<close> models the run record by its critical sections;
    \<open>host_step\<close> interleaves the hosting thread, the broker and the control connection.  Its public record is shown to
    satisfy the coherence rules \<open>ControlTheorems\<close> derives from the codec, and its progress to be accepted by the codec.
    \<open>AuthoringBroker\<close> models dispatch of the private broker, which starts the submission callback at most once.

  \<^bold>\<open>Interaction.\<close>  The relay validates with the port codec; hosting reports through the control codec; the policy layer
  admits what the control codec accepts; receipts and journal records are canonical JSON of the shared printer.

  \<^bold>\<open>Assumptions.\<close>  A critical section under one lock is one step.  A rename is atomic, and a power loss leaves, under
  each name, an entry of a directory state since the last directory flush, with arbitrary contents if they were not
  flushed.  Clocks, random tokens, peer credentials, sizes of reads and writes, backend and callback outcomes are
  arguments.  A write of the relay to its peer is taken to succeed.

  \<^bold>\<open>Not modelled.\<close>  Sockets, threads and timed teardown of the brokers and the control server; sessions, operations and
  dispatch of the controller; the lease of the journal (\<^verbatim>\<open>__init__\<close>, \<^verbatim>\<open>close\<close>, \<^verbatim>\<open>validate_state_root\<close>, \<^verbatim>\<open>host_boot_id\<close>) and
  \<^verbatim>\<open>filesystem_identity\<close>; offline reclamation (\<^verbatim>\<open>recovery.py\<close>); materialising source views; \<^verbatim>\<open>preparation.py\<close>,
  \<^verbatim>\<open>sandbox.py\<close>, \<^verbatim>\<open>artifacts.py\<close>, \<^verbatim>\<open>cgroup.py\<close> beyond its limit record, \<^verbatim>\<open>agent_runtime.py\<close> beyond its result record,
  \<^verbatim>\<open>agent_audit.py\<close>, \<^verbatim>\<open>agent_trampoline.py\<close>, \<^verbatim>\<open>authoring_mcp.py\<close>, \<^verbatim>\<open>node_profile.py\<close> and \<^verbatim>\<open>cli.py\<close>: they act on processes,
  descriptors, kernel control files and installed programs, whose behaviour is not in the sources.
\<close>

end
